(* ===== verification/Steps.thy ===== *)
theory Steps
  imports Main
begin

text \<open>
  Steps of a component with visible effects: a method takes the state to the new state and
  the effects it has on its environment, in order. Sequences of calls are run with
  \<open>run_all\<close>.
\<close>

fun run_all :: "('s \<Rightarrow> 's \<times> 'e list) list \<Rightarrow> 's \<Rightarrow> 's \<times> 'e list" where
  "run_all [] s = (s, [])"
| "run_all (f # fs) s =
     (case f s of (s1, e1) \<Rightarrow> (case run_all fs s1 of (s2, e2) \<Rightarrow> (s2, e1 @ e2)))"

definition modify :: "('s \<Rightarrow> 's) \<Rightarrow> 's \<Rightarrow> 's \<times> 'e list" where
  "modify f s = (f s, [])"

definition perform :: "'e list \<Rightarrow> 's \<Rightarrow> 's \<times> 'e list" where
  "perform es s = (s, es)"

lemma run_all_append:
  "run_all (fs @ gs) s =
     (case run_all fs s of (s1, e1) \<Rightarrow> (case run_all gs s1 of (s2, e2) \<Rightarrow> (s2, e1 @ e2)))"
  by (induction fs arbitrary: s) (auto split: prod.splits)

text \<open>A property kept by every step of a sequence is kept by the sequence.\<close>

lemma run_all_inv:
  assumes "\<And>f s. f \<in> set fs \<Longrightarrow> P s \<Longrightarrow> P (fst (f s))" and "P s"
  shows "P (fst (run_all fs s))"
  using assms by (induction fs arbitrary: s) (fastforce split: prod.splits)+

section \<open>Relations between the states around a step\<close>

text \<open>
  A relation over the state before, the effects and the state after is obeyed by a method when
  every call of it is related. A relation that holds for doing nothing and composes is obeyed by
  the sequences of methods that obey it, and holds along every run.
\<close>

definition obeys :: "('s \<Rightarrow> 'e list \<Rightarrow> 's \<Rightarrow> bool) \<Rightarrow> ('s \<Rightarrow> 's \<times> 'e list) \<Rightarrow> bool" where
  "obeys R f \<longleftrightarrow> (\<forall>s. R s (snd (f s)) (fst (f s)))"

lemma obeysI: "(\<And>s. R s (snd (f s)) (fst (f s))) \<Longrightarrow> obeys R f"
  by (simp add: obeys_def)

lemma obeysD: "obeys R f \<Longrightarrow> R s (snd (f s)) (fst (f s))"
  by (simp add: obeys_def)

lemma obeys_eq: "obeys R f \<Longrightarrow> f s = (t, es) \<Longrightarrow> R s es t"
  using obeysD [of R f s] by simp

lemma obeys_modify: "(\<And>s. R s [] (g s)) \<Longrightarrow> obeys R (modify g)"
  by (simp add: obeys_def modify_def)

lemma obeys_perform: "(\<And>s. R s es s) \<Longrightarrow> obeys R (perform es)"
  by (simp add: obeys_def perform_def)

locale step_relation =
  fixes R :: "'s \<Rightarrow> 'e list \<Rightarrow> 's \<Rightarrow> bool"
  assumes idle: "R s [] s"
    and compose: "R s es t \<Longrightarrow> R t es' u \<Longrightarrow> R s (es @ es') u"
begin

lemma obeys_run_all:
  assumes "\<And>f. f \<in> set fs \<Longrightarrow> obeys R f"
  shows "obeys R (run_all fs)"
proof (rule obeysI)
  fix s
  show "R s (snd (run_all fs s)) (fst (run_all fs s))"
    using assms
  proof (induction fs arbitrary: s)
    case Nil
    show ?case
      by (simp add: idle)
  next
    case (Cons f fs)
    have "R s (snd (f s)) (fst (f s))"
      using Cons.prems by (simp add: obeysD)
    moreover have "R (fst (f s)) (snd (run_all fs (fst (f s)))) (fst (run_all fs (fst (f s))))"
      using Cons by simp
    ultimately show ?case
      by (auto simp: case_prod_beta intro: compose)
  qed
qed

lemma obeys_Nil: "obeys R (run_all [])"
  by (rule obeys_run_all) simp

lemma obeys_Cons: "obeys R f \<Longrightarrow> obeys R (run_all fs) \<Longrightarrow> obeys R (run_all (f # fs))"
  by (auto simp: obeys_def case_prod_beta intro: compose)

lemma obeys_nothing: "obeys R (perform [])"
  by (rule obeys_perform) (rule idle)

end

end
