(* ===== verification/Prelude.thy ===== *)
theory Prelude
  imports Main
begin

text \<open>
  Shared vocabulary of the development: byte strings, error values, decimal
  numerals as Go's \<^verbatim>\<open>strconv\<close> prints and reads them, the separator splitting of
  \<^verbatim>\<open>bytes.Split\<close>, and the generic lemmas on lists and maps that the component
  theories use. A Go \<^verbatim>\<open>[]byte\<close> or \<^verbatim>\<open>string\<close> is a HOL \<open>string\<close>, a list of
  \<open>char\<close>, which HOL defines as the 256 byte values.
\<close>

section \<open>Named collections\<close>

named_theorems codec_simps \<open>equations that evaluate encoders and decoders\<close>
named_theorems inv_simps \<open>definitions of the component invariants\<close>
named_theorems op_simps \<open>definitions of the component operations\<close>

section \<open>Types of the model\<close>

type_synonym bytes = string

abbreviation byte_val :: "char \<Rightarrow> nat" where
  "byte_val c \<equiv> of_char c"

abbreviation byte_of :: "nat \<Rightarrow> char" where
  "byte_of n \<equiv> char_of n"

text \<open>
  The two 64-bit bounds the source depends on: \<^verbatim>\<open>math.MaxInt64\<close> and
  \<^verbatim>\<open>math.MinInt64\<close>.
\<close>

definition max_int64 :: int where
  "max_int64 = 9223372036854775807"

definition min_int64 :: int where
  "min_int64 = - 9223372036854775808"

section \<open>Lists\<close>

lemma set_takeWhile_imp: "x \<in> set (takeWhile P xs) \<Longrightarrow> P x"
  by (rule set_takeWhileD [THEN conjunct2])

lemma takeWhile_append_all [simp]:
  "list_all P xs \<Longrightarrow> takeWhile P (xs @ ys) = xs @ takeWhile P ys"
  by (induction xs) auto

lemma dropWhile_append_all [simp]:
  "list_all P xs \<Longrightarrow> dropWhile P (xs @ ys) = dropWhile P ys"
  by (induction xs) auto

lemma dropWhile_all_Nil: "list_all P xs \<Longrightarrow> dropWhile P xs = []"
  by (induction xs) auto

lemma takeWhile_all_id: "list_all P xs \<Longrightarrow> takeWhile P xs = xs"
  by (induction xs) auto

section \<open>Splitting at a separator\<close>

text \<open>
  \<^verbatim>\<open>bytes.Split(b, []byte{sep})\<close>: the parts between the separators; one part
  when the separator does not occur, and one empty part for the empty input.
\<close>

fun split_on :: "'a \<Rightarrow> 'a list \<Rightarrow> 'a list list" where
  "split_on s [] = [[]]"
| "split_on s (x # xs) =
     (if x = s then [] # split_on s xs
      else (case split_on s xs of [] \<Rightarrow> [[x]] | p # ps \<Rightarrow> (x # p) # ps))"

fun join_with :: "'a \<Rightarrow> 'a list list \<Rightarrow> 'a list" where
  "join_with s [] = []"
| "join_with s [p] = p"
| "join_with s (p # q # ps) = p @ s # join_with s (q # ps)"

lemma split_on_nonempty [simp]: "split_on s xs \<noteq> []"
  by (induction xs) (auto split: list.splits)

lemma split_on_no_sep: "s \<notin> set xs \<Longrightarrow> split_on s xs = [xs]"
  by (induction xs) auto

lemma split_on_append_sep:
  "s \<notin> set p \<Longrightarrow> split_on s (p @ s # xs) = p # split_on s xs"
  by (induction p) auto

lemma split_on_join_with:
  "ps \<noteq> [] \<Longrightarrow> \<forall>p\<in>set ps. s \<notin> set p \<Longrightarrow> split_on s (join_with s ps) = ps"
  by (induction s ps rule: join_with.induct)
    (simp_all add: split_on_no_sep split_on_append_sep)

lemma join_with_Cons:
  "ps \<noteq> [] \<Longrightarrow> join_with s (p # ps) = p @ s # join_with s ps"
  by (cases ps) auto

lemma join_with_split_on [simp]: "join_with s (split_on s xs) = xs"
proof (induction xs)
  case Nil
  show ?case by simp
next
  case (Cons x xs)
  obtain p ps where pps: "split_on s xs = p # ps"
    by (cases "split_on s xs") auto
  show ?case
    using Cons.IH pps by (cases ps) auto
qed

lemma split_on_parts_no_sep: "p \<in> set (split_on s xs) \<Longrightarrow> s \<notin> set p"
  by (induction xs arbitrary: p) (auto split: list.splits if_splits)

lemma length_split_on_parts:
  "(\<Sum>p\<leftarrow>split_on s xs. length p) + (length (split_on s xs) - 1) = length xs"
proof (induction xs)
  case Nil
  show ?case by simp
next
  case (Cons x xs)
  obtain p ps where "split_on s xs = p # ps"
    by (cases "split_on s xs") auto
  with Cons.IH show ?case by auto
qed

section \<open>Decimal numerals\<close>

definition isDigit :: "char \<Rightarrow> bool" where
  "isDigit c \<longleftrightarrow> 48 \<le> byte_val c \<and> byte_val c \<le> 57"

definition digit_char :: "nat \<Rightarrow> char" where
  "digit_char d = byte_of (48 + d)"

definition digit_val :: "char \<Rightarrow> nat" where
  "digit_val c = byte_val c - 48"

text \<open>\<^verbatim>\<open>strconv.Itoa\<close> on a non-negative value.\<close>

fun itoa_nat :: "nat \<Rightarrow> string" where
  "itoa_nat n =
     (if n < 10 then [digit_char n] else itoa_nat (n div 10) @ [digit_char (n mod 10)])"

declare itoa_nat.simps [simp del]

definition itoa :: "int \<Rightarrow> string" where
  "itoa i = (if i < 0 then CHR ''-'' # itoa_nat (nat (- i)) else itoa_nat (nat i))"

text \<open>The value of a run of decimal digits.\<close>

definition digits_val :: "string \<Rightarrow> nat" where
  "digits_val ds = foldl (\<lambda>acc c. 10 * acc + digit_val c) 0 ds"

lemma byte_val_digit_char [simp]: "d < 10 \<Longrightarrow> byte_val (digit_char d) = 48 + d"
  by (simp add: digit_char_def)

lemma isDigit_digit_char [simp]: "d < 10 \<Longrightarrow> isDigit (digit_char d)"
  by (simp add: isDigit_def)

lemma digit_val_digit_char [simp]: "d < 10 \<Longrightarrow> digit_val (digit_char d) = d"
  by (simp add: digit_val_def)

lemma digit_val_less: "isDigit c \<Longrightarrow> digit_val c < 10"
  by (auto simp: isDigit_def digit_val_def)

lemma itoa_nat_digits [simp]: "list_all isDigit (itoa_nat n)"
proof (induction n rule: itoa_nat.induct)
  case (1 n)
  then show ?case by (subst itoa_nat.simps) auto
qed

lemma itoa_nat_nonempty [simp]: "itoa_nat n \<noteq> []"
  by (subst itoa_nat.simps) simp

lemma isDigit_hd_itoa_nat [simp]: "isDigit (hd (itoa_nat n))"
  using itoa_nat_digits [of n] itoa_nat_nonempty [of n]
  by (cases "itoa_nat n") auto

lemma digits_val_Nil [simp]: "digits_val [] = 0"
  by (simp add: digits_val_def)

lemma digits_val_snoc [simp]: "digits_val (ds @ [c]) = 10 * digits_val ds + digit_val c"
  by (simp add: digits_val_def)

lemma digits_val_itoa_nat [simp]: "digits_val (itoa_nat n) = n"
proof (induction n rule: itoa_nat.induct)
  case (1 n)
  show ?case
  proof (cases "n < 10")
    case True
    then show ?thesis
      by (simp add: itoa_nat.simps [of n] digits_val_def)
  next
    case False
    with "1.IH" show ?thesis
      by (simp add: itoa_nat.simps [of n])
  qed
qed

lemma digits_val_append:
  "digits_val (xs @ ys) = digits_val xs * 10 ^ length ys + digits_val ys"
proof (induction ys rule: rev_induct)
  case Nil
  show ?case by simp
next
  case (snoc y ys)
  have "digits_val (xs @ ys @ [y]) = 10 * digits_val (xs @ ys) + digit_val y"
    using digits_val_snoc [of "xs @ ys" y] by simp
  with snoc show ?case by (simp add: algebra_simps)
qed

lemma digits_val_Cons_zero [simp]: "digits_val (CHR ''0'' # ds) = digits_val ds"
  by (simp add: digits_val_def digit_val_def)

lemma digits_val_replicate_zero [simp]: "digits_val (replicate k (CHR ''0'')) = 0"
  by (induction k) simp_all

text \<open>
  \<^verbatim>\<open>strconv.Atoi\<close> on a byte string: an optional sign and a non-empty run of
  digits whose value fits in an \<^verbatim>\<open>int64\<close>; \<open>None\<close> is the error return.
\<close>

definition atoi_unsigned :: "string \<Rightarrow> int option" where
  "atoi_unsigned ds =
     (if ds \<noteq> [] \<and> list_all isDigit ds then Some (int (digits_val ds)) else None)"

definition atoi :: "string \<Rightarrow> int option" where
  "atoi s =
     (case (case s of
              [] \<Rightarrow> None
            | c # cs \<Rightarrow>
                if c = CHR ''-'' then map_option uminus (atoi_unsigned cs)
                else if c = CHR ''+'' then atoi_unsigned cs
                else atoi_unsigned s) of
        None \<Rightarrow> None
      | Some i \<Rightarrow> if min_int64 \<le> i \<and> i \<le> max_int64 then Some i else None)"

text \<open>
  \<^verbatim>\<open>strconv.ParseInt(ds, 10, 64)\<close> on a run of digits with its error dropped:
  an out-of-range value is returned as the largest \<^verbatim>\<open>int64\<close>.
\<close>

definition parse_int64_digits :: "string \<Rightarrow> int" where
  "parse_int64_digits ds = min (int (digits_val ds)) max_int64"

lemma not_isDigit_sign [simp]:
  "\<not> isDigit (CHR ''-'')" "\<not> isDigit (CHR ''+'')" "\<not> isDigit (CHR ''/'')" "\<not> isDigit (CHR '','')"
  by (simp_all add: isDigit_def)

lemma atoi_itoa_nat:
  assumes "int n \<le> max_int64"
  shows "atoi (itoa_nat n) = Some (int n)"
proof -
  obtain c cs where c: "itoa_nat n = c # cs"
    by (cases "itoa_nat n") auto
  have "isDigit c"
    using isDigit_hd_itoa_nat [of n] c by simp
  then have "c \<noteq> CHR ''-''" "c \<noteq> CHR ''+''"
    by auto
  moreover have "min_int64 \<le> int n"
    by (simp add: min_int64_def)
  ultimately show ?thesis
    using assms itoa_nat_digits [of n] digits_val_itoa_nat [of n]
    by (simp add: atoi_def atoi_unsigned_def c)
qed

lemma itoa_of_nat [simp]: "itoa (int n) = itoa_nat n"
  by (simp add: itoa_def)

section \<open>Scanning up to a delimiter\<close>

lemma takeWhile_until [simp]: "c \<notin> set xs \<Longrightarrow> takeWhile (\<lambda>x. x \<noteq> c) (xs @ c # ys) = xs"
  by (induction xs) auto

lemma dropWhile_until [simp]: "c \<notin> set xs \<Longrightarrow> dropWhile (\<lambda>x. x \<noteq> c) (xs @ c # ys) = c # ys"
  by (induction xs) auto

section \<open>Byte strings\<close>

definition hasPrefix :: "string \<Rightarrow> string \<Rightarrow> bool" where
  "hasPrefix s p \<longleftrightarrow> take (length p) s = p"

lemma hasPrefix_iff: "hasPrefix s p \<longleftrightarrow> (\<exists>t. s = p @ t)"
  by (metis append_take_drop_id append_eq_conv_conj hasPrefix_def)

end
