(* ===== verification/Errors.thy ===== *)
theory Errors
  imports Prelude
begin

text \<open>
  Go error values of both layers: the sentinels of \<^verbatim>\<open>engineio/transport\<close>,
  \<^verbatim>\<open>engineio\<close> and \<^verbatim>\<open>socketio\<close>, the wrapping done by \<^verbatim>\<open>fmt.Errorf\<close> with a
  \<^verbatim>\<open>%w\<close> verb, and the chain walk of \<^verbatim>\<open>errors.Is\<close>.
\<close>

section \<open>Error values\<close>

text \<open>
  \<open>ErrorfW e msg\<close> is the value of \<^verbatim>\<open>fmt.Errorf("%w: msg", e)\<close>: it wraps \<open>e\<close>;
  \<open>ErrorfP msg e\<close> is that of \<^verbatim>\<open>fmt.Errorf("msg: %w", e)\<close>. \<open>JsonError\<close> stands for any error
  of \<^verbatim>\<open>encoding/json\<close>, whose text no code inspects.
  An error formatted with \<^verbatim>\<open>%v\<close> only contributes its text to \<open>msg\<close> and is not in
  the chain. \<open>ErrorsNew msg\<close> is an error that wraps nothing and is no sentinel.
  \<open>EngineErrInvalidPacket\<close> is \<^verbatim>\<open>engineio.ErrInvalidPacket\<close>, itself built by
  wrapping \<^verbatim>\<open>transport.ErrInvalidPacket\<close>; \<^verbatim>\<open>engineio.ErrPayloadTooLarge\<close> is an
  alias of the transport sentinel and has no constructor of its own.
\<close>

datatype go_error =
    ErrInvalidPacket | ErrInvalidPayload | ErrPayloadTooLarge
  | ErrRequestOverlap | ErrDataRequestActive | ErrPollClosed
  | ErrWriteError | ErrUpgradeTimeout | ErrUpgradeAborted
  | ErrUnsupportedProtocol | ErrUnknownTransport | ErrBadHandshakeMethod
  | ErrBadRequest | ErrForbidden | ErrUnknownSID
  | EngineErrInvalidPacket | ErrHeartbeatTimeout
  | ErrNotConnected | ErrInvalidNamespace | ErrNamespaceNotConnected | ErrHandlerMismatch
  | ErrorfW go_error string
  | ErrorfP string go_error
  | JsonError
  | ErrorsNew string

fun unwrap :: "go_error \<Rightarrow> go_error option" where
  "unwrap EngineErrInvalidPacket = Some ErrInvalidPacket"
| "unwrap ErrNamespaceNotConnected = Some ErrNotConnected"
| "unwrap (ErrorfW e _) = Some e"
| "unwrap (ErrorfP _ e) = Some e"
| "unwrap _ = None"

text \<open>\<^verbatim>\<open>errors.Is(err, target)\<close>: some error of the chain of \<open>err\<close> is \<open>target\<close>.\<close>

fun errors_Is :: "go_error \<Rightarrow> go_error \<Rightarrow> bool" where
  "errors_Is (ErrorfW e m) t \<longleftrightarrow> ErrorfW e m = t \<or> errors_Is e t"
| "errors_Is (ErrorfP m e) t \<longleftrightarrow> ErrorfP m e = t \<or> errors_Is e t"
| "errors_Is EngineErrInvalidPacket t \<longleftrightarrow> t = EngineErrInvalidPacket \<or> t = ErrInvalidPacket"
| "errors_Is ErrNamespaceNotConnected t \<longleftrightarrow> t = ErrNamespaceNotConnected \<or> t = ErrNotConnected"
| "errors_Is e t \<longleftrightarrow> e = t"

lemma errors_Is_unfold:
  "errors_Is e t \<longleftrightarrow> e = t \<or> (case unwrap e of None \<Rightarrow> False | Some e' \<Rightarrow> errors_Is e' t)"
  by (cases e) auto

lemma errors_Is_refl [simp]: "errors_Is e e"
  by (subst errors_Is_unfold) simp

section \<open>Error texts\<close>

text \<open>
  \<^verbatim>\<open>err.Error()\<close>. The reconnecting client inspects the text of a close error
  (\<^verbatim>\<open>mapClientDisconnectReason\<close>).
\<close>

fun error_text :: "go_error \<Rightarrow> string" where
  "error_text ErrInvalidPacket = ''engineio: invalid packet''"
| "error_text ErrInvalidPayload = ''engineio: invalid payload''"
| "error_text ErrPayloadTooLarge = ''engineio: payload too large''"
| "error_text ErrRequestOverlap = ''engineio: request overlap from client''"
| "error_text ErrDataRequestActive = ''engineio: data request overlap from client''"
| "error_text ErrPollClosed = ''engineio: poll connection closed prematurely''"
| "error_text ErrWriteError = ''engineio: write error''"
| "error_text ErrUpgradeTimeout = ''engineio: upgrade timeout''"
| "error_text ErrUpgradeAborted = ''engineio: client did not complete upgrade''"
| "error_text ErrUnsupportedProtocol = ''engineio: unsupported protocol version''"
| "error_text ErrUnknownTransport = ''engineio: unknown transport''"
| "error_text ErrBadHandshakeMethod = ''engineio: bad handshake method''"
| "error_text ErrBadRequest = ''engineio: bad request''"
| "error_text ErrForbidden = ''engineio: forbidden''"
| "error_text ErrUnknownSID = ''engineio: session id unknown''"
| "error_text EngineErrInvalidPacket = ''engineio: invalid packet: invalid packet''"
| "error_text ErrHeartbeatTimeout = ''engineio: heartbeat timeout''"
| "error_text ErrNotConnected = ''socketio: socket is not connected''"
| "error_text ErrInvalidNamespace = ''socketio: invalid namespace''"
| "error_text ErrNamespaceNotConnected =
     ''socketio: socket is not connected: namespace not connected''"
| "error_text ErrHandlerMismatch = ''socketio: handler signature mismatch''"
| "error_text (ErrorfW e m) = error_text e @ '': '' @ m"
| "error_text (ErrorfP m e) = m @ '': '' @ error_text e"
| "error_text JsonError = ''json''"
| "error_text (ErrorsNew m) = m"

section \<open>Protocol error codes\<close>

datatype error_code =
    ErrCodeUnknownTransport | ErrCodeUnknownSID | ErrCodeBadHandshakeMethod
  | ErrCodeBadRequest | ErrCodeForbidden | ErrCodeUnsupportedProtocolVersion

fun error_code_num :: "error_code \<Rightarrow> nat" where
  "error_code_num ErrCodeUnknownTransport = 0"
| "error_code_num ErrCodeUnknownSID = 1"
| "error_code_num ErrCodeBadHandshakeMethod = 2"
| "error_code_num ErrCodeBadRequest = 3"
| "error_code_num ErrCodeForbidden = 4"
| "error_code_num ErrCodeUnsupportedProtocolVersion = 5"

text \<open>
  \<^verbatim>\<open>wrapInvalidPacket\<close>: a transport error that is a packet decode error is wrapped
  again as the Engine.IO sentinel; any other error passes through.
\<close>

definition wrapInvalidPacket :: "go_error \<Rightarrow> go_error" where
  "wrapInvalidPacket err =
     (if errors_Is err ErrInvalidPacket then ErrorfW EngineErrInvalidPacket (error_text err)
      else err)"

lemma wrapInvalidPacket_Is [simp]:
  "errors_Is (wrapInvalidPacket err) EngineErrInvalidPacket \<longleftrightarrow>
     errors_Is err ErrInvalidPacket \<or> errors_Is err EngineErrInvalidPacket"
  by (simp add: wrapInvalidPacket_def)

lemma errors_Is_Engine_transport:
  "errors_Is err EngineErrInvalidPacket \<Longrightarrow> errors_Is err ErrInvalidPacket"
  by (induction err) auto

end
