(* ===== verification/GoValue.thy ===== *)
theory GoValue
  imports Errors "HOL-Library.Char_ord" "HOL-Library.List_Lexorder" "HOL-Library.Multiset"
begin

text \<open>
  The values a Socket.IO packet carries: the dynamic types that the code switches on when
  it handles an \<^verbatim>\<open>any\<close> (JSON values, \<^verbatim>\<open>[]byte\<close>, \<^verbatim>\<open>io.Reader\<close> and the placeholder
  struct of \<^verbatim>\<open>socketio/packet.go\<close>), with Go maps as association lists.
\<close>

section \<open>Numbers\<close>

text \<open>
  A JSON number as an exact decimal: \<open>Dec neg m e\<close> is \<open>m * 10 ^ e\<close>, negated when \<open>neg\<close>.
  Go holds a number in a \<^verbatim>\<open>float64\<close>; a decimal of at most 15 significant digits in
  the range of that type survives the conversion to \<^verbatim>\<open>float64\<close> and back, and for those
  the model is exact. Rounding of longer decimals is not modelled. Minus zero is kept, as
  in the source.
\<close>

datatype decimal = Dec (dec_neg: bool) (dec_mant: nat) (dec_exp: int)

text \<open>Canonical decimals: no trailing zero in the mantissa, exponent 0 for zero.\<close>

fun wf_decimal :: "decimal \<Rightarrow> bool" where
  "wf_decimal (Dec neg m e) \<longleftrightarrow> (if m = 0 then e = 0 else m mod 10 \<noteq> 0)"

fun strip10 :: "nat \<Rightarrow> int \<Rightarrow> nat \<times> int" where
  "strip10 m e =
     (if m = 0 then (0, 0) else if m mod 10 = 0 then strip10 (m div 10) (e + 1) else (m, e))"

declare strip10.simps [simp del]

definition mk_decimal :: "bool \<Rightarrow> nat \<Rightarrow> int \<Rightarrow> decimal" where
  "mk_decimal neg m e = (case strip10 m e of (m', e') \<Rightarrow> Dec neg m' e')"

lemma strip10_zero [simp]: "strip10 0 e = (0, 0)"
  by (simp add: strip10.simps)

lemma strip10_shift:
  "m mod 10 \<noteq> 0 \<Longrightarrow> strip10 (m * 10 ^ k) (e - int k) = (m, e)"
proof (induction k)
  case 0
  then show ?case by (subst strip10.simps) auto
next
  case (Suc k)
  have "m * 10 ^ Suc k mod 10 = 0" "m * 10 ^ Suc k div 10 = m * 10 ^ k" "m \<noteq> 0"
    using Suc.prems by (auto intro: gr0I)
  then have "strip10 (m * 10 ^ Suc k) (e - int (Suc k)) = strip10 (m * 10 ^ k) (e - int (Suc k) + 1)"
    by (subst strip10.simps) simp
  also have "\<dots> = (m, e)"
    using Suc by simp
  finally show ?case .
qed

lemma mk_decimal_shift:
  assumes "wf_decimal (Dec neg m e)"
  shows "mk_decimal neg (m * 10 ^ k) (e - int k) = Dec neg m e"
  using assms by (cases "m = 0") (auto simp: mk_decimal_def strip10_shift)

lemma strip10_wf: "strip10 m e = (m', e') \<Longrightarrow> wf_decimal (Dec neg m' e')"
proof (induction m e rule: strip10.induct)
  case (1 m e)
  then show ?case
    by (auto simp: strip10.simps [of m e] split: if_splits)
qed

lemma wf_mk_decimal [simp]: "wf_decimal (mk_decimal neg m e)"
  unfolding mk_decimal_def by (cases "strip10 m e") (simp only: prod.case strip10_wf)

text \<open>
  The conversion \<^verbatim>\<open>int(f)\<close> of a number to an integer: truncation towards zero. (Values
  outside the range of \<^verbatim>\<open>int\<close> are used by the source for range tests only, which they
  fail in Go and in the model.)
\<close>

fun dec_trunc :: "decimal \<Rightarrow> int" where
  "dec_trunc (Dec neg m e) =
     (let a = (if 0 \<le> e then int m * 10 ^ nat e else int m div 10 ^ nat (- e))
      in if neg then - a else a)"

definition dec_of_nat :: "nat \<Rightarrow> decimal" where
  "dec_of_nat n = mk_decimal False n 0"

lemma strip10_value:
  "strip10 m e = (m', e') \<Longrightarrow> \<exists>k. m = m' * 10 ^ k \<and> (m = 0 \<or> e' = e + int k)"
proof (induction m e rule: strip10.induct)
  case (1 m e)
  show ?case
  proof (cases "m \<noteq> 0 \<and> m mod 10 = 0")
    case True
    then have "strip10 (m div 10) (e + 1) = (m', e')"
      using "1.prems" by (simp add: strip10.simps [of m e])
    then obtain k where k: "m div 10 = m' * 10 ^ k" "m div 10 = 0 \<or> e' = e + 1 + int k"
      using "1.IH" [OF _ _ \<open>strip10 (m div 10) (e + 1) = (m', e')\<close>] True by auto
    have "m = (m div 10) * 10"
      using True by presburger
    then have "m = m' * 10 ^ Suc k"
      by (simp add: k(1))
    moreover have "m div 10 \<noteq> 0"
      using True by presburger
    ultimately show ?thesis
      using k(2) by (intro exI [of _ "Suc k"]) auto
  next
    case False
    then show ?thesis
      using "1.prems" by (auto simp: strip10.simps [of m e] split: if_splits intro!: exI [of _ 0])
  qed
qed

lemma dec_trunc_of_nat [simp]: "dec_trunc (dec_of_nat n) = int n"
proof -
  obtain m' e' where s: "strip10 n 0 = (m', e')"
    by fastforce
  then obtain k where k: "n = m' * 10 ^ k" "n = 0 \<or> e' = int k"
    using strip10_value by fastforce
  show ?thesis
  proof (cases "n = 0")
    case True
    then show ?thesis by (simp add: dec_of_nat_def mk_decimal_def)
  next
    case False
    then show ?thesis
      using k s by (simp add: dec_of_nat_def mk_decimal_def)
  qed
qed

section \<open>Values\<close>

text \<open>
  An \<^verbatim>\<open>io.Reader\<close> argument: a nil reader, or a reader object named by its address. What
  a reader still has to deliver is state that reading changes and that every holder of the
  same reader shares, so it lives in a store: the bytes left up to EOF, or the error
  with which its \<^verbatim>\<open>Read\<close> fails.
\<close>

datatype reader = NilReader | Reader nat

type_synonym readers = "nat \<Rightarrow> go_error + bytes"

text \<open>
  \<open>VObj\<close> is a Go \<^verbatim>\<open>map[string]any\<close>: an association list without repeated keys whose
  order is the (unspecified) order in which a \<^verbatim>\<open>range\<close> loop visits the map.
  \<open>VPlaceholder n\<close> is the struct \<^verbatim>\<open>placeholder{Placeholder: true, Num: n}\<close>.
\<close>

datatype val =
    VNil
  | VBool bool
  | VNum decimal
  | VStr string
  | VBytes bytes
  | VReader reader
  | VArr "val list"
  | VObj "(string \<times> val) list"
  | VPlaceholder nat

abbreviation obj_get :: "(string \<times> val) list \<Rightarrow> string \<Rightarrow> val option" where
  "obj_get ms k \<equiv> map_of ms k"

text \<open>Map assignment \<^verbatim>\<open>m[k] = v\<close>: an existing entry is replaced.\<close>

fun obj_put :: "string \<Rightarrow> val \<Rightarrow> (string \<times> val) list \<Rightarrow> (string \<times> val) list" where
  "obj_put k v [] = [(k, v)]"
| "obj_put k v ((k', v') # ms) = (if k' = k then (k, v) # ms else (k', v') # obj_put k v ms)"

lemma obj_get_put [simp]: "obj_get (obj_put k v ms) k' = (if k' = k then Some v else obj_get ms k')"
  by (induction ms) auto

lemma obj_put_fresh: "k \<notin> fst ` set ms \<Longrightarrow> obj_put k v ms = ms @ [(k, v)]"
  by (induction ms) auto

lemma fst_set_obj_put [simp]: "fst ` set (obj_put k v ms) = insert k (fst ` set ms)"
  by (induction k v ms rule: obj_put.induct) (auto simp: image_iff)

section \<open>Sorting by key\<close>

lemma map_insort_fst:
  "(\<And>m. m \<in> insert x (set ms) \<Longrightarrow> fst (f m) = fst m) \<Longrightarrow>
   map f (insort_key fst x ms) = insort_key fst (f x) (map f ms)"
  by (induction ms) auto

lemma map_sort_fst:
  "(\<And>m. m \<in> set ms \<Longrightarrow> fst (f m) = fst m) \<Longrightarrow> map f (sort_key fst ms) = sort_key fst (map f ms)"
proof (induction ms)
  case (Cons m ms)
  then have "map f (insort_key fst m (sort_key fst ms)) = insort_key fst (f m) (map f (sort_key fst ms))"
    by (intro map_insort_fst) auto
  with Cons show ?case by simp
qed simp

lemma sort_fst_map_snd:
  "sort_key fst (map (\<lambda>(k, v). (k, g v)) ms) = map (\<lambda>(k, v). (k, g v)) (sort_key fst ms)"
  by (rule map_sort_fst [symmetric]) auto

lemma distinct_map_fst_sort [simp]: "distinct (map fst (sort_key fst ms)) \<longleftrightarrow> distinct (map fst ms)"
proof -
  have "mset (map fst (sort_key fst ms)) = mset (map fst ms)"
    by (metis mset_map mset_sort)
  then show ?thesis
    by (rule mset_eq_imp_distinct_iff)
qed

lemma map_of_sort_fst:
  assumes "distinct (map fst ms)"
  shows "map_of (sort_key fst ms) = map_of ms"
  using assms by (intro map_of_eqI) (auto simp: map_of_eq_Some_iff image_iff)

end
