(* ===== verification/JsonText.thy ===== *)
theory JsonText
  imports GoValue
begin

text \<open>
  The lexical level of Go's \<^verbatim>\<open>encoding/json\<close>: numbers as \<^verbatim>\<open>floatEncoder\<close> prints them
  and as the scanner accepts them, and strings with the escapes of \<^verbatim>\<open>appendString\<close>
  (HTML-safe, as \<^verbatim>\<open>json.Marshal\<close> uses it) and of \<^verbatim>\<open>unquote\<close>, including the UTF-8
  checks of both directions. The theory proves that reading what was printed gives the
  value back.
\<close>

section \<open>Numbers\<close>

definition num_char :: "char \<Rightarrow> bool" where
  "num_char c \<longleftrightarrow> isDigit c \<or> c \<in> {CHR ''-'', CHR ''+'', CHR ''.'', CHR ''e'', CHR ''E''}"

text \<open>
  Printing: the shortest digits, in positional notation when the decimal exponent lies in
  \<open>-6 .. 20\<close> and in scientific notation with a sign and no leading zeros otherwise.
\<close>

definition format_abs :: "nat \<Rightarrow> int \<Rightarrow> string" where
  "format_abs m e =
     (let ds = itoa_nat m; n = int (length ds); dp = n + e in
      if m = 0 then ''0''
      else if dp - 1 < -6 \<or> 21 \<le> dp - 1 then
        hd ds # (if n > 1 then CHR ''.'' # tl ds else [])
          @ CHR ''e'' # (if dp - 1 < 0 then CHR ''-'' else CHR ''+'') # itoa_nat (nat \<bar>dp - 1\<bar>)
      else if dp \<le> 0 then CHR ''0'' # CHR ''.'' # replicate (nat (- dp)) (CHR ''0'') @ ds
      else if dp < n then take (nat dp) ds @ CHR ''.'' # drop (nat dp) ds
      else ds @ replicate (nat (dp - n)) (CHR ''0''))"

fun format_num :: "decimal \<Rightarrow> string" where
  "format_num (Dec neg m e) = (if neg then CHR ''-'' # format_abs m e else format_abs m e)"

text \<open>Reading: the number grammar of JSON, then the exact decimal value.\<close>

definition parse_exp :: "string \<Rightarrow> int option" where
  "parse_exp s =
     (case s of
        [] \<Rightarrow> Some 0
      | c # r \<Rightarrow>
          if c = CHR ''e'' \<or> c = CHR ''E'' then
            (case r of
               [] \<Rightarrow> None
             | d # ds \<Rightarrow>
                 if d = CHR ''-'' then map_option uminus (atoi_unsigned ds)
                 else if d = CHR ''+'' then atoi_unsigned ds
                 else atoi_unsigned r)
          else None)"

definition parse_frac :: "string \<Rightarrow> (string \<times> string) option" where
  "parse_frac s =
     (case s of
        [] \<Rightarrow> Some ([], [])
      | c # r \<Rightarrow>
          if c = CHR ''.'' then
            (if takeWhile isDigit r = [] then None
             else Some (takeWhile isDigit r, dropWhile isDigit r))
          else Some ([], s))"

definition parse_abs :: "bool \<Rightarrow> string \<Rightarrow> decimal option" where
  "parse_abs neg s =
     (let ip = takeWhile isDigit s in
      if ip = [] \<or> (hd ip = CHR ''0'' \<and> tl ip \<noteq> []) then None
      else
        (case parse_frac (dropWhile isDigit s) of
           None \<Rightarrow> None
         | Some (fp, r) \<Rightarrow>
             (case parse_exp r of
                None \<Rightarrow> None
              | Some x \<Rightarrow> Some (mk_decimal neg (digits_val (ip @ fp)) (x - int (length fp))))))"

definition parse_num :: "string \<Rightarrow> decimal option" where
  "parse_num s =
     (case s of
        [] \<Rightarrow> None
      | c # r \<Rightarrow> if c = CHR ''-'' then parse_abs True r else parse_abs False s)"

lemma not_isDigit_chars [simp]:
  "\<not> isDigit (CHR ''.'')" "\<not> isDigit (CHR ''e'')" "\<not> isDigit (CHR ''E'')"
  by (simp_all add: isDigit_def)

lemma isDigit_zero [simp]: "isDigit (CHR ''0'')"
  by (simp add: isDigit_def)

lemma list_all_isDigit_zeros [simp]: "list_all isDigit (replicate k (CHR ''0''))"
  by (simp add: list_all_iff)

lemma itoa_nat_hd_nonzero: "0 < n \<Longrightarrow> hd (itoa_nat n) \<noteq> CHR ''0''"
proof (induction n rule: itoa_nat.induct)
  case (1 n)
  show ?case
  proof (cases "n < 10")
    case True
    have "byte_val (digit_char n) \<noteq> (byte_val (CHR ''0'') :: nat)"
      using True "1.prems" by simp
    then have "digit_char n \<noteq> CHR ''0''" by auto
    then show ?thesis
      using True by (subst itoa_nat.simps) simp
  next
    case False
    then have "0 < n div 10" by simp
    with "1.IH" False have "hd (itoa_nat (n div 10)) \<noteq> CHR ''0''" by simp
    with False show ?thesis
      by (subst itoa_nat.simps) simp
  qed
qed

lemma atoi_unsigned_itoa_nat [simp]: "atoi_unsigned (itoa_nat n) = Some (int n)"
  by (simp add: atoi_unsigned_def)

lemma parse_exp_printed [simp]:
  "parse_exp (CHR ''e'' # (if x < 0 then CHR ''-'' else CHR ''+'') # itoa_nat (nat \<bar>x\<bar>)) = Some x"
  by (simp add: parse_exp_def)

lemma parse_exp_Nil [simp]: "parse_exp [] = Some 0"
  by (simp add: parse_exp_def)

lemma parse_abs_int:
  assumes "list_all isDigit ip" "ip \<noteq> []" "hd ip \<noteq> CHR ''0'' \<or> tl ip = []"
  shows "parse_abs neg ip = Some (mk_decimal neg (digits_val ip) 0)"
  using assms by (simp add: parse_abs_def Let_def takeWhile_all_id dropWhile_all_Nil parse_frac_def)

lemma parse_abs_frac:
  assumes "list_all isDigit ip" "ip \<noteq> []" "hd ip \<noteq> CHR ''0'' \<or> tl ip = []"
    and "list_all isDigit fp" "fp \<noteq> []"
    and "x = [] \<or> \<not> isDigit (hd x)" "parse_exp x = Some e"
  shows "parse_abs neg (ip @ CHR ''.'' # fp @ x)
    = Some (mk_decimal neg (digits_val (ip @ fp)) (e - int (length fp)))"
proof -
  have "takeWhile isDigit x = []" "dropWhile isDigit x = x"
    using assms(6) by (cases x; auto)+
  then show ?thesis
    using assms by (simp add: parse_abs_def Let_def parse_frac_def)
qed

lemma parse_abs_exp:
  assumes "isDigit d" and "parse_exp (CHR ''e'' # r) = Some e"
  shows "parse_abs neg (d # CHR ''e'' # r) = Some (mk_decimal neg (digits_val [d]) e)"
  using assms by (simp add: parse_abs_def Let_def parse_frac_def)

lemma parse_format_abs:
  assumes "wf_decimal (Dec neg m e)"
  shows "parse_abs neg (format_abs m e) = Some (Dec neg m e)"
proof (cases "m = 0")
  case True
  then show ?thesis
    using assms by (simp add: format_abs_def parse_abs_def parse_frac_def mk_decimal_def digits_val_def
        digit_val_def)
next
  case False
  define ds where "ds = itoa_nat m"
  define n where "n = int (length ds)"
  define dp where "dp = n + e"
  have ds: "list_all isDigit ds" "ds \<noteq> []" "hd ds \<noteq> CHR ''0''" "digits_val ds = m"
    using False by (simp_all add: ds_def itoa_nat_hd_nonzero)
  have n: "0 < n" "length ds = nat n"
    using ds(2) by (simp_all add: n_def)
  have m1: "mk_decimal neg m e = Dec neg m e"
    using mk_decimal_shift [OF assms, of 0] by simp
  have fmt: "format_abs m e =
     (if dp - 1 < -6 \<or> 21 \<le> dp - 1 then
        hd ds # (if n > 1 then CHR ''.'' # tl ds else [])
          @ CHR ''e'' # (if dp - 1 < 0 then CHR ''-'' else CHR ''+'') # itoa_nat (nat \<bar>dp - 1\<bar>)
      else if dp \<le> 0 then CHR ''0'' # CHR ''.'' # replicate (nat (- dp)) (CHR ''0'') @ ds
      else if dp < n then take (nat dp) ds @ CHR ''.'' # drop (nat dp) ds
      else ds @ replicate (nat (dp - n)) (CHR ''0''))"
    using False by (simp add: format_abs_def Let_def ds_def n_def dp_def)
  consider (sci) "dp - 1 < -6 \<or> 21 \<le> dp - 1"
    | (small) "\<not> (dp - 1 < -6 \<or> 21 \<le> dp - 1)" "dp \<le> 0"
    | (mid) "\<not> (dp - 1 < -6 \<or> 21 \<le> dp - 1)" "0 < dp" "dp < n"
    | (big) "\<not> (dp - 1 < -6 \<or> 21 \<le> dp - 1)" "0 < dp" "n \<le> dp"
    by linarith
  then show ?thesis
  proof cases
    case sci
    let ?x = "CHR ''e'' # (if dp - 1 < 0 then CHR ''-'' else CHR ''+'') # itoa_nat (nat \<bar>dp - 1\<bar>)"
    have x: "parse_exp ?x = Some (dp - 1)" by (rule parse_exp_printed)
    obtain d dt where dd: "ds = d # dt" "isDigit d" "list_all isDigit dt"
      using ds by (cases ds) auto
    show ?thesis
    proof (cases "n > 1")
      case True
      then have "dt \<noteq> []" using dd n by auto
      then have "parse_abs neg ([d] @ CHR ''.'' # dt @ ?x)
        = Some (mk_decimal neg (digits_val ([d] @ dt)) (dp - 1 - int (length dt)))"
        using dd x by (intro parse_abs_frac) simp_all
      moreover have "dp - 1 - int (length dt) = e"
        using dd by (simp add: dp_def n_def)
      ultimately show ?thesis
        using sci True dd ds(4) m1 by (simp add: fmt)
    next
      case False
      then have "dt = []" "n = 1" using dd n by (auto simp: n_def)
      then show ?thesis
        using sci False dd ds(4) m1 x parse_abs_exp [OF dd(2) x, of neg] by (simp add: fmt dp_def)
    qed
  next
    case small
    have "parse_abs neg (''0'' @ CHR ''.'' # (replicate (nat (- dp)) (CHR ''0'') @ ds) @ [])
      = Some (mk_decimal neg (digits_val (''0'' @ replicate (nat (- dp)) (CHR ''0'') @ ds))
          (0 - int (length (replicate (nat (- dp)) (CHR ''0'') @ ds))))"
      using ds by (intro parse_abs_frac) simp_all
    moreover have "digits_val (''0'' @ replicate (nat (- dp)) (CHR ''0'') @ ds) = m"
      by (simp add: digits_val_append ds(4))
    moreover have "0 - int (length (replicate (nat (- dp)) (CHR ''0'') @ ds)) = e"
      using small n by (simp add: dp_def)
    ultimately show ?thesis
      using small m1 by (simp add: fmt)
  next
    case mid
    have nd: "nat dp < length ds" "0 < nat dp" using mid n by auto
    have "parse_abs neg (take (nat dp) ds @ CHR ''.'' # drop (nat dp) ds @ [])
      = Some (mk_decimal neg (digits_val (take (nat dp) ds @ drop (nat dp) ds))
          (0 - int (length (drop (nat dp) ds))))"
      using ds nd by (intro parse_abs_frac) (auto simp: list_all_iff dest: in_set_takeD in_set_dropD)
    moreover have "0 - int (length (drop (nat dp) ds)) = e"
      using mid n by (simp add: dp_def of_nat_diff)
    ultimately show ?thesis
      using mid m1 ds(4) by (simp add: fmt)
  next
    case big
    let ?k = "nat (dp - n)"
    have "parse_abs neg (ds @ replicate ?k (CHR ''0''))
      = Some (mk_decimal neg (digits_val (ds @ replicate ?k (CHR ''0''))) 0)"
      using ds by (intro parse_abs_int) auto
    moreover have "digits_val (ds @ replicate ?k (CHR ''0'')) = m * 10 ^ ?k"
      by (simp add: digits_val_append ds(4))
    moreover have "mk_decimal neg (m * 10 ^ ?k) 0 = Dec neg m e"
    proof -
      have "e - int ?k = 0"
        using big by (simp add: dp_def)
      with mk_decimal_shift [OF assms, of ?k] show ?thesis by metis
    qed
    moreover have "format_abs m e = ds @ replicate ?k (CHR ''0'')"
      using big by (simp add: fmt)
    ultimately show ?thesis by simp
  qed
qed

lemma format_abs_start: "\<exists>c r. format_abs m e = c # r \<and> isDigit c"
proof -
  obtain d dt where "itoa_nat m = d # dt" "isDigit d"
    using isDigit_hd_itoa_nat [of m] by (cases "itoa_nat m") auto
  then show ?thesis
    by (auto simp: format_abs_def Let_def take_Cons split: nat.split)
qed

lemma parse_format_num: "wf_decimal d \<Longrightarrow> parse_num (format_num d) = Some d"
proof (cases d)
  case (Dec neg m e)
  assume wf: "wf_decimal d"
  obtain c r where "format_abs m e = c # r" "isDigit c"
    using format_abs_start by blast
  moreover then have "c \<noteq> CHR ''-''" by auto
  ultimately show ?thesis
    using parse_format_abs [of neg m e] wf Dec by (auto simp: parse_num_def)
qed

lemma num_char_digit: "isDigit c \<Longrightarrow> num_char c"
  by (simp add: num_char_def)

lemma list_all_num_char_digits: "list_all isDigit s \<Longrightarrow> list_all num_char s"
  by (auto simp: list_all_iff num_char_def)

lemma format_num_chars: "list_all num_char (format_num d)"
proof (cases d)
  case (Dec neg m e)
  have d: "list_all num_char (itoa_nat k)" for k
    by (simp add: list_all_num_char_digits)
  have h: "num_char (hd (itoa_nat m))" "list_all num_char (tl (itoa_nat m))"
    using d [of m] by (cases "itoa_nat m"; simp)+
  have "list_all num_char (format_abs m e)"
    using d [of m] h d [of "nat \<bar>int (length (itoa_nat m)) + e - 1\<bar>"]
    by (auto simp: format_abs_def Let_def list_all_iff num_char_def
        dest: in_set_takeD in_set_dropD)
  then show ?thesis
    using Dec by (simp add: num_char_def)
qed

lemma format_num_start: "\<exists>c r. format_num d = c # r \<and> (isDigit c \<or> c = CHR ''-'')"
proof (cases d)
  case (Dec neg m e)
  then show ?thesis
    using format_abs_start [of m e] by auto
qed

section \<open>UTF-8\<close>

abbreviation dquote :: char where "dquote \<equiv> CHR 0x22"

abbreviation bslash :: char where "bslash \<equiv> CHR 0x5C"

definition utf8_cont :: "char \<Rightarrow> bool" where
  "utf8_cont c \<longleftrightarrow> 128 \<le> byte_val c \<and> byte_val c \<le> 191"

text \<open>
  The length of the multi-byte sequence at the head of a byte string, 0 when
  \<^verbatim>\<open>utf8.DecodeRune\<close> finds an invalid encoding there (or an ASCII byte).
\<close>

fun utf8_head :: "bytes \<Rightarrow> nat" where
  "utf8_head (a # b # rest) =
     (let x = byte_val a; y = byte_val b in
      if 194 \<le> x \<and> x \<le> 223 then (if utf8_cont b then 2 else 0)
      else if 224 \<le> x \<and> x \<le> 239 then
        (case rest of
           c # _ \<Rightarrow>
             if (if x = 224 then 160 else 128) \<le> y \<and> y \<le> (if x = 237 then 159 else 191)
                \<and> utf8_cont c then 3 else 0
         | [] \<Rightarrow> 0)
      else if 240 \<le> x \<and> x \<le> 244 then
        (case rest of
           c # d # _ \<Rightarrow>
             if (if x = 240 then 144 else 128) \<le> y \<and> y \<le> (if x = 244 then 143 else 191)
                \<and> utf8_cont c \<and> utf8_cont d then 4 else 0
         | _ \<Rightarrow> 0)
      else 0)"
| "utf8_head _ = 0"

definition utf8_encode :: "nat \<Rightarrow> bytes" where
  "utf8_encode r =
     (if r < 128 then [byte_of r]
      else if r < 2048 then [byte_of (192 + r div 64), byte_of (128 + r mod 64)]
      else if r < 65536 then
        [byte_of (224 + r div 4096), byte_of (128 + r div 64 mod 64), byte_of (128 + r mod 64)]
      else
        [byte_of (240 + r div 262144), byte_of (128 + r div 4096 mod 64),
         byte_of (128 + r div 64 mod 64), byte_of (128 + r mod 64)])"

definition is_ascii :: "char \<Rightarrow> bool" where
  "is_ascii c \<longleftrightarrow> byte_val c < 128"

text \<open>The number of bytes that one loop round of the encoder consumes.\<close>

definition char_len :: "bytes \<Rightarrow> nat" where
  "char_len s = (if is_ascii (hd s) \<or> utf8_head s = 0 then 1 else utf8_head s)"

lemma char_len_pos [simp]: "0 < char_len s" "char_len s \<noteq> 0"
  by (simp_all add: char_len_def)

function valid_utf8 :: "bytes \<Rightarrow> bool" where
  "valid_utf8 s =
     (if s = [] then True
      else (is_ascii (hd s) \<or> utf8_head s \<noteq> 0) \<and> valid_utf8 (drop (char_len s) s))"
  by pat_completeness auto
termination
  by (relation "measure length") (auto simp: char_len_def)

declare valid_utf8.simps [simp del]

lemma valid_utf8_ascii: "list_all is_ascii s \<Longrightarrow> valid_utf8 s"
proof (induction s)
  case Nil
  show ?case by (simp add: valid_utf8.simps)
next
  case (Cons c s)
  then show ?case by (simp add: valid_utf8.simps [of "c # s"] char_len_def)
qed

section \<open>Strings\<close>

definition hex_char :: "nat \<Rightarrow> char" where
  "hex_char n = (if n < 10 then byte_of (48 + n) else byte_of (87 + n))"

definition hex_val :: "char \<Rightarrow> nat option" where
  "hex_val c =
     (let n = byte_val c in
      if 48 \<le> n \<and> n \<le> 57 then Some (n - 48)
      else if 97 \<le> n \<and> n \<le> 102 then Some (n - 87)
      else if 65 \<le> n \<and> n \<le> 70 then Some (n - 55)
      else None)"

text \<open>The text that \<^verbatim>\<open>appendString\<close> writes for one character of the string.\<close>

definition esc_ascii :: "char \<Rightarrow> string" where
  "esc_ascii c =
     (let n = byte_val c in
      if c = dquote \<or> c = bslash then [bslash, c]
      else if n = 8 then [bslash, CHR ''b'']
      else if n = 12 then [bslash, CHR ''f'']
      else if n = 10 then [bslash, CHR ''n'']
      else if n = 13 then [bslash, CHR ''r'']
      else if n = 9 then [bslash, CHR ''t'']
      else if n < 32 \<or> c \<in> {CHR ''<'', CHR ''>'', CHR ''&''} then
        [bslash, CHR ''u'', CHR ''0'', CHR ''0'', hex_char (n div 16), hex_char (n mod 16)]
      else [c])"

definition esc_chunk :: "bytes \<Rightarrow> string" where
  "esc_chunk ch =
     (if is_ascii (hd ch) then esc_ascii (hd ch)
      else if utf8_head ch = 0 then bslash # ''ufffd''
      else if map byte_val ch = [226, 128, 168 :: nat] then bslash # ''u2028''
      else if map byte_val ch = [226, 128, 169 :: nat] then bslash # ''u2029''
      else ch)"

function escape :: "bytes \<Rightarrow> string" where
  "escape s =
     (if s = [] then [] else esc_chunk (take (char_len s) s) @ escape (drop (char_len s) s))"
  by pat_completeness auto
termination
  by (relation "measure length") (auto simp: char_len_def)

declare escape.simps [simp del]

lemma escape_Nil [simp]: "escape [] = []"
  by (simp add: escape.simps)

fun hex4 :: "string \<Rightarrow> (nat \<times> string) option" where
  "hex4 (a # b # c # d # r) =
     (case (hex_val a, hex_val b, hex_val c, hex_val d) of
        (Some w, Some x, Some y, Some z) \<Rightarrow> Some (((w * 16 + x) * 16 + y) * 16 + z, r)
      | _ \<Rightarrow> None)"
| "hex4 _ = None"

text \<open>An escape sequence after its backslash, as \<^verbatim>\<open>unquote\<close> reads it.\<close>

definition low_surrogate :: "string \<Rightarrow> (nat \<times> string) option" where
  "low_surrogate s =
     (case s of
        x # y # r \<Rightarrow>
          if x = bslash \<and> y = CHR ''u'' then
            (case hex4 r of
               Some (v, q) \<Rightarrow> if 56320 \<le> v \<and> v \<le> 57343 then Some (v, q) else None
             | None \<Rightarrow> None)
          else None
      | _ \<Rightarrow> None)"

definition read_u :: "string \<Rightarrow> (bytes \<times> string) option" where
  "read_u s =
     (case hex4 s of
        None \<Rightarrow> None
      | Some (u, r) \<Rightarrow>
          if 55296 \<le> u \<and> u \<le> 57343 then
            (case (if u \<le> 56319 then low_surrogate r else None) of
               Some (v, q) \<Rightarrow> Some (utf8_encode (65536 + (u - 55296) * 1024 + (v - 56320)), q)
             | None \<Rightarrow> Some (utf8_encode 65533, r))
          else Some (utf8_encode u, r))"

definition read_escape :: "string \<Rightarrow> (bytes \<times> string) option" where
  "read_escape s =
     (case s of
        [] \<Rightarrow> None
      | c # r \<Rightarrow>
          if c = dquote \<or> c = bslash \<or> c = CHR ''/'' then Some ([c], r)
          else if c = CHR ''b'' then Some ([byte_of 8], r)
          else if c = CHR ''f'' then Some ([byte_of 12], r)
          else if c = CHR ''n'' then Some ([byte_of 10], r)
          else if c = CHR ''r'' then Some ([byte_of 13], r)
          else if c = CHR ''t'' then Some ([byte_of 9], r)
          else if c = CHR ''u'' then read_u r
          else None)"

text \<open>
  One character of a quoted string: control bytes are a syntax error, invalid UTF-8 is
  replaced by U+FFFD.
\<close>

definition read_char :: "string \<Rightarrow> (bytes \<times> string) option" where
  "read_char s =
     (case s of
        [] \<Rightarrow> None
      | c # r \<Rightarrow>
          if c = bslash then read_escape r
          else if byte_val c < 32 then None
          else if is_ascii c then Some ([c], r)
          else if utf8_head s = 0 then Some (utf8_encode 65533, r)
          else Some (take (utf8_head s) s, drop (utf8_head s) s))"

lemma hex4_length: "hex4 s = Some (u, r) \<Longrightarrow> length r < length s"
  by (induction s rule: hex4.induct) (auto split: option.splits)

lemma low_surrogate_length: "low_surrogate s = Some (v, q) \<Longrightarrow> length q < length s"
  by (auto simp: low_surrogate_def split: list.splits if_splits option.splits dest!: hex4_length)

lemma read_u_length: "read_u s = Some (bs, r) \<Longrightarrow> length r < length s"
  by (auto simp: read_u_def split: option.splits if_splits
      dest!: hex4_length low_surrogate_length)

lemma read_escape_length: "read_escape s = Some (bs, r) \<Longrightarrow> length r < length s"
  by (auto simp: read_escape_def split: list.splits if_splits dest!: read_u_length)

lemma read_char_length: "read_char s = Some (bs, r) \<Longrightarrow> length r < length s"
  by (auto simp: read_char_def split: list.splits if_splits dest!: read_escape_length)

text \<open>The rest of a quoted string after its opening quote, and what follows it.\<close>

function lex_str :: "string \<Rightarrow> (bytes \<times> string) option" where
  "lex_str s =
     (if s \<noteq> [] \<and> hd s = dquote then Some ([], tl s)
      else
        (case read_char s of
           None \<Rightarrow> None
         | Some (bs, r) \<Rightarrow> map_option (\<lambda>(t, q). (bs @ t, q)) (lex_str r)))"
  by pat_completeness auto
termination
  by (relation "measure length") (auto dest: read_char_length)

declare lex_str.simps [simp del]

lemma lex_str_length: "lex_str s = Some (t, q) \<Longrightarrow> length q < length s"
proof (induction s arbitrary: t q rule: lex_str.induct)
  case (1 s)
  show ?case
  proof (cases "s \<noteq> [] \<and> hd s = dquote")
    case True
    then show ?thesis
      using "1.prems" by (auto simp: lex_str.simps [of s])
  next
    case False
    then obtain bs r t' where r: "read_char s = Some (bs, r)" "lex_str r = Some (t', q)"
      using "1.prems" by (auto simp: lex_str.simps [of s] split: option.splits)
    then have "length q < length r"
      using "1.IH" False by blast
    with read_char_length [OF r(1)] show ?thesis by simp
  qed
qed

section \<open>The string round trip\<close>

lemma hex_val_hex_char [simp]: "n < 16 \<Longrightarrow> hex_val (hex_char n) = Some n"
  by (auto simp: hex_val_def hex_char_def Let_def)

lemma byte_of_byte_val_eq: "byte_val c = n \<Longrightarrow> byte_of n = c"
  by auto

lemma hex4_control:
  assumes "byte_val c < (128 :: nat)"
  shows "hex4 (CHR ''0'' # CHR ''0'' # hex_char (byte_val c div 16) # hex_char (byte_val c mod 16) # t)
    = Some (byte_val c, t)"
proof -
  have "byte_val c div 16 < (16 :: nat)" "byte_val c mod 16 < (16 :: nat)"
    using assms by (simp_all add: less_mult_imp_div_less)
  moreover have "hex_val (CHR ''0'') = Some 0"
    by (simp add: hex_val_def)
  ultimately show ?thesis by simp
qed

lemma read_esc_letter:
  assumes "esc_ascii c = [bslash, l]" and "byte_val c = k"
    and "read_escape (l # t) = Some ([byte_of k], t)"
  shows "read_char (esc_ascii c @ t) = Some ([c], t)"
  using assms byte_of_byte_val_eq [OF assms(2)] by (simp add: read_char_def)

lemma read_esc_ascii:
  assumes "is_ascii c"
  shows "read_char (esc_ascii c @ t) = Some ([c], t)"
proof (cases "c = dquote \<or> c = bslash")
  case True
  then show ?thesis
    by (auto simp: esc_ascii_def read_char_def read_escape_def)
next
  case q: False
  have n: "byte_val c < (128 :: nat)"
    using assms by (simp add: is_ascii_def)
  consider "byte_val c = (8 :: nat)" | "byte_val c = (12 :: nat)" | "byte_val c = (10 :: nat)"
    | "byte_val c = (13 :: nat)" | "byte_val c = (9 :: nat)"
    | (other) "byte_val c \<notin> {8, 12, 10, 13, 9 :: nat}"
    by blast
  then show ?thesis
  proof cases
    case 1
    with q show ?thesis
      by (intro read_esc_letter [of c "CHR ''b''" 8]) (simp_all add: esc_ascii_def read_escape_def)
  next
    case 2
    with q show ?thesis
      by (intro read_esc_letter [of c "CHR ''f''" 12]) (simp_all add: esc_ascii_def read_escape_def)
  next
    case 3
    with q show ?thesis
      by (intro read_esc_letter [of c "CHR ''n''" 10]) (simp_all add: esc_ascii_def read_escape_def)
  next
    case 4
    with q show ?thesis
      by (intro read_esc_letter [of c "CHR ''r''" 13]) (simp_all add: esc_ascii_def read_escape_def)
  next
    case 5
    with q show ?thesis
      by (intro read_esc_letter [of c "CHR ''t''" 9]) (simp_all add: esc_ascii_def read_escape_def)
  next
    case other
    have u: "read_u (CHR ''0'' # CHR ''0'' # hex_char (byte_val c div 16) # hex_char (byte_val c mod 16) # t)
        = Some ([c], t)"
      using hex4_control [OF n, of t] n by (simp add: read_u_def utf8_encode_def del: hex4.simps)
    show ?thesis
    proof (cases "byte_val c < (32 :: nat) \<or> c \<in> {CHR ''<'', CHR ''>'', CHR ''&''}")
      case True
      then have "esc_ascii c = [bslash, CHR ''u'', CHR ''0'', CHR ''0'',
          hex_char (byte_val c div 16), hex_char (byte_val c mod 16)]"
        unfolding esc_ascii_def Let_def using q other by (simp only: insert_iff if_False if_True) simp
      then show ?thesis
        using u by (simp add: read_char_def read_escape_def)
    next
      case False
      then have "esc_ascii c = [c]"
        unfolding esc_ascii_def Let_def using q other by simp
      then show ?thesis
        using q assms False by (simp add: read_char_def)
    qed
  qed
qed

text \<open>A multi-byte sequence is recognised from its own bytes alone.\<close>

lemma utf8_head_prefix:
  assumes "utf8_head s = n" and "n \<noteq> 0"
  shows "utf8_head (take n s @ t) = n \<and> length (take n s) = n \<and> 2 \<le> n \<and> n \<le> 4 \<and> \<not> is_ascii (hd s)"
proof (cases s rule: utf8_head.cases)
  case (1 a b rest)
  consider "194 \<le> (byte_val a :: nat)" "byte_val a \<le> (223 :: nat)"
    | "224 \<le> (byte_val a :: nat)" "byte_val a \<le> (239 :: nat)"
    | "240 \<le> (byte_val a :: nat)" "byte_val a \<le> (244 :: nat)"
    using assms 1 by (fastforce simp: Let_def split: if_splits)
  then show ?thesis
  proof cases
    case 1
    then show ?thesis
      using assms \<open>s = a # b # rest\<close> by (auto simp: Let_def is_ascii_def split: if_splits)
  next
    case 2
    then obtain c r where "rest = c # r"
      using assms \<open>s = a # b # rest\<close> by (auto simp: Let_def split: list.splits)
    then show ?thesis
      using assms 2 \<open>s = a # b # rest\<close> by (simp add: Let_def is_ascii_def split: if_split_asm)
  next
    case 3
    then obtain c d r where "rest = c # d # r"
      using assms \<open>s = a # b # rest\<close> by (auto simp: Let_def split: list.splits)
    then show ?thesis
      using assms 3 \<open>s = a # b # rest\<close> by (simp add: Let_def is_ascii_def split: if_split_asm)
  qed
qed (use assms in auto)

lemma utf8_head_bytes:
  assumes "utf8_head s \<noteq> 0" and "c \<in> set (take (utf8_head s) s)"
  shows "128 \<le> byte_val c"
proof (cases s rule: utf8_head.cases)
  case (1 a b rest)
  with assms show ?thesis
    by (auto simp: Let_def utf8_cont_def split: if_splits list.splits)
qed (use assms in auto)

lemma read_esc_chunk:
  assumes "s \<noteq> []" and "is_ascii (hd s) \<or> utf8_head s \<noteq> 0"
  shows "read_char (esc_chunk (take (char_len s) s) @ t) = Some (take (char_len s) s, t)"
proof (cases "is_ascii (hd s)")
  case True
  then obtain c r where "s = c # r" "is_ascii c"
    using assms(1) by (cases s) auto
  then show ?thesis
    by (simp add: char_len_def esc_chunk_def read_esc_ascii)
next
  case False
  define n where "n = utf8_head s"
  define ch where "ch = take n s"
  have n: "n \<noteq> 0" "char_len s = n"
    using assms(2) False by (simp_all add: char_len_def n_def)
  have pre: "utf8_head (ch @ t) = n" "utf8_head ch = n" "length ch = n" "2 \<le> n"
    using utf8_head_prefix [OF n_def [symmetric] n(1), of t]
      utf8_head_prefix [OF n_def [symmetric] n(1), of "[]"]
    by (simp_all add: ch_def)
  have hd: "hd ch = hd s"
    using n(1) assms(1) by (cases s) (simp_all add: ch_def take_Cons split: nat.split)
  obtain a r where ar: "ch = a # r"
    using pre(3,4) by (cases ch) auto
  have a: "\<not> is_ascii a"
    using False hd ar by simp
  have u: "ch = map byte_of (map byte_val ch :: nat list)"
    by (simp add: comp_def)
  have plain: "read_char (ch @ t) = Some (ch, t)"
  proof -
    have l: "n = Suc (length r)"
      using pre(3) ar by simp
    then have "take n (a # r @ t) = a # r" "drop n (a # r @ t) = t"
      by simp_all
    moreover have "utf8_head (a # r @ t) = n"
      using pre(1) ar by simp
    ultimately show ?thesis
      using a n(1) unfolding ar by (auto simp: read_char_def is_ascii_def)
  qed
  have hex: "hex_val (CHR ''2'') = Some 2" "hex_val (CHR ''0'') = Some 0"
    "hex_val (CHR ''8'') = Some 8" "hex_val (CHR ''9'') = Some 9"
    by (simp_all add: hex_val_def)
  have "read_char (esc_chunk ch @ t) = Some (ch, t)"
  proof -
    consider (ls) "map byte_val ch = [226, 128, 168 :: nat]"
      | (ps) "map byte_val ch = [226, 128, 169 :: nat]"
      | (other) "map byte_val ch \<noteq> [226, 128, 168 :: nat]" "map byte_val ch \<noteq> [226, 128, 169 :: nat]"
      by blast
    then show ?thesis
    proof cases
      case ls
      with u have "ch = [byte_of 226, byte_of 128, byte_of 168]" by simp
      then show ?thesis
        using ls a ar pre(2) n(1) hex
        by (simp add: esc_chunk_def read_char_def read_escape_def read_u_def utf8_encode_def)
    next
      case ps
      with u have "ch = [byte_of 226, byte_of 128, byte_of 169]" by simp
      then show ?thesis
        using ps a ar pre(2) n(1) hex
        by (simp add: esc_chunk_def read_char_def read_escape_def read_u_def utf8_encode_def)
    next
      case other
      then have "esc_chunk ch = ch"
        unfolding esc_chunk_def using a ar pre(2) n(1) by auto
      then show ?thesis
        using plain by simp
    qed
  qed
  then show ?thesis
    by (simp add: n(2) ch_def)
qed

lemma esc_ascii_start: "\<exists>x xs. esc_ascii c = x # xs \<and> x \<noteq> dquote"
  by (auto simp: esc_ascii_def Let_def)

lemma esc_chunk_start:
  assumes "s \<noteq> []"
  shows "\<exists>x xs. esc_chunk (take (char_len s) s) = x # xs \<and> x \<noteq> dquote"
proof (cases "is_ascii (hd s)")
  case True
  then show ?thesis
    using assms esc_ascii_start [of "hd s"] by (cases s) (auto simp: esc_chunk_def char_len_def)
next
  case False
  then have "hd s \<noteq> dquote"
    by (auto simp: is_ascii_def)
  moreover have "\<exists>xs. take (char_len s) s = hd s # xs"
    using assms char_len_pos(1) [of s] by (cases s) (auto simp: take_Cons' simp del: char_len_pos)
  ultimately show ?thesis
    using False by (auto simp: esc_chunk_def)
qed

lemma lex_str_escape: "valid_utf8 s \<Longrightarrow> lex_str (escape s @ dquote # t) = Some (s, t)"
proof (induction s rule: escape.induct)
  case (1 s)
  show ?case
  proof (cases "s = []")
    case True
    then show ?thesis
      by (simp add: escape.simps [of s] lex_str.simps [of "dquote # t"])
  next
    case False
    have v: "is_ascii (hd s) \<or> utf8_head s \<noteq> 0" "valid_utf8 (drop (char_len s) s)"
      using "1.prems" False by (simp_all add: valid_utf8.simps [of s])
    let ?rest = "escape (drop (char_len s) s) @ dquote # t"
    have ih: "lex_str ?rest = Some (drop (char_len s) s, t)"
      using "1.IH" [OF False v(2)] .
    have e: "escape s @ dquote # t = esc_chunk (take (char_len s) s) @ ?rest"
      using False by (simp add: escape.simps [of s])
    obtain x xs where "esc_chunk (take (char_len s) s) = x # xs" "x \<noteq> dquote"
      using esc_chunk_start [OF False] by blast
    then show ?thesis
      unfolding e using ih read_esc_chunk [OF False v(1), of ?rest]
      by (subst lex_str.simps) simp
  qed
qed

text \<open>The encoder writes no control character, so no record separator either.\<close>

lemma esc_ascii_ge_32: "c \<in> set (esc_ascii d) \<Longrightarrow> 32 \<le> byte_val c"
  by (auto simp: esc_ascii_def Let_def hex_char_def split: if_splits)

lemma escape_ge_32: "c \<in> set (escape s) \<Longrightarrow> 32 \<le> byte_val c"
proof (induction s rule: escape.induct)
  case (1 s)
  show ?case
  proof (cases "s = []")
    case True
    then show ?thesis
      using "1.prems" by (simp add: escape.simps [of s])
  next
    case False
    consider "c \<in> set (esc_chunk (take (char_len s) s))" | "c \<in> set (escape (drop (char_len s) s))"
      using "1.prems" False by (auto simp: escape.simps [of s])
    then show ?thesis
    proof cases
      case 1
      show ?thesis
      proof (cases "is_ascii (hd s) \<or> utf8_head s = 0")
        case True
        then have t: "take (char_len s) s = [hd s]"
          using False by (cases s) (simp_all add: char_len_def)
        show ?thesis
          using 1 esc_ascii_ge_32 unfolding t
          by (auto simp: esc_chunk_def split: if_splits)
      next
        case multi: False
        have "128 \<le> byte_val c" if "c \<in> set (take (char_len s) s)"
          using utf8_head_bytes [of s c] that multi by (simp add: char_len_def)
        moreover have "hd (take (char_len s) s) = hd s"
          using False by (simp add: hd_take)
        ultimately show ?thesis
          using 1 multi by (auto simp: esc_chunk_def split: if_splits)
      qed
    next
      case 2
      then show ?thesis
        using "1.IH" False by blast
    qed
  qed
qed

end
