(* ===== verification/Base64.thy ===== *)
theory Base64
  imports Prelude
begin

text \<open>
  The part of Go's \<^verbatim>\<open>encoding/base64\<close> that the transport codec uses:
  \<^verbatim>\<open>StdEncoding.EncodeToString\<close> and \<^verbatim>\<open>StdEncoding.Decode\<close> (padding required,
  carriage returns and line feeds ignored, unused trailing bits not checked), with
  the round trip and the alphabet of the encoder's output.
\<close>

section \<open>The standard alphabet\<close>

definition b64_char :: "nat \<Rightarrow> char" where
  "b64_char n =
     (if n < 26 then byte_of (65 + n)
      else if n < 52 then byte_of (71 + n)
      else if n < 62 then byte_of (n - 4)
      else if n = 62 then CHR ''+'' else CHR ''/'')"

definition b64_val :: "char \<Rightarrow> nat option" where
  "b64_val c =
     (let n = byte_val c in
      if 65 \<le> n \<and> n \<le> 90 then Some (n - 65)
      else if 97 \<le> n \<and> n \<le> 122 then Some (n - 71)
      else if 48 \<le> n \<and> n \<le> 57 then Some (n + 4)
      else if n = 43 then Some 62
      else if n = 47 then Some 63
      else None)"

lemma b64_val_b64_char [simp]: "n < 64 \<Longrightarrow> b64_val (b64_char n) = Some n"
  by (auto simp: b64_val_def b64_char_def Let_def)

lemma b64_val_pad [simp]: "b64_val (CHR ''='') = None"
  by (simp add: b64_val_def)

lemma b64_char_not_pad [simp]: "n < 64 \<Longrightarrow> b64_char n \<noteq> CHR ''=''"
  using b64_val_b64_char b64_val_pad by (metis option.distinct(1))

section \<open>Encoding\<close>

text \<open>
  The four sextets of a group of three bytes; a short last group is filled up with zero
  bytes before its sextets are taken.
\<close>

definition sextet0 :: "char \<Rightarrow> nat" where
  "sextet0 a = byte_val a div 4"

definition sextet1 :: "char \<Rightarrow> char \<Rightarrow> nat" where
  "sextet1 a b = byte_val a mod 4 * 16 + byte_val b div 16"

definition sextet2 :: "char \<Rightarrow> char \<Rightarrow> nat" where
  "sextet2 b c = byte_val b mod 16 * 4 + byte_val c div 64"

definition sextet3 :: "char \<Rightarrow> nat" where
  "sextet3 c = byte_val c mod 64"

fun b64_encode :: "bytes \<Rightarrow> string" where
  "b64_encode [] = []"
| "b64_encode [a] =
     [b64_char (sextet0 a), b64_char (sextet1 a (CHR 0x00)), CHR ''='', CHR ''='']"
| "b64_encode [a, b] =
     [b64_char (sextet0 a), b64_char (sextet1 a b), b64_char (sextet2 b (CHR 0x00)), CHR ''='']"
| "b64_encode (a # b # c # rest) =
     b64_char (sextet0 a) # b64_char (sextet1 a b) # b64_char (sextet2 b c)
     # b64_char (sextet3 c) # b64_encode rest"

section \<open>Decoding\<close>

text \<open>
  \<^verbatim>\<open>decodeQuantum\<close> skips line feeds and carriage returns wherever they stand, so
  decoding works on the input without them; a quantum is four characters, and only the
  last may end in one or two padding characters.
\<close>

definition b64_newline :: "char \<Rightarrow> bool" where
  "b64_newline c \<longleftrightarrow> byte_val c = 10 \<or> byte_val c = 13"

fun b64_quanta :: "string \<Rightarrow> bytes option" where
  "b64_quanta [] = Some []"
| "b64_quanta (a # b # c # d # rest) =
     (case (b64_val a, b64_val b) of
        (Some v0, Some v1) \<Rightarrow>
          if c = CHR ''='' then
            (if d = CHR ''='' \<and> rest = [] then Some [byte_of (v0 * 4 + v1 div 16)] else None)
          else
            (case b64_val c of
               None \<Rightarrow> None
             | Some v2 \<Rightarrow>
                 if d = CHR ''='' then
                   (if rest = [] then
                      Some [byte_of (v0 * 4 + v1 div 16), byte_of (v1 mod 16 * 16 + v2 div 4)]
                    else None)
                 else
                   (case b64_val d of
                      None \<Rightarrow> None
                    | Some v3 \<Rightarrow>
                        map_option
                          (\<lambda>bs. byte_of (v0 * 4 + v1 div 16) # byte_of (v1 mod 16 * 16 + v2 div 4)
                                # byte_of (v2 mod 4 * 64 + v3) # bs)
                          (b64_quanta rest)))
      | _ \<Rightarrow> None)"
| "b64_quanta _ = None"

definition b64_decode :: "string \<Rightarrow> bytes option" where
  "b64_decode s = b64_quanta (filter (\<lambda>c. \<not> b64_newline c) s)"

section \<open>Round trip\<close>

lemma byte_div_less:
  "byte_val a div 4 < (64 :: nat)" "byte_val a div 16 < (16 :: nat)" "byte_val a div 64 < (4 :: nat)"
  by (rule less_mult_imp_div_less; simp)+

lemma sextet_less [simp]:
  "sextet0 a < 64" "sextet1 a b < 64" "sextet2 b c < 64" "sextet3 c < 64"
proof -
  have "byte_val a mod 4 < (4 :: nat)" "byte_val b mod 16 < (16 :: nat)"
    by simp_all
  then show "sextet1 a b < 64" "sextet2 b c < 64"
    using byte_div_less [of b] byte_div_less [of c]
    unfolding sextet1_def sextet2_def by linarith+
qed (simp_all add: sextet0_def sextet3_def byte_div_less)

lemma sextets_first [simp]: "byte_of (sextet0 a * 4 + sextet1 a b div 16) = a"
proof -
  have "sextet1 a b div 16 = byte_val a mod 4"
    by (simp add: sextet1_def byte_div_less)
  then show ?thesis by (simp add: sextet0_def)
qed

lemma sextets_second [simp]: "byte_of (sextet1 a b mod 16 * 16 + sextet2 b c div 4) = b"
proof -
  have "sextet1 a b mod 16 = byte_val b div 16" "sextet2 b c div 4 = byte_val b mod 16"
    by (simp_all add: sextet1_def sextet2_def byte_div_less)
  then show ?thesis by simp
qed

lemma sextets_third [simp]: "byte_of (sextet2 b c mod 4 * 64 + sextet3 c) = c"
proof -
  have "sextet2 b c mod 4 = byte_val c div 64"
    by (simp add: sextet2_def byte_div_less)
  then show ?thesis by (simp add: sextet3_def)
qed

lemma b64_quanta_encode: "b64_quanta (b64_encode bs) = Some bs"
  by (induction bs rule: b64_encode.induct) simp_all

definition b64_alphabet :: "char \<Rightarrow> bool" where
  "b64_alphabet c \<longleftrightarrow> c = CHR ''='' \<or> b64_val c \<noteq> None"

lemma b64_encode_alphabet: "list_all b64_alphabet (b64_encode bs)"
  by (induction bs rule: b64_encode.induct) (simp_all add: b64_alphabet_def)

lemma b64_alphabet_gt_32: "b64_alphabet c \<Longrightarrow> 32 < byte_val c"
  by (auto simp: b64_alphabet_def b64_val_def Let_def split: if_splits)

lemma b64_encode_gt_32: "c \<in> set (b64_encode bs) \<Longrightarrow> 32 < byte_val c"
  using b64_encode_alphabet [of bs] b64_alphabet_gt_32 by (auto simp: list_all_iff)

lemma b64_decode_encode [simp]: "b64_decode (b64_encode bs) = Some bs"
proof -
  have "\<not> b64_newline c" if "c \<in> set (b64_encode bs)" for c
    using b64_encode_gt_32 [OF that] by (auto simp: b64_newline_def)
  then have "filter (\<lambda>c. \<not> b64_newline c) (b64_encode bs) = b64_encode bs"
    by (simp add: filter_id_conv)
  then show ?thesis
    by (simp add: b64_decode_def b64_quanta_encode)
qed

text \<open>\<^verbatim>\<open>EncodedLen\<close>: four characters for every started group of three bytes.\<close>

lemma length_b64_encode: "length (b64_encode bs) = (length bs + 2) div 3 * 4"
  by (induction bs rule: b64_encode.induct) (simp_all, presburger)

end
