(* ===== verification/Json.thy ===== *)
theory Json
  imports JsonText Base64
begin

text \<open>
  \<^verbatim>\<open>json.Marshal\<close> and \<^verbatim>\<open>json.Unmarshal\<close> into an \<^verbatim>\<open>any\<close>, over the values of
  \<open>GoValue\<close>: a tokeniser and a stack parser that consumes the token list, the printer,
  and the proof that reading what was printed gives the value's JSON form. The locale
  \<open>json_codec\<close> is what the packet codec relies on; it is interpreted here. (Go limits
  the nesting depth of a document to 10000; the model has no such limit.)
\<close>

section \<open>Tokens\<close>

datatype tok =
    TLBrace | TRBrace | TLBrack | TRBrack | TComma | TColon
  | TStr string | TNum decimal | TBool bool | TNull

definition json_ws :: "char \<Rightarrow> bool" where
  "json_ws c \<longleftrightarrow> byte_val c \<in> {32, 9, 10, 13 :: nat}"

definition num_start :: "char \<Rightarrow> bool" where
  "num_start c \<longleftrightarrow> isDigit c \<or> c = CHR ''-''"

definition lit_tok :: "string \<Rightarrow> (tok \<times> string) option" where
  "lit_tok s =
     (if hasPrefix s ''true'' then Some (TBool True, drop 4 s)
      else if hasPrefix s ''false'' then Some (TBool False, drop 5 s)
      else if hasPrefix s ''null'' then Some (TNull, drop 4 s)
      else None)"

text \<open>One token at the head of a text that does not start with white space.\<close>

definition next_tok :: "string \<Rightarrow> (tok \<times> string) option" where
  "next_tok s =
     (case s of
        [] \<Rightarrow> None
      | c # r \<Rightarrow>
          if c = CHR ''{'' then Some (TLBrace, r)
          else if c = CHR ''}'' then Some (TRBrace, r)
          else if c = CHR ''['' then Some (TLBrack, r)
          else if c = CHR '']'' then Some (TRBrack, r)
          else if c = CHR '','' then Some (TComma, r)
          else if c = CHR '':'' then Some (TColon, r)
          else if c = dquote then map_option (\<lambda>(t, q). (TStr t, q)) (lex_str r)
          else if num_start c then
            map_option (\<lambda>d. (TNum d, dropWhile num_char s)) (parse_num (takeWhile num_char s))
          else lit_tok s)"

lemma lit_tok_length: "lit_tok s = Some (t, q) \<Longrightarrow> length q < length s"
  by (auto simp: lit_tok_def hasPrefix_iff split: if_splits)

lemma num_start_num_char: "num_start c \<Longrightarrow> num_char c"
  by (auto simp: num_start_def num_char_def)

lemma next_tok_length: "next_tok s = Some (t, q) \<Longrightarrow> length q < length s"
proof (cases s)
  case (Cons c r)
  assume n: "next_tok s = Some (t, q)"
  have "length (dropWhile num_char s) < length s" if "num_start c"
    using num_start_num_char [OF that] length_dropWhile_le [of num_char r] Cons by simp
  with n Cons show ?thesis
    by (auto simp: next_tok_def split: if_splits dest: lex_str_length lit_tok_length)
qed (simp add: next_tok_def)

function lex :: "string \<Rightarrow> tok list option" where
  "lex s =
     (case s of
        [] \<Rightarrow> Some []
      | c # r \<Rightarrow>
          if json_ws c then lex r
          else
            (case next_tok s of
               None \<Rightarrow> None
             | Some (t, q) \<Rightarrow> map_option (Cons t) (lex q)))"
  by pat_completeness auto
termination
  by (relation "measure length") (auto dest: next_tok_length)

declare lex.simps [simp del]

section \<open>The parser\<close>

text \<open>
  The containers still open, innermost first: an array with its elements so far, an object
  with its members so far, an object waiting for the value of a key.
\<close>

datatype frame = FArr "val list" | FObj "(string \<times> val) list" | FVal "(string \<times> val) list" string

text \<open>
  The parser's position: a value is expected, a value or the end of an empty array, a key
  or the end of an empty object, a key after a comma, a colon, or a value has just ended.
\<close>

datatype pos = PVal | PElemOrEnd | PKeyOrEnd | PKey | PColon | PEnd val

definition value_step :: "tok \<Rightarrow> frame list \<Rightarrow> (pos \<times> frame list) option" where
  "value_step t fs =
     (case t of
        TLBrace \<Rightarrow> Some (PKeyOrEnd, FObj [] # fs)
      | TLBrack \<Rightarrow> Some (PElemOrEnd, FArr [] # fs)
      | TStr s \<Rightarrow> Some (PEnd (VStr s), fs)
      | TNum d \<Rightarrow> Some (PEnd (VNum d), fs)
      | TBool b \<Rightarrow> Some (PEnd (VBool b), fs)
      | TNull \<Rightarrow> Some (PEnd VNil, fs)
      | _ \<Rightarrow> None)"

definition key_step :: "tok \<Rightarrow> frame list \<Rightarrow> (pos \<times> frame list) option" where
  "key_step t fs =
     (case fs of
        FObj ms # fs' \<Rightarrow> (case t of TStr k \<Rightarrow> Some (PColon, FVal ms k # fs') | _ \<Rightarrow> None)
      | _ \<Rightarrow> None)"

definition end_step :: "val \<Rightarrow> tok \<Rightarrow> frame list \<Rightarrow> (pos \<times> frame list) option" where
  "end_step v t fs =
     (case fs of
        FArr vs # fs' \<Rightarrow>
          (if t = TComma then Some (PVal, FArr (vs @ [v]) # fs')
           else if t = TRBrack then Some (PEnd (VArr (vs @ [v])), fs')
           else None)
      | FVal ms k # fs' \<Rightarrow>
          (if t = TComma then Some (PKey, FObj (obj_put k v ms) # fs')
           else if t = TRBrace then Some (PEnd (VObj (obj_put k v ms)), fs')
           else None)
      | _ \<Rightarrow> None)"

fun pstep :: "pos \<Rightarrow> tok \<Rightarrow> frame list \<Rightarrow> (pos \<times> frame list) option" where
  "pstep PVal t fs = value_step t fs"
| "pstep PElemOrEnd t fs =
     (if t = TRBrack then
        (case fs of FArr vs # fs' \<Rightarrow> Some (PEnd (VArr vs), fs') | _ \<Rightarrow> None)
      else value_step t fs)"
| "pstep PKeyOrEnd t fs =
     (if t = TRBrace then
        (case fs of FObj ms # fs' \<Rightarrow> Some (PEnd (VObj ms), fs') | _ \<Rightarrow> None)
      else key_step t fs)"
| "pstep PKey t fs = key_step t fs"
| "pstep PColon t fs = (if t = TColon then Some (PVal, fs) else None)"
| "pstep (PEnd v) t fs = end_step v t fs"

primrec parse_toks :: "tok list \<Rightarrow> pos \<Rightarrow> frame list \<Rightarrow> val option" where
  "parse_toks [] p fs = (case p of PEnd v \<Rightarrow> if fs = [] then Some v else None | _ \<Rightarrow> None)"
| "parse_toks (t # ts) p fs =
     (case pstep p t fs of None \<Rightarrow> None | Some (p', fs') \<Rightarrow> parse_toks ts p' fs')"

abbreviation parse :: "pos \<Rightarrow> frame list \<Rightarrow> tok list \<Rightarrow> val option" where
  "parse p fs ts \<equiv> parse_toks ts p fs"

lemmas pstep_simps = value_step_def key_step_def end_step_def

definition unmarshal :: "string \<Rightarrow> val option" where
  "unmarshal s = (case lex s of None \<Rightarrow> None | Some ts \<Rightarrow> parse PVal [] ts)"

section \<open>The printer\<close>

fun tok_text :: "tok \<Rightarrow> string" where
  "tok_text TLBrace = ''{''"
| "tok_text TRBrace = ''}''"
| "tok_text TLBrack = ''[''"
| "tok_text TRBrack = '']''"
| "tok_text TComma = '',''"
| "tok_text TColon = '':''"
| "tok_text (TStr s) = dquote # escape s @ [dquote]"
| "tok_text (TNum d) = format_num d"
| "tok_text (TBool b) = (if b then ''true'' else ''false'')"
| "tok_text TNull = ''null''"

definition member_toks :: "string \<Rightarrow> tok list \<Rightarrow> tok list" where
  "member_toks k vts = TStr k # TColon # vts"

text \<open>
  \<^verbatim>\<open>[]byte\<close> is written as base64 text, a placeholder as the object of its two fields,
  and the members of a map in the order of their keys. A reader has no exported fields and
  is written as an empty object, a nil reader as null; the packet encoder replaces both
  before it marshals.
\<close>

fun toks :: "val \<Rightarrow> tok list" where
  "toks VNil = [TNull]"
| "toks (VBool b) = [TBool b]"
| "toks (VNum d) = [TNum d]"
| "toks (VStr s) = [TStr s]"
| "toks (VBytes b) = [TStr (b64_encode b)]"
| "toks (VReader r) = (case r of NilReader \<Rightarrow> [TNull] | Reader _ \<Rightarrow> [TLBrace, TRBrace])"
| "toks (VArr vs) = TLBrack # join_with TComma (map toks vs) @ [TRBrack]"
| "toks (VObj ms) =
     TLBrace # join_with TComma
       (map (\<lambda>(k, ts). member_toks k ts) (sort_key fst (map (\<lambda>(k, v). (k, toks v)) ms)))
     @ [TRBrace]"
| "toks (VPlaceholder n) =
     [TLBrace, TStr ''_placeholder'', TColon, TBool True, TComma,
      TStr ''num'', TColon, TNum (dec_of_nat n), TRBrace]"

definition marshal :: "val \<Rightarrow> string" where
  "marshal v = concat (map tok_text (toks v))"

section \<open>The JSON form of a value\<close>

definition placeholder_obj :: "nat \<Rightarrow> val" where
  "placeholder_obj n =
     VObj [(''_placeholder'', VBool True), (''num'', VNum (dec_of_nat n))]"

fun json_form :: "val \<Rightarrow> val" where
  "json_form (VBytes b) = VStr (b64_encode b)"
| "json_form (VReader r) = (case r of NilReader \<Rightarrow> VNil | Reader _ \<Rightarrow> VObj [])"
| "json_form (VArr vs) = VArr (map json_form vs)"
| "json_form (VObj ms) = VObj (sort_key fst (map (\<lambda>(k, v). (k, json_form v)) ms))"
| "json_form (VPlaceholder n) = placeholder_obj n"
| "json_form v = v"

text \<open>
  The values whose JSON form carries them faithfully: valid UTF-8 in strings and keys,
  canonical numbers, no repeated key.
\<close>

fun wf_val :: "val \<Rightarrow> bool" where
  "wf_val (VNum d) \<longleftrightarrow> wf_decimal d"
| "wf_val (VStr s) \<longleftrightarrow> valid_utf8 s"
| "wf_val (VArr vs) \<longleftrightarrow> (\<forall>v\<in>set vs. wf_val v)"
| "wf_val (VObj ms) \<longleftrightarrow>
     distinct (map fst ms) \<and> (\<forall>(k, v)\<in>set ms. valid_utf8 k \<and> wf_val v)"
| "wf_val v \<longleftrightarrow> True"

section \<open>Parsing printed tokens\<close>

text \<open>
  A list of values parses to a list when each of them parses from any position that
  expects a value.
\<close>

definition parses :: "tok list \<Rightarrow> val \<Rightarrow> bool" where
  "parses vts v \<longleftrightarrow>
     (\<forall>fs ts. parse PVal fs (vts @ ts) = parse (PEnd v) fs ts)
     \<and> (\<forall>fs ts. parse PElemOrEnd fs (vts @ ts) = parse (PEnd v) fs ts)"

lemma parses_atom:
  "parses [TNull] VNil" "parses [TBool b] (VBool b)" "parses [TNum d] (VNum d)"
  "parses [TStr s] (VStr s)" "parses [TLBrace, TRBrace] (VObj [])" "parses [TLBrack, TRBrack] (VArr [])"
  by (simp_all add: parses_def pstep_simps)

lemma parses_elems:
  assumes "list_all2 parses vtss vs" and "vs \<noteq> []"
  shows "parse PVal (FArr pre # fs) (join_with TComma vtss @ TRBrack # ts)
    = parse (PEnd (VArr (pre @ vs))) fs ts"
  using assms
proof (induction vtss vs arbitrary: pre rule: list_all2_induct)
  case Nil
  then show ?case by simp
next
  case (Cons vts vtss v vs)
  have v: "parse PVal (FArr pre # fs) (vts @ us) = parse (PEnd v) (FArr pre # fs) us" for us
    using Cons.hyps(1) by (simp add: parses_def)
  show ?case
  proof (cases "vs = []")
    case True
    then show ?thesis
      using Cons.hyps(2) v [of "TRBrack # ts"] by (simp add: pstep_simps)
  next
    case False
    then have "vtss \<noteq> []"
      using Cons.hyps(2) by auto
    then show ?thesis
      using v Cons.IH [OF False, of "pre @ [v]"] by (simp add: join_with_Cons pstep_simps)
  qed
qed

lemma parses_arr:
  assumes "list_all2 parses vtss vs"
  shows "parses (TLBrack # join_with TComma vtss @ [TRBrack]) (VArr vs)"
proof (cases "vs = []")
  case True
  then show ?thesis
    using assms parses_atom(6) by simp
next
  case False
  then obtain vts vtss' v vs' where *: "vtss = vts # vtss'" "vs = v # vs'"
    using assms by (cases vtss; cases vs) auto
  have first: "parse PElemOrEnd (FArr [] # fs) (join_with TComma vtss @ ts)
      = parse PVal (FArr [] # fs) (join_with TComma vtss @ ts)" for fs ts
    using assms * by (cases vtss') (simp_all add: parses_def)
  show ?thesis
    using parses_elems [OF assms False, where pre = "[]"] first
    by (simp add: parses_def pstep_simps)
qed

lemma parses_members:
  assumes "list_all2 (\<lambda>(k', vts) (k, v). k' = k \<and> parses vts v) kts ms"
    and "ms \<noteq> []" and "distinct (map fst ms)" and "fst ` set ms \<inter> fst ` set pre = {}"
  shows "parse PKey (FObj pre # fs) (join_with TComma (map (\<lambda>(k, vts). member_toks k vts) kts) @ TRBrace # ts)
    = parse (PEnd (VObj (pre @ ms))) fs ts"
  using assms
proof (induction kts ms arbitrary: pre rule: list_all2_induct)
  case Nil
  then show ?case by simp
next
  case (Cons kt kts m ms)
  obtain k vts v where m: "kt = (k, vts)" "m = (k, v)" "parses vts v"
    using Cons.hyps(1) by (cases kt; cases m) auto
  have fresh: "obj_put k v pre = pre @ [(k, v)]"
    using Cons.prems(3) m by (intro obj_put_fresh) auto
  have v: "parse PKey (FObj pre # fs) (member_toks k vts @ us) = parse (PEnd v) (FVal pre k # fs) us" for us
    using m(3) by (simp add: parses_def member_toks_def pstep_simps)
  show ?case
  proof (cases "ms = []")
    case True
    then show ?thesis
      using Cons.hyps(2) v [of "TRBrace # ts"] m fresh by (simp add: pstep_simps)
  next
    case False
    then have ne: "kts \<noteq> []"
      using Cons.hyps(2) by auto
    have "parse PKey (FObj (pre @ [(k, v)]) # fs)
        (join_with TComma (map (\<lambda>(k, vts). member_toks k vts) kts) @ TRBrace # ts)
      = parse (PEnd (VObj ((pre @ [(k, v)]) @ ms))) fs ts"
      using Cons.prems m False by (intro Cons.IH) auto
    then show ?thesis
      using v ne m fresh by (simp add: join_with_Cons pstep_simps)
  qed
qed

lemma parses_obj:
  assumes "list_all2 (\<lambda>(k', vts) (k, v). k' = k \<and> parses vts v) kts ms" and "distinct (map fst ms)"
  shows "parses (TLBrace # join_with TComma (map (\<lambda>(k, vts). member_toks k vts) kts) @ [TRBrace]) (VObj ms)"
proof (cases "ms = []")
  case True
  then show ?thesis
    using assms parses_atom(5) by simp
next
  case False
  then obtain k vts kts' where *: "kts = (k, vts) # kts'"
    using assms by (cases kts) auto
  have first: "parse PKeyOrEnd (FObj [] # fs) (join_with TComma (map (\<lambda>(k, vts). member_toks k vts) kts) @ ts)
      = parse PKey (FObj [] # fs) (join_with TComma (map (\<lambda>(k, vts). member_toks k vts) kts) @ ts)" for fs ts
    using * by (cases kts') (simp_all add: member_toks_def)
  show ?thesis
    using parses_members [OF assms(1) False assms(2), where pre = "[]"] first
    by (simp add: parses_def pstep_simps)
qed

lemma parses_toks: "wf_val v \<Longrightarrow> parses (toks v) (json_form v)"
proof (induction v)
  case (VReader r)
  show ?case by (cases r) (simp_all add: parses_atom)
next
  case (VArr vs)
  then have "list_all2 parses (map toks vs) (map json_form vs)"
    by (auto simp: list_all2_map1 list_all2_map2 intro: list_all2_all_nthI)
  from parses_arr [OF this] show ?case by simp
next
  case (VObj ms)
  have "parses (toks v) (json_form v)" if "(k, v) \<in> set ms" for k v
    using VObj.IH [of "(k, v)" v] VObj.prems that by auto
  then have "list_all2 (\<lambda>(k', vts) (k, v). k' = k \<and> parses vts v)
      (map (\<lambda>(k, v). (k, toks v)) (sort_key fst ms)) (map (\<lambda>(k, v). (k, json_form v)) (sort_key fst ms))"
    by (auto simp: list_all2_map1 list_all2_map2 list.rel_refl_strong case_prod_beta
        intro!: list.rel_refl_strong)
  moreover have "distinct (map fst (map (\<lambda>(k, v). (k, json_form v)) (sort_key fst ms)))"
    using VObj.prems by (simp add: comp_def case_prod_beta)
  ultimately have "parses (TLBrace # join_with TComma (map (\<lambda>(k, vts). member_toks k vts)
      (map (\<lambda>(k, v). (k, toks v)) (sort_key fst ms))) @ [TRBrace])
      (VObj (map (\<lambda>(k, v). (k, json_form v)) (sort_key fst ms)))"
    by (rule parses_obj)
  then show ?case
    by (simp only: toks.simps json_form.simps sort_fst_map_snd)
next
  case (VPlaceholder n)
  show ?case
    by (simp add: parses_def pstep_simps placeholder_obj_def)
qed (simp_all add: parses_atom)

section \<open>Lexing printed tokens\<close>

fun tok_ok :: "tok \<Rightarrow> bool" where
  "tok_ok (TStr s) \<longleftrightarrow> valid_utf8 s"
| "tok_ok (TNum d) \<longleftrightarrow> wf_decimal d"
| "tok_ok t \<longleftrightarrow> True"

definition is_num :: "tok \<Rightarrow> bool" where
  "is_num t \<longleftrightarrow> (\<exists>d. t = TNum d)"

lemma is_num_simps [simp]:
  "is_num (TNum d)" "\<not> is_num TLBrace" "\<not> is_num TRBrace" "\<not> is_num TLBrack" "\<not> is_num TRBrack"
  "\<not> is_num TComma" "\<not> is_num TColon" "\<not> is_num (TStr s)" "\<not> is_num (TBool b)" "\<not> is_num TNull"
  by (auto simp: is_num_def)

text \<open>No two numbers follow each other directly.\<close>

definition apart :: "tok list \<Rightarrow> bool" where
  "apart ts \<longleftrightarrow> successively (\<lambda>a b. \<not> is_num a \<or> \<not> is_num b) ts"

lemma apart_Nil [simp]: "apart []"
  by (simp add: apart_def)

lemma apart_Cons [simp]:
  "apart (a # ts) \<longleftrightarrow> (ts = [] \<or> \<not> is_num a \<or> \<not> is_num (hd ts)) \<and> apart ts"
  by (auto simp: apart_def successively_Cons)

lemma apart_append [simp]:
  "apart (xs @ ys) \<longleftrightarrow> apart xs \<and> apart ys
     \<and> (xs = [] \<or> ys = [] \<or> \<not> is_num (last xs) \<or> \<not> is_num (hd ys))"
  by (auto simp: apart_def successively_append_iff)

lemma next_tok_num:
  assumes "wf_decimal d" and "s = [] \<or> \<not> num_char (hd s)"
  shows "next_tok (format_num d @ s) = Some (TNum d, s)"
proof -
  obtain c r where c: "format_num d = c # r" "isDigit c \<or> c = CHR ''-''"
    using format_num_start by blast
  have s: "takeWhile num_char s = []" "dropWhile num_char s = s"
    using assms(2) by (cases s; simp)+
  have tw: "takeWhile num_char (format_num d @ s) = format_num d"
    "dropWhile num_char (format_num d @ s) = s"
    using s format_num_chars [of d] by simp_all
  have ns: "num_start c" "c \<notin> {CHR ''{'', CHR ''}'', CHR ''['', CHR '']'', CHR '','', CHR '':'', dquote}"
    using c(2) by (auto simp: num_start_def isDigit_def)
  then have "next_tok (format_num d @ s)
      = map_option (\<lambda>x. (TNum x, dropWhile num_char (format_num d @ s)))
          (parse_num (takeWhile num_char (format_num d @ s)))"
    unfolding next_tok_def using c(1) by (simp add: c(1))
  then show ?thesis
    using tw parse_format_num [OF assms(1)] by simp
qed

lemma next_tok_text:
  assumes "tok_ok t" and "is_num t \<longrightarrow> s = [] \<or> \<not> num_char (hd s)"
  shows "next_tok (tok_text t @ s) = Some (t, s)"
proof (cases t)
  case (TStr x)
  then show ?thesis
    using assms(1) by (simp add: next_tok_def lex_str_escape)
next
  case (TNum d)
  then show ?thesis
    using assms next_tok_num by simp
next
  case (TBool b)
  then show ?thesis
    by (cases b) (simp_all add: next_tok_def num_start_def isDigit_def lit_tok_def hasPrefix_def)
next
  case TNull
  then show ?thesis
    by (simp add: next_tok_def num_start_def isDigit_def lit_tok_def hasPrefix_def)
qed (simp_all add: next_tok_def)

lemma tok_text_start:
  "\<exists>c r. tok_text t = c # r \<and> \<not> json_ws c \<and> (\<not> is_num t \<longrightarrow> \<not> num_char c)"
proof (cases t)
  case (TNum d)
  obtain c r where "format_num d = c # r" "isDigit c \<or> c = CHR ''-''"
    using format_num_start by blast
  then show ?thesis
    using TNum by (auto simp: json_ws_def isDigit_def)
qed (auto simp: json_ws_def num_char_def isDigit_def)

lemma lex_concat:
  assumes "list_all tok_ok ts" and "apart ts"
  shows "lex (concat (map tok_text ts)) = Some ts"
  using assms
proof (induction ts)
  case Nil
  show ?case by (simp add: lex.simps)
next
  case (Cons t ts)
  let ?s = "concat (map tok_text ts)"
  have ih: "lex ?s = Some ts"
    using Cons by (cases ts) auto
  have sep: "is_num t \<longrightarrow> ?s = [] \<or> \<not> num_char (hd ?s)"
  proof (cases ts)
    case (Cons u us)
    then show ?thesis
      using Cons.prems tok_text_start [of u] by auto
  qed simp
  obtain c r where "tok_text t = c # r" "\<not> json_ws c"
    using tok_text_start by blast
  then show ?case
    using next_tok_text [OF _ sep] Cons.prems(1) ih by (simp add: lex.simps [of "c # r @ ?s"])
qed

lemma apart_join:
  "(\<And>ts. ts \<in> set tss \<Longrightarrow> apart ts) \<Longrightarrow> apart (join_with TComma tss)"
  by (induction TComma tss rule: join_with.induct) auto

lemma apart_brackets:
  "apart ts \<Longrightarrow> \<not> is_num a \<Longrightarrow> \<not> is_num b \<Longrightarrow> apart (a # ts @ [b])"
  by simp

lemma list_all_join_with:
  "P s \<Longrightarrow> (\<And>p. p \<in> set ps \<Longrightarrow> list_all P p) \<Longrightarrow> list_all P (join_with s ps)"
  by (induction s ps rule: join_with.induct) auto

lemma toks_apart: "apart (toks v)"
proof (induction v)
  case (VReader r)
  show ?case by (cases r) simp_all
next
  case (VArr vs)
  then have "apart (join_with TComma (map toks vs))"
    by (intro apart_join) auto
  then show ?case by simp
next
  case (VObj ms)
  have "apart (member_toks k (toks v))" if "(k, v) \<in> set ms" for k v
    using VObj.IH [of "(k, v)" v] that by (simp add: member_toks_def)
  then have "apart (join_with TComma (map (\<lambda>(k, ts). member_toks k ts)
      (map (\<lambda>(k, v). (k, toks v)) (sort_key fst ms))))"
    by (intro apart_join) auto
  then show ?case by (simp add: sort_fst_map_snd)
qed simp_all

lemma b64_encode_valid: "valid_utf8 (b64_encode b)"
proof (rule valid_utf8_ascii)
  have "is_ascii c" if "b64_alphabet c" for c
    using that by (auto simp: is_ascii_def b64_alphabet_def b64_val_def Let_def split: if_splits)
  then show "list_all is_ascii (b64_encode b)"
    using b64_encode_alphabet [of b] by (auto simp: list_all_iff)
qed

lemma toks_ok: "wf_val v \<Longrightarrow> list_all tok_ok (toks v)"
proof (induction v)
  case (VBytes b)
  show ?case by (simp add: b64_encode_valid)
next
  case (VReader r)
  show ?case by (cases r) simp_all
next
  case (VArr vs)
  then have "list_all tok_ok (join_with TComma (map toks vs))"
    by (intro list_all_join_with) auto
  then show ?case by simp
next
  case (VObj ms)
  have "list_all tok_ok (member_toks k (toks v))" if "(k, v) \<in> set ms" for k v
    using VObj.IH [of "(k, v)" v] VObj.prems that by (auto simp: member_toks_def)
  then have "list_all tok_ok (join_with TComma (map (\<lambda>(k, ts). member_toks k ts)
      (map (\<lambda>(k, v). (k, toks v)) (sort_key fst ms))))"
    by (intro list_all_join_with) auto
  then show ?case by (simp add: sort_fst_map_snd)
next
  case (VPlaceholder n)
  show ?case
    by (simp add: dec_of_nat_def valid_utf8_ascii is_ascii_def)
qed simp_all

lemma unmarshal_marshal: "wf_val v \<Longrightarrow> unmarshal (marshal v) = Some (json_form v)"
proof -
  assume wf: "wf_val v"
  have "lex (marshal v) = Some (toks v)"
    unfolding marshal_def using toks_ok [OF wf] toks_apart by (rule lex_concat)
  moreover have "parse PVal [] (toks v @ []) = parse (PEnd (json_form v)) [] []"
    using parses_toks [OF wf] unfolding parses_def by blast
  ultimately show ?thesis
    by (simp add: unmarshal_def)
qed

section \<open>What the packet codec relies on\<close>

text \<open>
  The contract of the JSON layer towards the packet layer: reading back a printed value,
  the first byte of the values that may be a packet's payload (so that a namespace or an
  acknowledgement id in front of it can be delimited), and that no control byte occurs in
  the text (so that packets can be joined with the payload separator).
\<close>

definition payload_like :: "val \<Rightarrow> bool" where
  "payload_like v \<longleftrightarrow> (case v of VArr _ \<Rightarrow> True | VObj _ \<Rightarrow> True | VStr _ \<Rightarrow> True | _ \<Rightarrow> False)"

locale json_codec =
  fixes enc :: "val \<Rightarrow> string" and dec :: "string \<Rightarrow> val option"
    and form :: "val \<Rightarrow> val" and ok :: "val \<Rightarrow> bool"
  assumes dec_enc: "ok v \<Longrightarrow> dec (enc v) = Some (form v)"
    and enc_start: "payload_like v \<Longrightarrow> \<exists>c r. enc v = c # r \<and> c \<in> {CHR ''['', CHR ''{'', dquote}"
    and enc_printable: "c \<in> set (enc v) \<Longrightarrow> 32 \<le> (byte_val c :: nat)"

lemma tok_text_printable: "c \<in> set (tok_text t) \<Longrightarrow> 32 \<le> (byte_val c :: nat)"
proof (cases t)
  case (TStr s)
  assume "c \<in> set (tok_text t)"
  then show ?thesis
    using TStr by (auto dest: escape_ge_32)
next
  case (TNum d)
  assume "c \<in> set (tok_text t)"
  then have "num_char c"
    using TNum format_num_chars [of d] by (auto simp: list_all_iff)
  then show ?thesis
    by (auto simp: num_char_def isDigit_def)
qed (auto split: if_splits)

lemma marshal_printable: "c \<in> set (marshal v) \<Longrightarrow> 32 \<le> (byte_val c :: nat)"
  unfolding marshal_def using tok_text_printable by auto

lemma marshal_start:
  "payload_like v \<Longrightarrow> \<exists>c r. marshal v = c # r \<and> c \<in> {CHR ''['', CHR ''{'', dquote}"
  by (cases v) (auto simp: payload_like_def marshal_def)

interpretation json: json_codec marshal unmarshal json_form wf_val
  using unmarshal_marshal marshal_start marshal_printable by unfold_locales

end
