(* ===== verification/SioPacket.thy ===== *)
theory SioPacket
  imports Json
begin

text \<open>
  The Socket.IO packet codec (\<^verbatim>\<open>socketio/packet.go\<close>): the text form of a packet, the
  checks on a decoded payload, and the two walks that take binary values out of a payload
  and put them back. The lemmas show that a packet survives encoding and decoding, what a
  decoded packet can be, and that the walks are inverse to each other on the wire.
\<close>

section \<open>Packets\<close>

datatype PacketType =
  Connect | Disconnect | Event | Ack | ConnectError | BinaryEvent | BinaryAck

fun packet_type_byte :: "PacketType \<Rightarrow> char" where
  "packet_type_byte Connect = CHR ''0''"
| "packet_type_byte Disconnect = CHR ''1''"
| "packet_type_byte Event = CHR ''2''"
| "packet_type_byte Ack = CHR ''3''"
| "packet_type_byte ConnectError = CHR ''4''"
| "packet_type_byte BinaryEvent = CHR ''5''"
| "packet_type_byte BinaryAck = CHR ''6''"

definition packet_type_of_byte :: "char \<Rightarrow> PacketType option" where
  "packet_type_of_byte c =
     (if c = CHR ''0'' then Some Connect
      else if c = CHR ''1'' then Some Disconnect
      else if c = CHR ''2'' then Some Event
      else if c = CHR ''3'' then Some Ack
      else if c = CHR ''4'' then Some ConnectError
      else if c = CHR ''5'' then Some BinaryEvent
      else if c = CHR ''6'' then Some BinaryAck
      else None)"

fun PacketType_String :: "PacketType \<Rightarrow> string" where
  "PacketType_String Connect = ''connect''"
| "PacketType_String Disconnect = ''disconnect''"
| "PacketType_String Event = ''event''"
| "PacketType_String Ack = ''ack''"
| "PacketType_String ConnectError = ''connect_error''"
| "PacketType_String BinaryEvent = ''binary_event''"
| "PacketType_String BinaryAck = ''binary_ack''"

definition defaultNamespace :: string where
  "defaultNamespace = ''/''"

text \<open>\<^verbatim>\<open>Packet\<close>; a negative \<open>sp_ID\<close> is a packet without acknowledgement id.\<close>

record sio_packet =
  sp_Type :: PacketType
  sp_Nsp :: string
  sp_ID :: int
  sp_Data :: val
  sp_Attachments :: int

definition is_binary_type :: "PacketType \<Rightarrow> bool" where
  "is_binary_type t \<longleftrightarrow> t = BinaryEvent \<or> t = BinaryAck"

section \<open>Text form\<close>

definition Encode :: "sio_packet \<Rightarrow> bytes" where
  "Encode p =
     [packet_type_byte (sp_Type p)]
     @ (if is_binary_type (sp_Type p) then itoa (sp_Attachments p) @ ''-'' else [])
     @ (if sp_Nsp p \<noteq> [] \<and> sp_Nsp p \<noteq> defaultNamespace then sp_Nsp p @ '','' else [])
     @ (if 0 \<le> sp_ID p then itoa (sp_ID p) else [])
     @ (if sp_Data p \<noteq> VNil then marshal (sp_Data p) else [])"

definition reservedEvents :: "string list" where
  "reservedEvents =
     [''connect'', ''connect_error'', ''disconnect'', ''disconnecting'', ''newListener'',
      ''removeListener'']"

definition isReservedEvent :: "string \<Rightarrow> bool" where
  "isReservedEvent name \<longleftrightarrow> name \<in> set reservedEvents"

text \<open>\<^verbatim>\<open>validatePayload\<close>; \<open>None\<close> is the nil error.\<close>

definition validatePayload :: "PacketType \<Rightarrow> val \<Rightarrow> go_error option" where
  "validatePayload t data =
     (case t of
        Connect \<Rightarrow>
          (case data of
             VNil \<Rightarrow> None | VObj _ \<Rightarrow> None
           | _ \<Rightarrow> Some (ErrorsNew ''socketio: invalid connect payload''))
      | Disconnect \<Rightarrow>
          (if data \<noteq> VNil then Some (ErrorsNew ''socketio: invalid disconnect payload'') else None)
      | ConnectError \<Rightarrow>
          (case data of
             VNil \<Rightarrow> None | VStr _ \<Rightarrow> None | VObj _ \<Rightarrow> None
           | _ \<Rightarrow> Some (ErrorsNew ''socketio: invalid connect_error payload''))
      | _ \<Rightarrow>
          if t = Event \<or> t = BinaryEvent then
            (case data of
               VArr (first # _) \<Rightarrow>
                 (case first of
                    VNum _ \<Rightarrow> None
                  | VStr name \<Rightarrow>
                      if isReservedEvent name
                      then Some (ErrorsNew ''socketio: reserved event name'') else None
                  | _ \<Rightarrow> Some (ErrorsNew ''socketio: invalid event name''))
             | _ \<Rightarrow> Some (ErrorsNew ''socketio: invalid event payload''))
          else
            (case data of
               VArr _ \<Rightarrow> None
             | _ \<Rightarrow> Some (ErrorsNew ''socketio: invalid ack payload'')))"

text \<open>
  The three scans of \<^verbatim>\<open>Decode\<close> over what follows the type byte. Where the source moves
  an index, the model passes the bytes behind it.
\<close>

definition decode_attachments :: "bytes \<Rightarrow> go_error + int \<times> bytes" where
  "decode_attachments s =
     (case dropWhile (\<lambda>c. c \<noteq> CHR ''-'') s of
        [] \<Rightarrow> Inl (ErrorsNew ''socketio: illegal attachments'')
      | _ # rest \<Rightarrow>
          (case atoi (takeWhile (\<lambda>c. c \<noteq> CHR ''-'') s) of
             None \<Rightarrow> Inl (ErrorsNew ''socketio: illegal attachments'')
           | Some n \<Rightarrow>
               if n < 0 then Inl (ErrorsNew ''socketio: illegal attachments'') else Inr (n, rest)))"

definition decode_nsp :: "bytes \<Rightarrow> string \<times> bytes" where
  "decode_nsp s =
     (if s \<noteq> [] \<and> hd s = CHR ''/''
      then (takeWhile (\<lambda>c. c \<noteq> CHR '','') s, tl (dropWhile (\<lambda>c. c \<noteq> CHR '','') s))
      else (defaultNamespace, s))"

definition decode_id :: "bytes \<Rightarrow> int \<times> bytes" where
  "decode_id s =
     (if s \<noteq> [] \<and> isDigit (hd s)
      then (parse_int64_digits (takeWhile isDigit s), dropWhile isDigit s)
      else (-1, s))"

text \<open>The quoted byte in the text of the unknown-type error is left out.\<close>

definition Decode :: "bytes \<Rightarrow> go_error + sio_packet" where
  "Decode data =
     (case data of
        [] \<Rightarrow> Inl (ErrorsNew ''socketio: empty packet'')
      | c # rest \<Rightarrow>
          (case packet_type_of_byte c of
             None \<Rightarrow> Inl (ErrorsNew ''socketio: unknown packet type'')
           | Some t \<Rightarrow>
               (case (if is_binary_type t then decode_attachments rest else Inr (0, rest)) of
                  Inl err \<Rightarrow> Inl err
                | Inr (n, s1) \<Rightarrow>
                    (let (nsp, s2) = decode_nsp s1;
                         (i, s3) = decode_id s2;
                         p = \<lparr>sp_Type = t, sp_Nsp = nsp, sp_ID = i, sp_Data = VNil, sp_Attachments = n\<rparr>
                     in if s3 = [] then Inr p
                        else
                          (case unmarshal s3 of
                             None \<Rightarrow> Inl (ErrorfP ''socketio: invalid payload'' JsonError)
                           | Some d \<Rightarrow>
                               (case validatePayload t d of
                                  Some err \<Rightarrow> Inl err
                                | None \<Rightarrow> Inr (p\<lparr>sp_Data := d\<rparr>)))))))"

section \<open>Binary values\<close>

fun hasBinary :: "val \<Rightarrow> bool" where
  "hasBinary (VBytes _) \<longleftrightarrow> True"
| "hasBinary (VReader _) \<longleftrightarrow> True"
| "hasBinary (VArr vs) \<longleftrightarrow> (\<exists>e\<in>set vs. hasBinary e)"
| "hasBinary (VObj ms) \<longleftrightarrow> (\<exists>(k, e)\<in>set ms. hasBinary e)"
| "hasBinary _ \<longleftrightarrow> False"

text \<open>\<^verbatim>\<open>readAll\<close>: reading leaves a reader at EOF.\<close>

definition readAll :: "reader \<Rightarrow> readers \<Rightarrow> (go_error + bytes) \<times> readers" where
  "readAll r h =
     (case r of
        NilReader \<Rightarrow> (Inr [], h)
      | Reader a \<Rightarrow>
          (case h a of
             Inl err \<Rightarrow> (Inl err, h)
           | Inr b \<Rightarrow> (Inr b, h(a := Inr []))))"

text \<open>
  \<^verbatim>\<open>deconstruct\<close> with its two loops; the state is the buffer list it appends to and the
  readers it drains.
\<close>

fun deconstruct :: "val \<Rightarrow> bytes list \<times> readers \<Rightarrow> (go_error + val) \<times> bytes list \<times> readers"
  and deconstruct_arr ::
    "val list \<Rightarrow> bytes list \<times> readers \<Rightarrow> (go_error + val list) \<times> bytes list \<times> readers"
  and deconstruct_obj ::
    "(string \<times> val) list \<Rightarrow> bytes list \<times> readers
     \<Rightarrow> (go_error + (string \<times> val) list) \<times> bytes list \<times> readers"
where
  "deconstruct (VBytes b) (bufs, h) = (Inr (VPlaceholder (length bufs)), bufs @ [b], h)"
| "deconstruct (VReader r) (bufs, h) =
     (case readAll r h of
        (Inl err, h') \<Rightarrow> (Inl (ErrorfP ''socketio: reading binary payload'' err), bufs, h')
      | (Inr b, h') \<Rightarrow> (Inr (VPlaceholder (length bufs)), bufs @ [b], h'))"
| "deconstruct (VArr vs) st =
     (case deconstruct_arr vs st of
        (Inl err, st') \<Rightarrow> (Inl err, st')
      | (Inr out, st') \<Rightarrow> (Inr (VArr out), st'))"
| "deconstruct (VObj ms) st =
     (case deconstruct_obj ms st of
        (Inl err, st') \<Rightarrow> (Inl err, st')
      | (Inr out, st') \<Rightarrow> (Inr (VObj out), st'))"
| "deconstruct v st = (Inr v, st)"
| "deconstruct_arr [] st = (Inr [], st)"
| "deconstruct_arr (e # es) st =
     (case deconstruct e st of
        (Inl err, st') \<Rightarrow> (Inl err, st')
      | (Inr d, st') \<Rightarrow>
          (case deconstruct_arr es st' of
             (Inl err, st'') \<Rightarrow> (Inl err, st'')
           | (Inr ds, st'') \<Rightarrow> (Inr (d # ds), st'')))"
| "deconstruct_obj [] st = (Inr [], st)"
| "deconstruct_obj ((k, e) # ms) st =
     (case deconstruct e st of
        (Inl err, st') \<Rightarrow> (Inl err, st')
      | (Inr d, st') \<Rightarrow>
          (case deconstruct_obj ms st' of
             (Inl err, st'') \<Rightarrow> (Inl err, st'')
           | (Inr ds, st'') \<Rightarrow> (Inr ((k, d) # ds), st'')))"

fun reconstruct :: "val \<Rightarrow> bytes list \<Rightarrow> val" where
  "reconstruct (VObj ms) bufs =
     (if obj_get ms ''_placeholder'' = Some (VBool True) then
        (case obj_get ms ''num'' of
           Some (VNum num) \<Rightarrow>
             (let idx = dec_trunc num
              in if 0 \<le> idx \<and> idx < int (length bufs) then VBytes (bufs ! nat idx) else VNil)
         | _ \<Rightarrow> VNil)
      else VObj (map (\<lambda>(k, e). (k, reconstruct e bufs)) ms))"
| "reconstruct (VArr vs) bufs = VArr (map (\<lambda>e. reconstruct e bufs) vs)"
| "reconstruct v bufs = v"

section \<open>Delimiting the fields of a packet\<close>

text \<open>
  The scans stop where the encoder stopped writing, because of what the JSON text that
  follows starts with. These facts need the JSON contract only.
\<close>

definition wf_nsp :: "string \<Rightarrow> bool" where
  "wf_nsp nsp \<longleftrightarrow> (\<exists>r. nsp = CHR ''/'' # r) \<and> CHR '','' \<notin> set nsp"

context json_codec
begin

lemma enc_hd:
  assumes "payload_like v"
  shows "enc v \<noteq> []" "\<not> isDigit (hd (enc v))" "hd (enc v) \<noteq> CHR ''/''"
  using enc_start [OF assms] by (auto simp: isDigit_def)

lemma decode_id_enc:
  assumes "payload_like v" and "-1 \<le> i" and "i \<le> max_int64"
  shows "decode_id ((if 0 \<le> i then itoa i else []) @ enc v) = (i, enc v)"
proof (cases "0 \<le> i")
  case True
  then obtain n where n: "i = int n"
    using nonneg_int_cases by blast
  have "isDigit (hd (itoa_nat n @ enc v))"
    by simp
  moreover have "takeWhile isDigit (itoa_nat n @ enc v) = itoa_nat n"
    "dropWhile isDigit (itoa_nat n @ enc v) = enc v"
    using enc_hd [OF assms(1)] itoa_nat_digits [of n]
    by (cases "enc v"; simp)+
  ultimately show ?thesis
    using n assms(3) by (simp add: decode_id_def parse_int64_digits_def)
next
  case False
  with assms show ?thesis
    using enc_hd [OF assms(1)] by (simp add: decode_id_def)
qed

end

lemma decode_id_end:
  assumes "-1 \<le> i" and "i \<le> max_int64"
  shows "decode_id (if 0 \<le> i then itoa i else []) = (i, [])"
proof (cases "0 \<le> i")
  case True
  then obtain n where n: "i = int n"
    using nonneg_int_cases by blast
  have scan: "takeWhile isDigit (itoa_nat n) = itoa_nat n" "dropWhile isDigit (itoa_nat n) = []"
    using itoa_nat_digits [of n] by (simp_all add: list_all_iff takeWhile_eq_all_conv)
  show ?thesis
    using n assms(2) by (simp add: decode_id_def parse_int64_digits_def scan)
next
  case False
  with assms show ?thesis
    by (simp add: decode_id_def)
qed

lemma decode_nsp_enc:
  assumes "wf_nsp nsp" and "s = [] \<or> hd s \<noteq> CHR ''/''"
  shows "decode_nsp ((if nsp \<noteq> [] \<and> nsp \<noteq> defaultNamespace then nsp @ '','' else []) @ s) = (nsp, s)"
proof (cases "nsp = defaultNamespace")
  case True
  with assms(2) show ?thesis
    by (auto simp: decode_nsp_def)
next
  case False
  obtain r where r: "nsp = CHR ''/'' # r" "CHR '','' \<notin> set nsp"
    using assms(1) by (auto simp: wf_nsp_def)
  have "takeWhile (\<lambda>c. c \<noteq> CHR '','') (nsp @ CHR '','' # s) = nsp"
    "dropWhile (\<lambda>c. c \<noteq> CHR '','') (nsp @ CHR '','' # s) = CHR '','' # s"
    using r(2) by (rule takeWhile_until dropWhile_until)+
  moreover have "nsp \<noteq> []" "hd (nsp @ CHR '','' # s) = CHR ''/''"
    using r(1) by simp_all
  ultimately show ?thesis
    using False by (simp add: decode_nsp_def)
qed

lemma decode_attachments_enc:
  assumes "0 \<le> n" and "n \<le> max_int64"
  shows "decode_attachments (itoa n @ CHR ''-'' # s) = Inr (n, s)"
proof -
  obtain k where k: "n = int k"
    using assms(1) nonneg_int_cases by blast
  have nd: "CHR ''-'' \<notin> set (itoa_nat k)"
    using itoa_nat_digits [of k] not_isDigit_sign(1) by (auto simp: list_all_iff)
  have "takeWhile (\<lambda>c. c \<noteq> CHR ''-'') (itoa_nat k @ CHR ''-'' # s) = itoa_nat k"
    "dropWhile (\<lambda>c. c \<noteq> CHR ''-'') (itoa_nat k @ CHR ''-'' # s) = CHR ''-'' # s"
    using nd by (rule takeWhile_until dropWhile_until)+
  then show ?thesis
    using k assms(2) atoi_itoa_nat [of k] by (simp add: decode_attachments_def)
qed

lemma packet_type_of_byte_inverse [simp]: "packet_type_of_byte (packet_type_byte t) = Some t"
  by (cases t) (simp_all add: packet_type_of_byte_def)

lemma packet_type_byte_inverse:
  "packet_type_of_byte c = Some t \<Longrightarrow> packet_type_byte t = c"
  by (auto simp: packet_type_of_byte_def split: if_splits)

section \<open>Round trip of the text form\<close>

text \<open>
  The packets the encoder can represent: a namespace that starts with a slash and has no
  comma, an id and an attachment count in range, and a payload that passes the decoder's
  checks.
\<close>

definition wf_sio :: "sio_packet \<Rightarrow> bool" where
  "wf_sio p \<longleftrightarrow>
     wf_nsp (sp_Nsp p)
     \<and> -1 \<le> sp_ID p \<and> sp_ID p \<le> max_int64
     \<and> 0 \<le> sp_Attachments p \<and> sp_Attachments p \<le> max_int64
     \<and> (is_binary_type (sp_Type p) \<or> sp_Attachments p = 0)
     \<and> (sp_Data p = VNil
        \<or> payload_like (sp_Data p) \<and> wf_val (sp_Data p)
           \<and> validatePayload (sp_Type p) (json_form (sp_Data p)) = None)"

lemma decode_tail:
  fixes p :: sio_packet
  assumes "wf_sio p"
  defines "tail \<equiv> (if 0 \<le> sp_ID p then itoa (sp_ID p) else [])
     @ (if sp_Data p \<noteq> VNil then marshal (sp_Data p) else [])"
  shows "decode_id tail = (sp_ID p, if sp_Data p \<noteq> VNil then marshal (sp_Data p) else [])"
    and "tail = [] \<or> hd tail \<noteq> CHR ''/''"
proof -
  show "decode_id tail = (sp_ID p, if sp_Data p \<noteq> VNil then marshal (sp_Data p) else [])"
    using assms(1) decode_id_end [of "sp_ID p"] json.decode_id_enc [of "sp_Data p" "sp_ID p"]
    unfolding tail_def wf_sio_def by (cases "sp_Data p = VNil") auto
  have "hd (itoa_nat (nat (sp_ID p))) \<noteq> CHR ''/''"
    using isDigit_hd_itoa_nat [of "nat (sp_ID p)"] not_isDigit_sign(3) by metis
  then show "tail = [] \<or> hd tail \<noteq> CHR ''/''"
    using assms(1) json.enc_hd(3) [of "sp_Data p"] unfolding tail_def wf_sio_def
    by (auto simp: hd_append itoa_def)
qed

lemma Decode_Encode:
  assumes "wf_sio p"
  shows "Decode (Encode p) = Inr (p\<lparr>sp_Data := json_form (sp_Data p)\<rparr>)"
proof -
  define j where "j = (if sp_Data p \<noteq> VNil then marshal (sp_Data p) else [])"
  define s2 where "s2 = (if 0 \<le> sp_ID p then itoa (sp_ID p) else []) @ j"
  define s1 where "s1 = (if sp_Nsp p \<noteq> [] \<and> sp_Nsp p \<noteq> defaultNamespace
      then sp_Nsp p @ '','' else []) @ s2"
  define rest where "rest = (if is_binary_type (sp_Type p) then itoa (sp_Attachments p) @ ''-'' else []) @ s1"
  have enc: "Encode p = packet_type_byte (sp_Type p) # rest"
    by (simp add: Encode_def rest_def s1_def s2_def j_def)
  have id: "decode_id s2 = (sp_ID p, j)" and hd2: "s2 = [] \<or> hd s2 \<noteq> CHR ''/''"
    using decode_tail [OF assms] by (simp_all only: s2_def j_def)
  have nsp: "decode_nsp s1 = (sp_Nsp p, s2)"
    unfolding s1_def using assms hd2 by (intro decode_nsp_enc) (simp_all add: wf_sio_def)
  have att: "(if is_binary_type (sp_Type p) then decode_attachments rest else Inr (0, rest))
      = Inr (sp_Attachments p, s1)"
    using assms decode_attachments_enc [of "sp_Attachments p" s1] by (auto simp: rest_def wf_sio_def)
  show ?thesis
  proof (cases "sp_Data p = VNil")
    case True
    then show ?thesis
      by (simp add: Decode_def enc att nsp id j_def)
  next
    case False
    then have d: "payload_like (sp_Data p)" "wf_val (sp_Data p)"
      "validatePayload (sp_Type p) (json_form (sp_Data p)) = None"
      using assms by (auto simp: wf_sio_def)
    then have "j \<noteq> []" "unmarshal j = Some (json_form (sp_Data p))"
      using False json.enc_hd(1) json.dec_enc by (simp_all add: j_def)
    then show ?thesis
      using d(3) by (simp add: Decode_def enc att nsp id)
  qed
qed

section \<open>Taking binary values apart and putting them back\<close>

fun reader_addrs :: "val \<Rightarrow> nat list" where
  "reader_addrs (VReader r) = (case r of NilReader \<Rightarrow> [] | Reader a \<Rightarrow> [a])"
| "reader_addrs (VArr vs) = concat (map reader_addrs vs)"
| "reader_addrs (VObj ms) = concat (map (\<lambda>(k, e). reader_addrs e) ms)"
| "reader_addrs _ = []"

text \<open>
  What the receiver should see: every reader replaced by its contents, map members in key
  order (a map has no order, the decoded one is listed by key).
\<close>

fun received :: "readers \<Rightarrow> val \<Rightarrow> val" where
  "received h (VReader r) =
     VBytes (case r of NilReader \<Rightarrow> [] | Reader a \<Rightarrow> (case h a of Inl _ \<Rightarrow> [] | Inr b \<Rightarrow> b))"
| "received h (VArr vs) = VArr (map (received h) vs)"
| "received h (VObj ms) = VObj (sort_key fst (map (\<lambda>(k, e). (k, received h e)) ms))"
| "received h v = v"

text \<open>No map of the value carries the marker that the receiver takes for a placeholder.\<close>

fun no_marker :: "val \<Rightarrow> bool" where
  "no_marker (VArr vs) \<longleftrightarrow> (\<forall>e\<in>set vs. no_marker e)"
| "no_marker (VObj ms) \<longleftrightarrow>
     obj_get ms ''_placeholder'' \<noteq> Some (VBool True) \<and> (\<forall>(k, e)\<in>set ms. no_marker e)"
| "no_marker (VPlaceholder _) \<longleftrightarrow> False"
| "no_marker _ \<longleftrightarrow> True"

definition readable :: "readers \<Rightarrow> val \<Rightarrow> bool" where
  "readable h v \<longleftrightarrow> (\<forall>a\<in>set (reader_addrs v). \<not> isl (h a))"

lemma readable_simps [simp]:
  "readable h (VArr vs) \<longleftrightarrow> (\<forall>e\<in>set vs. readable h e)"
  "readable h (VObj ms) \<longleftrightarrow> (\<forall>(k, e)\<in>set ms. readable h e)"
  by (auto simp: readable_def)

lemma readable_cong:
  "(\<And>a. a \<in> set (reader_addrs v) \<Longrightarrow> h' a = h a) \<Longrightarrow> readable h' v = readable h v"
  by (auto simp: readable_def)

lemma received_cong:
  "(\<And>a. a \<in> set (reader_addrs v) \<Longrightarrow> h' a = h a) \<Longrightarrow> received h' v = received h v"
proof (induction v)
  case (VReader r)
  then show ?case by (cases r) auto
next
  case (VArr vs)
  have "received h' e = received h e" if "e \<in> set vs" for e
    using VArr.IH [OF that] VArr.prems that by auto
  then show ?case by simp
next
  case (VObj ms)
  have "received h' e = received h e" if "(k, e) \<in> set ms" for k e
    using VObj.IH [of "(k, e)" e] VObj.prems that by force
  then show ?case
    by (auto intro!: arg_cong [where f = "sort_key fst"])
qed simp_all

text \<open>One walk succeeded: it appended buffers, and putting them back gives the value.\<close>

definition splits :: "bytes list \<Rightarrow> readers \<Rightarrow> val \<Rightarrow> bool" where
  "splits bufs h v \<longleftrightarrow>
     (\<exists>d new h'. deconstruct v (bufs, h) = (Inr d, bufs @ new, h')
        \<and> (\<forall>tail. reconstruct (json_form d) (bufs @ new @ tail) = received h v)
        \<and> (\<forall>b. json_form d = VBool b \<longrightarrow> v = VBool b)
        \<and> (\<forall>a. a \<notin> set (reader_addrs v) \<longrightarrow> h' a = h a))"

lemma splits_arr:
  assumes "\<And>e bufs h. e \<in> set vs \<Longrightarrow> distinct (reader_addrs e) \<Longrightarrow> readable h e \<Longrightarrow> splits bufs h e"
    and "distinct (concat (map reader_addrs vs))" and "\<forall>e\<in>set vs. readable h e"
  shows "\<exists>ds new h'. deconstruct_arr vs (bufs, h) = (Inr ds, bufs @ new, h')
    \<and> (\<forall>tail. map (\<lambda>d. reconstruct (json_form d) (bufs @ new @ tail)) ds = map (received h) vs)
    \<and> (\<forall>a. a \<notin> set (concat (map reader_addrs vs)) \<longrightarrow> h' a = h a)"
  using assms
proof (induction vs arbitrary: bufs h)
  case Nil
  then show ?case by simp
next
  case (Cons e es)
  have "splits bufs h e"
    using Cons.prems by auto
  then obtain d new h' where e: "deconstruct e (bufs, h) = (Inr d, bufs @ new, h')"
    "\<And>tail. reconstruct (json_form d) (bufs @ new @ tail) = received h e"
    "\<And>a. a \<notin> set (reader_addrs e) \<Longrightarrow> h' a = h a"
    unfolding splits_def by blast
  have same: "h' a = h a" if "x \<in> set es" "a \<in> set (reader_addrs x)" for x a
    using e(3) Cons.prems(2) that by auto
  have "\<forall>x\<in>set es. readable h' x"
    using Cons.prems(3) same by (auto cong: readable_cong simp: readable_def)
  with Cons.IH [of h' "bufs @ new"] Cons.prems obtain ds new' h'' where
    es: "deconstruct_arr es (bufs @ new, h') = (Inr ds, (bufs @ new) @ new', h'')"
    "\<And>tail. map (\<lambda>d. reconstruct (json_form d) ((bufs @ new) @ new' @ tail)) ds = map (received h') es"
    "\<And>a. a \<notin> set (concat (map reader_addrs es)) \<Longrightarrow> h'' a = h' a"
    by auto
  have "map (received h') es = map (received h) es"
    using same by (auto intro: received_cong)
  then show ?case
    using e es by (intro exI [of _ "d # ds"] exI [of _ "new @ new'"] exI [of _ h'']) auto
qed

lemma splits_obj:
  assumes "\<And>k e bufs h. (k, e) \<in> set ms \<Longrightarrow> distinct (reader_addrs e) \<Longrightarrow> readable h e \<Longrightarrow> splits bufs h e"
    and "distinct (concat (map (\<lambda>(k, e). reader_addrs e) ms))" and "\<forall>(k, e)\<in>set ms. readable h e"
  shows "\<exists>ds new h'. deconstruct_obj ms (bufs, h) = (Inr ds, bufs @ new, h')
    \<and> (\<forall>tail. map (\<lambda>(k, d). (k, reconstruct (json_form d) (bufs @ new @ tail))) ds
         = map (\<lambda>(k, e). (k, received h e)) ms)
    \<and> (\<forall>k b. map_of (map (\<lambda>(k, d). (k, json_form d)) ds) k = Some (VBool b) \<longrightarrow> map_of ms k = Some (VBool b))
    \<and> (\<forall>a. a \<notin> set (concat (map (\<lambda>(k, e). reader_addrs e) ms)) \<longrightarrow> h' a = h a)"
  using assms
proof (induction ms arbitrary: bufs h)
  case Nil
  then show ?case by simp
next
  case (Cons m ms)
  obtain k e where m: "m = (k, e)" by (cases m)
  have "splits bufs h e"
    using Cons.prems m by auto
  then obtain d new h' where e: "deconstruct e (bufs, h) = (Inr d, bufs @ new, h')"
    "\<And>tail. reconstruct (json_form d) (bufs @ new @ tail) = received h e"
    "\<And>b. json_form d = VBool b \<Longrightarrow> e = VBool b"
    "\<And>a. a \<notin> set (reader_addrs e) \<Longrightarrow> h' a = h a"
    unfolding splits_def by blast
  have same: "h' a = h a" if "(j, x) \<in> set ms" "a \<in> set (reader_addrs x)" for j x a
    using e(4) Cons.prems(2) that m by fastforce
  have "\<forall>(j, x)\<in>set ms. readable h' x"
    using Cons.prems(3) same by (fastforce simp: readable_def)
  moreover have "splits bufs h x" if "(j, x) \<in> set ms" "distinct (reader_addrs x)" "readable h x"
    for j x bufs h
    using Cons.prems(1) [of j x] that by simp
  moreover have "distinct (concat (map (\<lambda>(k, e). reader_addrs e) ms))"
    using Cons.prems(2) by simp
  ultimately obtain ds new' h'' where
    ms: "deconstruct_obj ms (bufs @ new, h') = (Inr ds, (bufs @ new) @ new', h'')"
    "\<And>tail. map (\<lambda>(k, d). (k, reconstruct (json_form d) ((bufs @ new) @ new' @ tail))) ds
       = map (\<lambda>(k, e). (k, received h' e)) ms"
    "\<And>j b. map_of (map (\<lambda>(k, d). (k, json_form d)) ds) j = Some (VBool b) \<Longrightarrow> map_of ms j = Some (VBool b)"
    "\<And>a. a \<notin> set (concat (map (\<lambda>(k, e). reader_addrs e) ms)) \<Longrightarrow> h'' a = h' a"
    using Cons.IH [of h' "bufs @ new"] by blast
  have "map (\<lambda>(k, e). (k, received h' e)) ms = map (\<lambda>(k, e). (k, received h e)) ms"
    using same by (auto intro: received_cong)
  then show ?case
    using e ms m by (intro exI [of _ "(k, d) # ds"] exI [of _ "new @ new'"] exI [of _ h'']) auto
qed

lemma reconstruct_placeholder_obj:
  "n < length bufs \<Longrightarrow> reconstruct (placeholder_obj n) bufs = VBytes (bufs ! n)"
  by (simp add: placeholder_obj_def)

lemma reconstruct_unmarked:
  assumes "distinct (map fst ms)" and "obj_get ms ''_placeholder'' \<noteq> Some (VBool True)"
  shows "reconstruct (VObj (sort_key fst ms)) bufs
    = VObj (sort_key fst (map (\<lambda>(k, e). (k, reconstruct e bufs)) ms))"
  using assms map_of_sort_fst [OF assms(1)] by (simp add: sort_fst_map_snd)

lemma splits_all:
  "distinct (reader_addrs v) \<Longrightarrow> readable h v \<Longrightarrow> no_marker v \<Longrightarrow> wf_val v \<Longrightarrow> splits bufs h v"
proof (induction v arbitrary: bufs h)
  case (VBytes b)
  show ?case by (simp add: splits_def reconstruct_placeholder_obj placeholder_obj_def)
next
  case (VReader r)
  show ?case
  proof (cases r)
    case NilReader
    then show ?thesis
      by (simp add: splits_def readAll_def reconstruct_placeholder_obj placeholder_obj_def)
  next
    case (Reader a)
    then obtain b where "h a = Inr b"
      using VReader.prems(2) by (cases "h a") (auto simp: readable_def)
    then show ?thesis
      using Reader by (simp add: splits_def readAll_def reconstruct_placeholder_obj placeholder_obj_def)
  qed
next
  case (VArr vs)
  from splits_arr [of vs h bufs] VArr
  obtain ds new h' where "deconstruct_arr vs (bufs, h) = (Inr ds, bufs @ new, h')"
    "\<And>tail. map (\<lambda>d. reconstruct (json_form d) (bufs @ new @ tail)) ds = map (received h) vs"
    "\<And>a. a \<notin> set (concat (map reader_addrs vs)) \<Longrightarrow> h' a = h a"
    by auto
  then show ?case
    by (simp add: splits_def comp_def)
next
  case (VObj ms)
  have "splits bufs h e" if "(k, e) \<in> set ms" "distinct (reader_addrs e)" "readable h e" for k e bufs h
    using VObj.IH [of "(k, e)" e h bufs] VObj.prems(3,4) that by auto
  moreover have "distinct (concat (map (\<lambda>(k, e). reader_addrs e) ms))" "\<forall>(k, e)\<in>set ms. readable h e"
    using VObj.prems(1,2) by simp_all
  ultimately obtain ds new h' where d: "deconstruct_obj ms (bufs, h) = (Inr ds, bufs @ new, h')"
    "\<And>tail. map (\<lambda>(k, d). (k, reconstruct (json_form d) (bufs @ new @ tail))) ds
       = map (\<lambda>(k, e). (k, received h e)) ms"
    "\<And>j b. map_of (map (\<lambda>(k, d). (k, json_form d)) ds) j = Some (VBool b) \<Longrightarrow> map_of ms j = Some (VBool b)"
    "\<And>a. a \<notin> set (concat (map (\<lambda>(k, e). reader_addrs e) ms)) \<Longrightarrow> h' a = h a"
    using splits_obj [of ms h bufs] by blast
  have "map fst (map (\<lambda>(k, d). (k, reconstruct (json_form d) (bufs @ new))) ds)
      = map fst (map (\<lambda>(k, e). (k, received h e)) ms)"
    using d(2) [of "[]"] by simp
  then have fst: "map fst (map (\<lambda>(k, d). (k, json_form d)) ds) = map fst ms"
    by (simp add: comp_def case_prod_beta)
  have "reconstruct (json_form (VObj ds)) (bufs @ new @ tail) = received h (VObj ms)" for tail
  proof -
    let ?js = "map (\<lambda>(k, d). (k, json_form d)) ds"
    have "distinct (map fst ?js)" "obj_get ?js ''_placeholder'' \<noteq> Some (VBool True)"
      using fst d(3) [of "''_placeholder''" True] VObj.prems(3,4) by (auto simp only: wf_val.simps no_marker.simps)
    from reconstruct_unmarked [OF this, of "bufs @ new @ tail"]
    have "reconstruct (json_form (VObj ds)) (bufs @ new @ tail)
        = VObj (sort_key fst (map (\<lambda>(k, e). (k, reconstruct e (bufs @ new @ tail))) ?js))"
      by (simp only: json_form.simps)
    moreover have "map (\<lambda>(k, e). (k, reconstruct e (bufs @ new @ tail))) ?js
        = map (\<lambda>(k, d). (k, reconstruct (json_form d) (bufs @ new @ tail))) ds"
      by auto
    ultimately show ?thesis
      by (simp only: d(2) received.simps)
  qed
  then show ?case
    using d by (simp add: splits_def)
qed (simp_all add: splits_def)


lemma deconstruct_no_binary:
  "deconstruct v st = (Inr d, st') \<Longrightarrow> \<not> hasBinary d"
  "deconstruct_arr vs st = (Inr ds, st') \<Longrightarrow> \<not> hasBinary (VArr ds)"
  "deconstruct_obj ms st = (Inr os, st') \<Longrightarrow> \<not> hasBinary (VObj os)"
  by (induction v st and vs st and ms st arbitrary: d st' and ds st' and os st'
      rule: deconstruct_deconstruct_arr_deconstruct_obj.induct)
    (fastforce split: prod.splits sum.splits)+

lemma deconstruct_plain:
  "\<not> hasBinary v \<Longrightarrow> deconstruct v st = (Inr v, st)"
  "\<not> hasBinary (VArr vs) \<Longrightarrow> deconstruct_arr vs st = (Inr vs, st)"
  "\<not> hasBinary (VObj ms) \<Longrightarrow> deconstruct_obj ms st = (Inr ms, st)"
  by (induction v st and vs st and ms st
      rule: deconstruct_deconstruct_arr_deconstruct_obj.induct)
    auto

lemma deconstruct_appends:
  "deconstruct v st = (r, st') \<Longrightarrow> \<exists>new. fst st' = fst st @ new"
  "deconstruct_arr vs st = (rs, st') \<Longrightarrow> \<exists>new. fst st' = fst st @ new"
  "deconstruct_obj ms st = (os, st') \<Longrightarrow> \<exists>new. fst st' = fst st @ new"
  by (induction v st and vs st and ms st arbitrary: r st' and rs st' and os st'
      rule: deconstruct_deconstruct_arr_deconstruct_obj.induct)
    (fastforce split: prod.splits sum.splits)+

lemma deconstruct_obj_keys:
  "deconstruct_obj ms st = (Inr os, st') \<Longrightarrow> map fst os = map fst ms"
  by (induction ms arbitrary: st os st') (auto split: prod.splits sum.splits)

lemma deconstruct_wf:
  "deconstruct v st = (Inr d, st') \<Longrightarrow> wf_val v \<Longrightarrow> wf_val d"
  "deconstruct_arr vs st = (Inr ds, st') \<Longrightarrow> \<forall>v\<in>set vs. wf_val v \<Longrightarrow> \<forall>v\<in>set ds. wf_val v"
  "deconstruct_obj ms st = (Inr os, st') \<Longrightarrow> \<forall>(k, v)\<in>set ms. valid_utf8 k \<and> wf_val v
     \<Longrightarrow> \<forall>(k, v)\<in>set os. valid_utf8 k \<and> wf_val v"
  by (induction v st and vs st and ms st arbitrary: d st' and ds st' and os st'
      rule: deconstruct_deconstruct_arr_deconstruct_obj.induct)
    (fastforce split: prod.splits sum.splits dest: deconstruct_obj_keys)+

lemma deconstruct_mono:
  "deconstruct v st = (r, st') \<Longrightarrow> length (fst st) \<le> length (fst st')"
  "deconstruct_arr vs st = (rs, st') \<Longrightarrow> length (fst st) \<le> length (fst st')"
  "deconstruct_obj ms st = (os, st') \<Longrightarrow> length (fst st) \<le> length (fst st')"
  using deconstruct_appends by (metis length_append le_add1)+

lemma deconstruct_count:
  "deconstruct v st = (Inr d, st') \<Longrightarrow> hasBinary v \<Longrightarrow> length (fst st) < length (fst st')"
  "deconstruct_arr vs st = (Inr ds, st') \<Longrightarrow> \<exists>e\<in>set vs. hasBinary e \<Longrightarrow> length (fst st) < length (fst st')"
  "deconstruct_obj ms st = (Inr os, st') \<Longrightarrow> \<exists>m\<in>set ms. hasBinary (snd m) \<Longrightarrow> length (fst st) < length (fst st')"
  by (induction v st and vs st and ms st arbitrary: d st' and ds st' and os st'
      rule: deconstruct_deconstruct_arr_deconstruct_obj.induct)
    (fastforce split: prod.splits sum.splits dest: deconstruct_mono)+


text \<open>Draining a reader never makes it fail, and a failing reader stays as it is.\<close>

definition same_failures :: "readers \<Rightarrow> readers \<Rightarrow> bool" where
  "same_failures h h' \<longleftrightarrow> (\<forall>a. isl (h a) = isl (h' a) \<and> (isl (h a) \<longrightarrow> h' a = h a))"

lemma same_failures_refl [simp]: "same_failures h h"
  by (simp add: same_failures_def)

lemma same_failures_trans: "same_failures h h' \<Longrightarrow> same_failures h' h'' \<Longrightarrow> same_failures h h''"
  unfolding same_failures_def by metis

lemma same_failures_Inl: "same_failures h h' \<Longrightarrow> h' a = Inl e \<Longrightarrow> h a = Inl e"
  unfolding same_failures_def by (metis sum.disc(1))

lemma readAll_same_failures: "readAll r h = (x, h') \<Longrightarrow> same_failures h h'"
proof (cases r)
  case (Reader a)
  assume "readAll r h = (x, h')"
  then have "h' = (case h a of Inl _ \<Rightarrow> h | Inr _ \<Rightarrow> h(a := Inr []))"
    using Reader by (auto simp: readAll_def split: sum.splits)
  then show ?thesis
    by (cases "h a") (simp_all add: same_failures_def)
qed (simp add: readAll_def)

lemma deconstruct_same_failures:
  "deconstruct v st = (r, st') \<Longrightarrow> same_failures (snd st) (snd st')"
  "deconstruct_arr vs st = (rs, st') \<Longrightarrow> same_failures (snd st) (snd st')"
  "deconstruct_obj ms st = (os, st') \<Longrightarrow> same_failures (snd st) (snd st')"
proof (induction v st and vs st and ms st arbitrary: r st' and rs st' and os st'
      rule: deconstruct_deconstruct_arr_deconstruct_obj.induct)
  case (2 x bufs h)
  obtain y h' where y: "readAll x h = (y, h')"
    by (metis prod.exhaust)
  then show ?case
    using 2 readAll_same_failures [OF y] by (cases y) auto
next
  case (7 e es st)
  obtain x st1 where e: "deconstruct e st = (x, st1)"
    by (metis prod.exhaust)
  obtain y st2 where r: "deconstruct_arr es st1 = (y, st2)"
    by (metis prod.exhaust)
  have "same_failures (snd st) (snd st1)"
    using "7.IH"(1) e .
  moreover have "same_failures (snd st1) (snd st2)" if "x = Inr d" for d
    using "7.IH"(2) [OF e [symmetric] that] r .
  ultimately show ?case
    using "7.prems" e r by (cases x; cases y) (auto intro: same_failures_trans)
next
  case (9 k e ms st)
  obtain x st1 where e: "deconstruct e st = (x, st1)"
    by (metis prod.exhaust)
  obtain y st2 where r: "deconstruct_obj ms st1 = (y, st2)"
    by (metis prod.exhaust)
  have "same_failures (snd st) (snd st1)"
    using "9.IH"(1) e .
  moreover have "same_failures (snd st1) (snd st2)" if "x = Inr d" for d
    using "9.IH"(2) [OF e [symmetric] that] r .
  ultimately show ?case
    using "9.prems" e r by (cases x; cases y) (auto intro: same_failures_trans)
qed (fastforce split: prod.splits sum.splits)+

lemma readable_same_failures: "same_failures h h' \<Longrightarrow> readable h' v = readable h v"
  unfolding readable_def same_failures_def by metis

lemma readable_reader: "readable h (VReader r) \<longleftrightarrow> (\<exists>b h'. readAll r h = (Inr b, h'))"
  by (auto simp: readable_def readAll_def split: reader.splits sum.splits)

lemma deconstruct_succeeds_iff:
  "(\<exists>d. fst (deconstruct v st) = Inr d) \<longleftrightarrow> readable (snd st) v"
  "(\<exists>d. fst (deconstruct_arr vs st) = Inr d) \<longleftrightarrow> readable (snd st) (VArr vs)"
  "(\<exists>d. fst (deconstruct_obj ms st) = Inr d) \<longleftrightarrow> readable (snd st) (VObj ms)"
proof (induction v st and vs st and ms st rule: deconstruct_deconstruct_arr_deconstruct_obj.induct)
  case (2 r bufs h)
  then show ?case by (auto simp: readable_reader split: prod.splits sum.splits)
next
  case (7 e es st)
  show ?case
  proof (cases "deconstruct e st" rule: prod.exhaust)
    case (Pair r st')
    then have s: "same_failures (snd st) (snd st')"
      by (rule deconstruct_same_failures(1))
    show ?thesis
      using 7 Pair s
      by (cases r) (auto simp: readable_same_failures [OF s] split: prod.splits sum.splits)
  qed
next
  case (9 k e ms st)
  show ?case
  proof (cases "deconstruct e st" rule: prod.exhaust)
    case (Pair r st')
    then have s: "same_failures (snd st) (snd st')"
      by (rule deconstruct_same_failures(1))
    show ?thesis
      using 9 Pair s
      by (cases r) (auto simp: readable_same_failures [OF s] split: prod.splits sum.splits)
  qed
next
  case (3 vs st)
  then show ?case
    by (cases "deconstruct_arr vs st" rule: prod.exhaust) (auto split: sum.splits)
next
  case (4 ms st)
  then show ?case
    by (cases "deconstruct_obj ms st" rule: prod.exhaust) (auto split: sum.splits)
qed (simp_all add: readable_def)

lemma deconstruct_error:
  "deconstruct v st = (Inl err, st') \<Longrightarrow>
     \<exists>a\<in>set (reader_addrs v). \<exists>e. snd st a = Inl e \<and> err = ErrorfP ''socketio: reading binary payload'' e"
  "deconstruct_arr vs st = (Inl err, st') \<Longrightarrow>
     \<exists>a\<in>set (reader_addrs (VArr vs)). \<exists>e. snd st a = Inl e \<and> err = ErrorfP ''socketio: reading binary payload'' e"
  "deconstruct_obj ms st = (Inl err, st') \<Longrightarrow>
     \<exists>a\<in>set (reader_addrs (VObj ms)). \<exists>e. snd st a = Inl e \<and> err = ErrorfP ''socketio: reading binary payload'' e"
proof (induction v st and vs st and ms st arbitrary: err st' and err st' and err st'
      rule: deconstruct_deconstruct_arr_deconstruct_obj.induct)
  case (2 r bufs h)
  then show ?case by (auto simp: readAll_def split: prod.splits sum.splits reader.splits)
next
  case (7 e es st)
  obtain x st1 where e: "deconstruct e st = (x, st1)"
    by (cases "deconstruct e st" rule: prod.exhaust)
  then have s: "same_failures (snd st) (snd st1)"
    by (rule deconstruct_same_failures(1))
  show ?case
  proof (cases x)
    case (Inl err')
    then show ?thesis
      using 7 e by auto
  next
    case (Inr d)
    then obtain st2 where "deconstruct_arr es st1 = (Inl err, st2)"
      using "7.prems" e by (auto split: prod.splits sum.splits)
    then have "\<exists>a\<in>set (reader_addrs (VArr es)). \<exists>e. snd st1 a = Inl e \<and> err = ErrorfP ''socketio: reading binary payload'' e"
      by (rule "7.IH"(2) [OF e [symmetric] Inr])
    then show ?thesis
      using same_failures_Inl [OF s] by auto
  qed
next
  case (9 k e ms st)
  obtain x st1 where e: "deconstruct e st = (x, st1)"
    by (cases "deconstruct e st" rule: prod.exhaust)
  then have s: "same_failures (snd st) (snd st1)"
    by (rule deconstruct_same_failures(1))
  show ?case
  proof (cases x)
    case (Inl err')
    then show ?thesis
      using 9 e by auto
  next
    case (Inr d)
    then obtain st2 where "deconstruct_obj ms st1 = (Inl err, st2)"
      using "9.prems" e by (auto split: prod.splits sum.splits)
    then have "\<exists>a\<in>set (reader_addrs (VObj ms)). \<exists>e. snd st1 a = Inl e \<and> err = ErrorfP ''socketio: reading binary payload'' e"
      by (rule "9.IH"(2) [OF e [symmetric] Inr])
    then show ?thesis
      using same_failures_Inl [OF s] by auto
  qed
next
  case (3 vs st)
  then show ?case
    by (cases "deconstruct_arr vs st" rule: prod.exhaust) (auto split: sum.splits)
next
  case (4 ms st)
  then show ?case
    by (cases "deconstruct_obj ms st" rule: prod.exhaust) (auto split: sum.splits)
qed simp_all

section \<open>Properties of the packet codec\<close>

text \<open>
  C16. A packet whose namespace starts with a slash and has no comma, whose id and
  attachment count are in range and whose payload is acceptable for its type is decoded
  from its encoding unchanged, up to the JSON form of its payload.\<close>

theorem sio_packet_roundtrip:
  assumes "wf_sio p"
  shows "Decode (Encode p) = Inr (p\<lparr>sp_Data := json_form (sp_Data p)\<rparr>)"
  using assms by (rule Decode_Encode)

definition sample_event :: sio_packet where
  "sample_event =
     \<lparr>sp_Type = Event, sp_Nsp = ''/chat'', sp_ID = 12,
      sp_Data = VArr [VStr ''msg'', VObj [(''ok'', VBool True)]], sp_Attachments = 0\<rparr>"

lemma sample_event_wf: "wf_sio sample_event"
  by (simp add: sample_event_def wf_sio_def wf_nsp_def max_int64_def is_binary_type_def
      payload_like_def validatePayload_def isReservedEvent_def reservedEvents_def
      valid_utf8_ascii is_ascii_def)

theorem sio_packet_roundtrip_witness:
  "Decode (Encode sample_event) = Inr (sample_event\<lparr>sp_Data := json_form (sp_Data sample_event)\<rparr>)"
  by (rule sio_packet_roundtrip [OF sample_event_wf])

lemma decode_nsp_wf: "decode_nsp s = (nsp, s') \<Longrightarrow> wf_nsp nsp"
proof (cases "s \<noteq> [] \<and> hd s = CHR ''/''")
  case True
  assume "decode_nsp s = (nsp, s')"
  with True have "nsp = takeWhile (\<lambda>c. c \<noteq> CHR '','') s"
    by (simp add: decode_nsp_def)
  with True show ?thesis
    by (cases s) (auto simp: wf_nsp_def dest: set_takeWhileD)
next
  case False
  assume "decode_nsp s = (nsp, s')"
  with False show ?thesis
    by (auto simp: decode_nsp_def wf_nsp_def defaultNamespace_def)
qed

lemma decode_id_range: "decode_id s = (i, s') \<Longrightarrow> -1 \<le> i \<and> i \<le> max_int64"
  by (auto simp: decode_id_def parse_int64_digits_def max_int64_def split: if_splits)

lemma decode_attachments_range: "decode_attachments s = Inr (n, s') \<Longrightarrow> 0 \<le> n \<and> n \<le> max_int64"
  by (auto simp: decode_attachments_def atoi_def split: list.splits option.splits if_splits)

lemma validate_event:
  assumes "validatePayload t v = None" and "t \<in> {Event, BinaryEvent}"
  shows "\<exists>first args. v = VArr (first # args)
    \<and> ((\<exists>n. first = VNum n) \<or> (\<exists>name. first = VStr name \<and> \<not> isReservedEvent name))"
proof (cases v)
  case (VArr vs)
  show ?thesis
  proof (cases vs)
    case (Cons first args)
    then show ?thesis
      using assms VArr by (cases first) (auto simp: validatePayload_def split: if_splits)
  qed (use assms VArr in \<open>auto simp: validatePayload_def\<close>)
qed (use assms in \<open>auto simp: validatePayload_def\<close>)

lemma Decode_cases:
  assumes "Decode data = Inr p"
  obtains c rest s1 s2 s3 where
    "data = c # rest" "packet_type_of_byte c = Some (sp_Type p)"
    "(if is_binary_type (sp_Type p) then decode_attachments rest else Inr (0, rest)) = Inr (sp_Attachments p, s1)"
    "decode_nsp s1 = (sp_Nsp p, s2)" "decode_id s2 = (sp_ID p, s3)"
    "s3 = [] \<and> sp_Data p = VNil
     \<or> unmarshal s3 = Some (sp_Data p) \<and> validatePayload (sp_Type p) (sp_Data p) = None"
proof -
  obtain c rest where c: "data = c # rest"
    using assms by (cases data) (auto simp: Decode_def)
  obtain t where t: "packet_type_of_byte c = Some t"
    using assms c by (cases "packet_type_of_byte c") (auto simp: Decode_def)
  obtain n s1 where a: "(if is_binary_type t then decode_attachments rest else Inr (0, rest)) = Inr (n, s1)"
    using assms c t
    by (cases "if is_binary_type t then decode_attachments rest else Inr (0, rest)") (auto simp: Decode_def)
  obtain nsp s2 where n: "decode_nsp s1 = (nsp, s2)"
    by fastforce
  obtain i s3 where i: "decode_id s2 = (i, s3)"
    by fastforce
  have p: "p = \<lparr>sp_Type = t, sp_Nsp = nsp, sp_ID = i, sp_Data = sp_Data p, sp_Attachments = n\<rparr>
      \<and> (s3 = [] \<and> sp_Data p = VNil
         \<or> unmarshal s3 = Some (sp_Data p) \<and> validatePayload t (sp_Data p) = None)"
    using assms by (auto simp: Decode_def Let_def c t a n i split: if_splits option.splits)
  then have "sp_Type p = t" "sp_Nsp p = nsp" "sp_ID p = i" "sp_Attachments p = n"
    by (metis sio_packet.select_convs)+
  then show thesis
    using that c t a n i p by blast
qed

text \<open>
  C17. Whatever bytes arrive, a packet that \<^verbatim>\<open>Decode\<close> accepts has the type of its first
  byte, a namespace that starts with a slash and has no comma, an id and an attachment
  count in range (no attachments unless it is a binary packet), and either no payload or
  one that is valid for its type; in particular an event's payload is a non-empty list whose
  name is a number or a string that is not reserved.\<close>

theorem decoded_packet_valid:
  assumes "Decode data = Inr p"
  shows "data \<noteq> [] \<and> packet_type_byte (sp_Type p) = hd data \<and> wf_nsp (sp_Nsp p)
    \<and> -1 \<le> sp_ID p \<and> sp_ID p \<le> max_int64
    \<and> 0 \<le> sp_Attachments p \<and> sp_Attachments p \<le> max_int64
    \<and> (is_binary_type (sp_Type p) \<or> sp_Attachments p = 0)
    \<and> (sp_Data p = VNil \<or> validatePayload (sp_Type p) (sp_Data p) = None)
    \<and> (sp_Data p \<noteq> VNil \<and> sp_Type p \<in> {Event, BinaryEvent} \<longrightarrow>
         (\<exists>first args. sp_Data p = VArr (first # args)
            \<and> ((\<exists>n. first = VNum n) \<or> (\<exists>name. first = VStr name \<and> \<not> isReservedEvent name))))"
proof -
  from assms obtain c rest s1 s2 s3 where d:
    "data = c # rest" "packet_type_of_byte c = Some (sp_Type p)"
    "(if is_binary_type (sp_Type p) then decode_attachments rest else Inr (0, rest)) = Inr (sp_Attachments p, s1)"
    "decode_nsp s1 = (sp_Nsp p, s2)" "decode_id s2 = (sp_ID p, s3)"
    "s3 = [] \<and> sp_Data p = VNil
     \<or> unmarshal s3 = Some (sp_Data p) \<and> validatePayload (sp_Type p) (sp_Data p) = None"
    by (rule Decode_cases)
  have "0 \<le> sp_Attachments p \<and> sp_Attachments p \<le> max_int64
      \<and> (is_binary_type (sp_Type p) \<or> sp_Attachments p = 0)"
    using d(3) decode_attachments_range by (auto simp: max_int64_def split: if_splits)
  then show ?thesis
    using d validate_event [of "sp_Type p"] decode_nsp_wf [OF d(4)] decode_id_range [OF d(5)] packet_type_byte_inverse by auto
qed

theorem decoded_packet_valid_witness:
  "\<exists>p. Decode ''23'' = Inr p \<and> packet_type_byte (sp_Type p) = CHR ''2'' \<and> sp_ID p \<le> max_int64"
proof -
  have "\<exists>p. Decode ''23'' = Inr p"
    by (simp add: Decode_def packet_type_of_byte_def is_binary_type_def decode_nsp_def decode_id_def isDigit_def)
  then obtain p where p: "Decode ''23'' = Inr p" ..
  from decoded_packet_valid [OF p] show ?thesis
    using p by auto
qed

text \<open>
  A value without the placeholder marker, whose readers are distinct and readable, is
  taken apart into a value without binary parts and a list of buffers; after the value has
  gone over the wire as JSON, putting the buffers back gives the original with every reader
  replaced by its contents. There are buffers exactly when the value had binary parts.\<close>

lemma binary_roundtrip:
  assumes "wf_val v" and "no_marker v" and "distinct (reader_addrs v)" and "readable h v"
  shows "\<exists>d bufs h' j. deconstruct v ([], h) = (Inr d, bufs, h')
    \<and> unmarshal (marshal d) = Some j \<and> reconstruct j bufs = received h v
    \<and> \<not> hasBinary d \<and> (bufs \<noteq> [] \<longleftrightarrow> hasBinary v)"
proof -
  from splits_all [OF assms(3,4,2,1)] obtain d bufs h' where d:
    "deconstruct v ([], h) = (Inr d, bufs, h')" "reconstruct (json_form d) bufs = received h v"
    unfolding splits_def by (metis append.right_neutral append_Nil)
  moreover have "unmarshal (marshal d) = Some (json_form d)"
    using deconstruct_wf(1) [OF d(1) assms(1)] by (rule unmarshal_marshal)
  moreover have "bufs \<noteq> [] \<longleftrightarrow> hasBinary v"
    using deconstruct_count(1) [OF d(1)] deconstruct_plain(1) [of v "([], h)"] d(1) by auto
  ultimately show ?thesis
    using deconstruct_no_binary(1) [OF d(1)] by blast
qed

definition sample_readers :: readers where
  "sample_readers a = (if a = 0 then Inr ''reader'' else Inl (ErrorsNew ''closed''))"

definition sample_binary :: val where
  "sample_binary = VArr [VStr ''up'', VBytes ''raw'', VReader (Reader 0)]"

lemma sample_binary_ok:
  "wf_val sample_binary" "no_marker sample_binary" "distinct (reader_addrs sample_binary)"
  "readable sample_readers sample_binary"
  by (simp_all add: sample_binary_def sample_readers_def readable_def valid_utf8_ascii is_ascii_def)

text \<open>
  Taking a value apart succeeds exactly when none of its readers fails; a failure is
  the failure of one of its readers, wrapped.\<close>

lemma deconstruct_fails_iff_unreadable:
  "((\<exists>d. fst (deconstruct v (bufs, h)) = Inr d) \<longleftrightarrow> readable h v)
   \<and> (\<forall>err. fst (deconstruct v (bufs, h)) = Inl err \<longrightarrow>
        (\<exists>a\<in>set (reader_addrs v). \<exists>e. h a = Inl e \<and> errors_Is err e))"
proof -
  have "\<exists>a\<in>set (reader_addrs v). \<exists>e. h a = Inl e \<and> errors_Is err e"
    if "fst (deconstruct v (bufs, h)) = Inl err" for err
    using that deconstruct_error(1) [of v "(bufs, h)" err] by (cases "deconstruct v (bufs, h)") fastforce
  then show ?thesis
    using deconstruct_succeeds_iff(1) [of v "(bufs, h)"] by auto
qed

end
