(* ===== verification/SioWire.thy ===== *)
theory SioWire
  imports SioPacket
begin

text \<open>
  Packets on an Engine.IO connection: \<^verbatim>\<open>sendPacket\<close> turns a packet into one text message
  and its binary attachments, \<^verbatim>\<open>handleIn\<close> and \<^verbatim>\<open>feedBinary\<close> put the packet together again.
  The server (\<^verbatim>\<open>socketio/server.go\<close>) and the client (\<^verbatim>\<open>socketio/client.go\<close>) have the same
  code for both; it is modelled once and used by both.
\<close>

section \<open>Sending\<close>

text \<open>A message handed to \<^verbatim>\<open>SendMessage(data, binary)\<close>.\<close>

type_synonym message = "bytes \<times> bool"

text \<open>
  \<^verbatim>\<open>sendPacket\<close>: the messages it sends, in order, and the readers after it has drained those
  of the payload. A packet whose readers fail is dropped (with a warning to the log).
\<close>

definition sendPacket :: "sio_packet \<Rightarrow> readers \<Rightarrow> message list \<times> readers" where
  "sendPacket pkt h =
     (if sp_Data pkt \<noteq> VNil \<and> hasBinary (sp_Data pkt) then
        (case deconstruct (sp_Data pkt) ([], h) of
           (Inl err, _, h') \<Rightarrow> ([], h')
         | (Inr d, bufs, h') \<Rightarrow>
             (let t = (case sp_Type pkt of Event \<Rightarrow> BinaryEvent | Ack \<Rightarrow> BinaryAck | t \<Rightarrow> t);
                  pkt' = pkt\<lparr>sp_Data := d, sp_Type := t, sp_Attachments := int (length bufs)\<rparr>
              in ((Encode pkt', False) # map (\<lambda>b. (b, True)) bufs, h')))
      else ([(Encode pkt, False)], h))"

section \<open>Receiving\<close>

record reconstructor =
  rc_pkt :: sio_packet
  rc_bufs :: "bytes list"

definition binaryToPlain :: "PacketType \<Rightarrow> PacketType" where
  "binaryToPlain t = (if t = BinaryEvent then Event else if t = BinaryAck then Ack else t)"

text \<open>
  \<^verbatim>\<open>feedBinary\<close> and \<^verbatim>\<open>handleIn\<close>: the packet being put together afterwards, and the packet
  given to \<^verbatim>\<open>process\<close>, if any.
\<close>

definition feedBinary ::
  "reconstructor option \<Rightarrow> bytes \<Rightarrow> reconstructor option \<times> sio_packet option" where
  "feedBinary recon data =
     (case recon of
        None \<Rightarrow> (None, None)
      | Some rec \<Rightarrow>
          (let bufs = rc_bufs rec @ [data]
           in if int (length bufs) \<noteq> sp_Attachments (rc_pkt rec)
              then (Some (rec\<lparr>rc_bufs := bufs\<rparr>), None)
              else
                (None, Some ((rc_pkt rec)\<lparr>sp_Data := reconstruct (sp_Data (rc_pkt rec)) bufs,
                                          sp_Type := binaryToPlain (sp_Type (rc_pkt rec))\<rparr>))))"

definition handleIn ::
  "reconstructor option \<Rightarrow> bytes \<Rightarrow> bool \<Rightarrow> reconstructor option \<times> sio_packet option" where
  "handleIn recon data binary =
     (if binary then feedBinary recon data
      else
        (case Decode data of
           Inl err \<Rightarrow> (recon, None)
         | Inr pkt \<Rightarrow>
             if is_binary_type (sp_Type pkt) then
               (if sp_Attachments pkt = 0
                then (recon, Some (pkt\<lparr>sp_Type := binaryToPlain (sp_Type pkt)\<rparr>))
                else (Some \<lparr>rc_pkt = pkt, rc_bufs = []\<rparr>, None))
             else (recon, Some pkt)))"

text \<open>A run of \<^verbatim>\<open>handleIn\<close> over the messages of a connection.\<close>

fun receive ::
  "reconstructor option \<Rightarrow> message list \<Rightarrow> reconstructor option \<times> sio_packet list" where
  "receive recon [] = (recon, [])"
| "receive recon ((data, binary) # msgs) =
     (case handleIn recon data binary of
        (recon', pkt) \<Rightarrow>
          (case receive recon' msgs of
             (recon'', pkts) \<Rightarrow> (recon'', (case pkt of None \<Rightarrow> pkts | Some p \<Rightarrow> p # pkts))))"

lemma receive_append:
  "receive recon (xs @ ys) =
     (case receive recon xs of
        (recon', ps) \<Rightarrow> (case receive recon' ys of (recon'', qs) \<Rightarrow> (recon'', ps @ qs)))"
  by (induction recon xs rule: receive.induct) (auto split: prod.splits option.splits)

section \<open>Attachments\<close>

lemma handleIn_binary: "handleIn recon data True = feedBinary recon data"
  by (simp add: handleIn_def)

lemma feed_all:
  assumes "sp_Attachments pkt = int (length (got @ bufs))" and "bufs \<noteq> []"
  shows "receive (Some \<lparr>rc_pkt = pkt, rc_bufs = got\<rparr>) (map (\<lambda>b. (b, True)) bufs)
    = (None, [pkt\<lparr>sp_Data := reconstruct (sp_Data pkt) (got @ bufs),
                  sp_Type := binaryToPlain (sp_Type pkt)\<rparr>])"
  using assms
proof (induction bufs arbitrary: got)
  case (Cons b bufs)
  show ?case
  proof (cases "bufs = []")
    case True
    with Cons.prems show ?thesis
      by (simp add: handleIn_def feedBinary_def)
  next
    case False
    with Cons.prems Cons.IH [of "got @ [b]"] show ?thesis
      by (simp add: handleIn_def feedBinary_def)
  qed
qed simp

section \<open>Across the wire\<close>

text \<open>The packets that the emit functions and acknowledgements send.\<close>

definition sendable :: "PacketType \<Rightarrow> val \<Rightarrow> bool" where
  "sendable t v \<longleftrightarrow>
     t = Event \<and> (\<exists>name args. v = VArr (VStr name # args) \<and> \<not> isReservedEvent name)
     \<or> t = Ack \<and> (\<exists>args. v = VArr args)"

lemma sendable_deconstruct:
  assumes "sendable t v" and "deconstruct v st = (Inr d, st')"
  shows "sendable t d"
proof -
  obtain vs where v: "v = VArr vs"
    using assms(1) by (auto simp: sendable_def)
  then obtain ds where d: "deconstruct_arr vs st = (Inr ds, st')" "d = VArr ds"
    using assms(2) by (cases "deconstruct_arr vs st" rule: prod.exhaust) (auto split: sum.splits)
  show ?thesis
  proof (cases "t = Event")
    case True
    then obtain name args where "vs = VStr name # args" "\<not> isReservedEvent name"
      using assms(1) v by (auto simp: sendable_def)
    then show ?thesis
      using d True by (auto simp: sendable_def split: prod.splits sum.splits)
  next
    case False
    then show ?thesis
      using assms(1) d by (auto simp: sendable_def)
  qed
qed

lemma sendable_payload:
  assumes "sendable t v" and "t' \<in> {t, case t of Event \<Rightarrow> BinaryEvent | _ \<Rightarrow> BinaryAck}"
  shows "payload_like v" "validatePayload t' (json_form v) = None" "v \<noteq> VNil"
  using assms by (auto simp: sendable_def payload_like_def validatePayload_def)

lemma received_plain: "\<not> hasBinary v \<Longrightarrow> no_marker v \<Longrightarrow> received h v = json_form v"
proof (induction v)
  case (VObj ms)
  have "received h e = json_form e" if "(k, e) \<in> set ms" for k e
    using VObj.IH [of "(k, e)" e] VObj.prems that by auto
  then show ?case
    by (auto intro!: arg_cong [where f = "sort_key fst"])
qed simp_all

text \<open>The number of binary values in a payload is the number of attachments.\<close>

fun binary_count :: "val \<Rightarrow> nat" where
  "binary_count (VBytes _) = 1"
| "binary_count (VReader _) = 1"
| "binary_count (VArr vs) = sum_list (map binary_count vs)"
| "binary_count (VObj ms) = sum_list (map (\<lambda>(k, e). binary_count e) ms)"
| "binary_count _ = 0"

lemma deconstruct_binary_count:
  "deconstruct v st = (Inr d, st') \<Longrightarrow> length (fst st') = length (fst st) + binary_count v"
  "deconstruct_arr vs st = (Inr ds, st') \<Longrightarrow>
     length (fst st') = length (fst st) + sum_list (map binary_count vs)"
  "deconstruct_obj ms st = (Inr os, st') \<Longrightarrow>
     length (fst st') = length (fst st) + sum_list (map (\<lambda>(k, e). binary_count e) ms)"
proof (induction v st and vs st and ms st arbitrary: d st' and ds st' and os st'
      rule: deconstruct_deconstruct_arr_deconstruct_obj.induct)
  case (2 x bufs h)
  then show ?case
    by (auto split: prod.splits sum.splits)
next
  case (3 vs st)
  then show ?case
    by (cases "deconstruct_arr vs st" rule: prod.exhaust) (auto split: sum.splits)
next
  case (4 ms st)
  then show ?case
    by (cases "deconstruct_obj ms st" rule: prod.exhaust) (auto split: sum.splits)
next
  case (7 e es st)
  obtain x st1 where e: "deconstruct e st = (x, st1)"
    by (metis prod.exhaust)
  obtain y st2 where r: "deconstruct_arr es st1 = (y, st2)"
    by (metis prod.exhaust)
  obtain d' es' where x: "x = Inr d'" "y = Inr es'" "st' = st2"
    using "7.prems" e r by (auto split: sum.splits)
  show ?case
    using "7.IH"(1) [OF e [unfolded x(1)]] "7.IH"(2) [OF e [symmetric] x(1) r [unfolded x(2)]] x(3) by simp
next
  case (9 k e ms st)
  obtain x st1 where e: "deconstruct e st = (x, st1)"
    by (metis prod.exhaust)
  obtain y st2 where r: "deconstruct_obj ms st1 = (y, st2)"
    by (metis prod.exhaust)
  obtain d' ms' where x: "x = Inr d'" "y = Inr ms'" "st' = st2"
    using "9.prems" e r by (auto split: sum.splits)
  show ?case
    using "9.IH"(1) [OF e [unfolded x(1)]] "9.IH"(2) [OF e [symmetric] x(1) r [unfolded x(2)]] x(3) by simp
qed simp_all

text \<open>A packet that can cross the wire when the readers are in state \<open>h\<close>.\<close>

definition transferable :: "readers \<Rightarrow> sio_packet \<Rightarrow> bool" where
  "transferable h p \<longleftrightarrow>
     sendable (sp_Type p) (sp_Data p) \<and> wf_nsp (sp_Nsp p)
     \<and> -1 \<le> sp_ID p \<and> sp_ID p \<le> max_int64 \<and> sp_Attachments p = 0
     \<and> wf_val (sp_Data p) \<and> no_marker (sp_Data p)
     \<and> distinct (reader_addrs (sp_Data p)) \<and> readable h (sp_Data p)
     \<and> int (binary_count (sp_Data p)) \<le> max_int64"

text \<open>The packet the other side should process.\<close>

definition arrives_as :: "readers \<Rightarrow> sio_packet \<Rightarrow> sio_packet \<Rightarrow> bool" where
  "arrives_as h p q \<longleftrightarrow>
     sp_Type q = sp_Type p \<and> sp_Nsp q = sp_Nsp p \<and> sp_ID q = sp_ID p
     \<and> sp_Data q = received h (sp_Data p)"

lemma sendable_type: "sendable t v \<Longrightarrow> t = Event \<or> t = Ack"
  by (auto simp: sendable_def)

lemma transfer_plain:
  assumes "transferable h p" and "\<not> hasBinary (sp_Data p)"
  shows "\<exists>q. sendPacket p h = ([(Encode p, False)], h)
    \<and> receive recon [(Encode p, False)] = (recon, [q]) \<and> arrives_as h p q"
proof -
  have s: "sendable (sp_Type p) (sp_Data p)"
    using assms(1) by (simp add: transferable_def)
  then have t: "\<not> is_binary_type (sp_Type p)"
    by (auto simp: is_binary_type_def dest: sendable_type)
  have "wf_sio p"
    using assms(1) t sendable_payload [OF s, of "sp_Type p"]
    by (simp add: wf_sio_def transferable_def max_int64_def)
  then have d: "Decode (Encode p) = Inr (p\<lparr>sp_Data := json_form (sp_Data p)\<rparr>)"
    by (rule Decode_Encode)
  have "received h (sp_Data p) = json_form (sp_Data p)"
    using received_plain assms by (simp add: transferable_def)
  then show ?thesis
    using assms(2) t d by (simp add: sendPacket_def handleIn_def arrives_as_def)
qed

text \<open>The header of a binary packet leaves the receiver waiting for its attachments.\<close>

lemma binary_header:
  assumes "transferable h p" and "hasBinary (sp_Data p)"
  obtains pkt bufs h' where
    "sendPacket p h = ((Encode pkt, False) # map (\<lambda>b. (b, True)) bufs, h')" "bufs \<noteq> []"
    "\<And>recon. handleIn recon (Encode pkt) False
       = (Some \<lparr>rc_pkt = pkt\<lparr>sp_Data := json_form (sp_Data pkt)\<rparr>, rc_bufs = []\<rparr>, None)"
    "sp_Attachments pkt = int (length bufs)" "binaryToPlain (sp_Type pkt) = sp_Type p"
    "sp_Nsp pkt = sp_Nsp p" "sp_ID pkt = sp_ID p"
    "reconstruct (json_form (sp_Data pkt)) bufs = received h (sp_Data p)"
    "\<And>a. a \<notin> set (reader_addrs (sp_Data p)) \<Longrightarrow> h' a = h a"
proof -
  let ?v = "sp_Data p"
  let ?t = "case sp_Type p of Event \<Rightarrow> BinaryEvent | Ack \<Rightarrow> BinaryAck | t \<Rightarrow> t"
  have s: "sendable (sp_Type p) ?v"
    using assms(1) by (simp add: transferable_def)
  have t: "sp_Type p = Event \<or> sp_Type p = Ack"
    using sendable_type [OF s] .
  have "splits [] h ?v"
    using assms(1) by (intro splits_all) (simp_all add: transferable_def)
  then obtain d bufs h' where d: "deconstruct ?v ([], h) = (Inr d, bufs, h')"
    "reconstruct (json_form d) bufs = received h ?v"
    "\<forall>a. a \<notin> set (reader_addrs ?v) \<longrightarrow> h' a = h a"
    unfolding splits_def by (metis append.right_neutral append_Nil)
  define pkt where "pkt = p\<lparr>sp_Data := d, sp_Type := ?t, sp_Attachments := int (length bufs)\<rparr>"
  have snd: "sendPacket p h = ((Encode pkt, False) # map (\<lambda>b. (b, True)) bufs, h')"
    using assms(2) d(1) sendable_payload(3) [OF s, of "sp_Type p"] by (simp add: sendPacket_def pkt_def Let_def)
  have bt: "is_binary_type ?t" "binaryToPlain ?t = sp_Type p"
    using t by (auto simp: is_binary_type_def binaryToPlain_def)
  have "wf_val d"
    using deconstruct_wf(1) [OF d(1)] assms(1) by (simp add: transferable_def)
  moreover have "payload_like d" "validatePayload ?t (json_form d) = None" "d \<noteq> VNil"
    using sendable_payload [OF sendable_deconstruct [OF s d(1)], of ?t] t by auto
  ultimately have "wf_sio pkt"
    using assms(1) deconstruct_binary_count(1) [OF d(1)] bt(1)
    by (simp add: wf_sio_def transferable_def pkt_def)
  then have dec: "Decode (Encode pkt) = Inr (pkt\<lparr>sp_Data := json_form d\<rparr>)"
    using Decode_Encode [of pkt] by (simp add: pkt_def)
  have ne: "bufs \<noteq> []"
    using deconstruct_count(1) [OF d(1) assms(2)] by auto
  have "handleIn recon (Encode pkt) False
      = (Some \<lparr>rc_pkt = pkt\<lparr>sp_Data := json_form (sp_Data pkt)\<rparr>, rc_bufs = []\<rparr>, None)" for recon
    using dec bt(1) ne by (simp add: handleIn_def pkt_def)
  then show thesis
    using that [OF snd ne] d(2,3) bt(2) by (simp add: pkt_def)
qed

lemma transfer_binary:
  assumes "transferable h p" and "hasBinary (sp_Data p)"
  shows "\<exists>msgs h' q. sendPacket p h = (msgs, h') \<and> receive recon msgs = (None, [q])
    \<and> arrives_as h p q \<and> (\<forall>a. a \<notin> set (reader_addrs (sp_Data p)) \<longrightarrow> h' a = h a)"
proof -
  obtain pkt bufs h' where m:
    "sendPacket p h = ((Encode pkt, False) # map (\<lambda>b. (b, True)) bufs, h')" "bufs \<noteq> []"
    "\<And>recon. handleIn recon (Encode pkt) False
       = (Some \<lparr>rc_pkt = pkt\<lparr>sp_Data := json_form (sp_Data pkt)\<rparr>, rc_bufs = []\<rparr>, None)"
    "sp_Attachments pkt = int (length bufs)" "binaryToPlain (sp_Type pkt) = sp_Type p"
    "sp_Nsp pkt = sp_Nsp p" "sp_ID pkt = sp_ID p"
    "reconstruct (json_form (sp_Data pkt)) bufs = received h (sp_Data p)"
    "\<And>a. a \<notin> set (reader_addrs (sp_Data p)) \<Longrightarrow> h' a = h a"
    using binary_header [OF assms] by blast
  have "receive recon ((Encode pkt, False) # map (\<lambda>b. (b, True)) bufs)
      = (None, [pkt\<lparr>sp_Data := received h (sp_Data p), sp_Type := sp_Type p\<rparr>])"
    using feed_all [of "pkt\<lparr>sp_Data := json_form (sp_Data pkt)\<rparr>" "[]" bufs] m(2-5,8) by simp
  then show ?thesis
    using m by (auto simp: arrives_as_def)
qed

lemma transfer:
  assumes "transferable h p"
  shows "\<exists>msgs h' q. sendPacket p h = (msgs, h')
    \<and> receive recon msgs = (if hasBinary (sp_Data p) then None else recon, [q])
    \<and> arrives_as h p q \<and> (\<forall>a. a \<notin> set (reader_addrs (sp_Data p)) \<longrightarrow> h' a = h a)"
  using transfer_plain [OF assms] transfer_binary [OF assms] by (cases "hasBinary (sp_Data p)") auto

text \<open>Packets sent one after the other.\<close>

fun sendPackets :: "sio_packet list \<Rightarrow> readers \<Rightarrow> message list \<times> readers" where
  "sendPackets [] h = ([], h)"
| "sendPackets (p # ps) h =
     (case sendPacket p h of
        (msgs, h') \<Rightarrow> (case sendPackets ps h' of (msgs', h'') \<Rightarrow> (msgs @ msgs', h'')))"

lemma transferable_cong:
  "(\<And>a. a \<in> set (reader_addrs (sp_Data p)) \<Longrightarrow> h' a = h a) \<Longrightarrow> transferable h' p = transferable h p"
  using readable_cong [of "sp_Data p" h' h] by (simp add: transferable_def)

lemma arrives_as_cong:
  "(\<And>a. a \<in> set (reader_addrs (sp_Data p)) \<Longrightarrow> h' a = h a) \<Longrightarrow> arrives_as h' p q = arrives_as h p q"
  using received_cong [of "sp_Data p" h' h] by (simp add: arrives_as_def)

lemma transfer_all:
  assumes "\<forall>p\<in>set ps. transferable h p"
    and "distinct (concat (map (\<lambda>p. reader_addrs (sp_Data p)) ps))"
  shows "\<exists>msgs h' recon' qs. sendPackets ps h = (msgs, h') \<and> receive recon msgs = (recon', qs)
    \<and> list_all2 (arrives_as h) ps qs"
  using assms
proof (induction ps arbitrary: h recon)
  case (Cons p ps)
  obtain msgs h' q where p: "sendPacket p h = (msgs, h')"
    "receive recon msgs = (if hasBinary (sp_Data p) then None else recon, [q])"
    "arrives_as h p q" "\<And>a. a \<notin> set (reader_addrs (sp_Data p)) \<Longrightarrow> h' a = h a"
    using transfer [of h p recon] Cons.prems(1) by auto
  have same: "h' a = h a" if "x \<in> set ps" "a \<in> set (reader_addrs (sp_Data x))" for x a
    using p(4) Cons.prems(2) that by auto
  have "\<forall>x\<in>set ps. transferable h' x"
  proof
    fix x assume "x \<in> set ps"
    with transferable_cong [of x h' h] same Cons.prems(1) show "transferable h' x"
      by simp
  qed
  moreover have "distinct (concat (map (\<lambda>p. reader_addrs (sp_Data p)) ps))"
    using Cons.prems(2) by simp
  ultimately obtain msgs' h'' recon' qs where ps:
    "sendPackets ps h' = (msgs', h'')"
    "receive (if hasBinary (sp_Data p) then None else recon) msgs' = (recon', qs)"
    "list_all2 (arrives_as h') ps qs"
    using Cons.IH by blast
  have "list_all2 (arrives_as h) ps qs"
    using ps(3)
  proof (rule list.rel_mono_strong)
    fix x y assume "x \<in> set ps" "arrives_as h' x y"
    with arrives_as_cong [of x h' h] same show "arrives_as h x y"
      by simp
  qed
  then show ?case
    using p(1-3) ps(1,2) by (simp add: receive_append)
qed simp

text \<open>
  C2. A sequence of events and acknowledgements, with or without binary parts, sent one
  after the other over a connection is processed by the other side packet by packet, in
  order, each with the same type, namespace, id and payload (readers replaced by their
  contents), whatever incomplete packet the receiver was holding before.\<close>

theorem wire_stream_roundtrip:
  assumes "\<forall>p\<in>set ps. transferable h p"
    and "distinct (concat (map (\<lambda>p. reader_addrs (sp_Data p)) ps))"
  shows "\<exists>msgs h' recon' qs. sendPackets ps h = (msgs, h') \<and> receive recon msgs = (recon', qs)
    \<and> list_all2 (arrives_as h) ps qs"
  by (rule transfer_all [OF assms])

definition sample_binary_event :: sio_packet where
  "sample_binary_event =
     \<lparr>sp_Type = Event, sp_Nsp = ''/'', sp_ID = -1, sp_Data = sample_binary, sp_Attachments = 0\<rparr>"

lemma sample_binary_event_ok: "transferable sample_readers sample_binary_event"
  using sample_binary_ok
  by (simp add: transferable_def sample_binary_event_def sendable_def sample_binary_def wf_nsp_def
      max_int64_def isReservedEvent_def reservedEvents_def)

lemma sample_event_ok: "transferable sample_readers sample_event"
  by (simp add: transferable_def sample_event_def sendable_def wf_nsp_def max_int64_def
      isReservedEvent_def reservedEvents_def readable_def valid_utf8_ascii is_ascii_def)

theorem wire_stream_roundtrip_witness:
  "\<exists>msgs h' recon' qs. sendPackets [sample_binary_event, sample_event] sample_readers = (msgs, h')
    \<and> receive None msgs = (recon', qs)
    \<and> list_all2 (arrives_as sample_readers) [sample_binary_event, sample_event] qs"
  using sample_binary_event_ok sample_event_ok
  by (intro wire_stream_roundtrip)
    (simp_all add: sample_binary_event_def sample_event_def sample_binary_def)

text \<open>
  C38. \<^verbatim>\<open>sendPacket\<close> hands the header and the attachments of a binary packet to the
  connection one message at a time, without holding a lock. When the messages of two binary
  packets with one attachment each interleave, header after header and then attachment after
  attachment, the receiver loses the first packet and gives its attachment to the second.\<close>

theorem interleaved_binary_sends_mix:
  assumes "transferable h p1" and "hasBinary (sp_Data p1)" and "sendPacket p1 h = ([m1, a1], h1)"
    and "transferable h1 p2" and "hasBinary (sp_Data p2)" and "sendPacket p2 h1 = ([m2, a2], h2)"
  shows "\<exists>q pkt2. m2 = (Encode pkt2, False) \<and> receive recon [m1, m2, a1, a2] = (None, [q])
    \<and> sp_Type q = sp_Type p2 \<and> sp_Nsp q = sp_Nsp p2 \<and> sp_ID q = sp_ID p2
    \<and> sp_Data q = reconstruct (json_form (sp_Data pkt2)) [fst a1]"
proof -
  obtain pkt1 bufs1 where 1: "[m1, a1] = (Encode pkt1, False) # map (\<lambda>b. (b, True)) bufs1"
    "handleIn recon (Encode pkt1) False
       = (Some \<lparr>rc_pkt = pkt1\<lparr>sp_Data := json_form (sp_Data pkt1)\<rparr>, rc_bufs = []\<rparr>, None)"
    using binary_header [OF assms(1,2)] assms(3) by (metis prod.inject)
  obtain pkt2 bufs2 where 2: "[m2, a2] = (Encode pkt2, False) # map (\<lambda>b. (b, True)) bufs2"
    "\<And>recon. handleIn recon (Encode pkt2) False
       = (Some \<lparr>rc_pkt = pkt2\<lparr>sp_Data := json_form (sp_Data pkt2)\<rparr>, rc_bufs = []\<rparr>, None)"
    "sp_Attachments pkt2 = int (length bufs2)" "binaryToPlain (sp_Type pkt2) = sp_Type p2"
    "sp_Nsp pkt2 = sp_Nsp p2" "sp_ID pkt2 = sp_ID p2"
    using binary_header [OF assms(4,5)] assms(6) by (metis prod.inject)
  obtain b1 b2 where b: "a1 = (b1, True)" "a2 = (b2, True)" "length bufs2 = 1"
    using 1(1) 2(1) by auto
  have m: "m1 = (Encode pkt1, False)" "m2 = (Encode pkt2, False)"
    using 1(1) 2(1) by auto
  show ?thesis
    using 1(2) 2(2-) b m by (intro exI [of _ "pkt2\<lparr>sp_Data := reconstruct (json_form (sp_Data pkt2)) [b1],
      sp_Type := sp_Type p2\<rparr>"] exI [of _ pkt2]) (simp add: handleIn_binary feedBinary_def)
qed

definition one_attachment :: "string \<Rightarrow> sio_packet" where
  "one_attachment b =
     \<lparr>sp_Type = Event, sp_Nsp = ''/'', sp_ID = -1, sp_Data = VArr [VStr ''up'', VBytes b],
      sp_Attachments = 0\<rparr>"

lemma one_attachment_ok: "transferable h (one_attachment b) \<and> hasBinary (sp_Data (one_attachment b))"
  by (simp add: transferable_def one_attachment_def sendable_def wf_nsp_def max_int64_def
      isReservedEvent_def reservedEvents_def readable_def valid_utf8_ascii is_ascii_def)

lemma one_attachment_send:
  "\<exists>m. sendPacket (one_attachment b) h = ([m, (b, True)], h)"
  by (auto simp: sendPacket_def one_attachment_def)

theorem interleaved_binary_sends_mix_witness:
  "\<exists>m1 m2 q. sendPacket (one_attachment ''A'') sample_readers = ([m1, (''A'', True)], sample_readers)
    \<and> sendPacket (one_attachment ''B'') sample_readers = ([m2, (''B'', True)], sample_readers)
    \<and> receive None [m1, m2, (''A'', True), (''B'', True)] = (None, [q])"
proof -
  obtain m1 where m1: "sendPacket (one_attachment ''A'') sample_readers = ([m1, (''A'', True)], sample_readers)"
    using one_attachment_send by blast
  obtain m2 where m2: "sendPacket (one_attachment ''B'') sample_readers = ([m2, (''B'', True)], sample_readers)"
    using one_attachment_send by blast
  from interleaved_binary_sends_mix [OF _ _ m1 _ _ m2, of None] one_attachment_ok m1 m2 show ?thesis
    by blast
qed

end
