(* ===== verification/AckTable.thy ===== *)
theory AckTable
  imports GoValue "HOL-Library.AList"
begin

text \<open>
  The table of pending acknowledgements (\<^verbatim>\<open>socketio/ack.go\<close>), shared by the server's
  sockets and the client. The lemmas show that the ids it hands out are fresh and that a
  registered callback is called at most once.
\<close>

section \<open>Operations\<close>

text \<open>Callbacks are function values of the caller; the table only stores and calls them.\<close>

type_synonym callback = nat

record ackTable =
  at_seq :: int
  at_cbs :: "(int \<times> callback option) list"

definition newAckTable :: ackTable where
  "newAckTable = \<lparr>at_seq = 0, at_cbs = []\<rparr>"

text \<open>\<^verbatim>\<open>int64\<close> increment with its wrap-around.\<close>

definition inc64 :: "int \<Rightarrow> int" where
  "inc64 i = (if i = max_int64 then min_int64 else i + 1)"

text \<open>\<^verbatim>\<open>next\<close>: the id handed out is the incremented counter.\<close>

definition ack_next :: "ackTable \<Rightarrow> int \<times> ackTable" where
  "ack_next t = (inc64 (at_seq t), t\<lparr>at_seq := inc64 (at_seq t)\<rparr>)"

definition ack_register :: "int \<Rightarrow> callback option \<Rightarrow> ackTable \<Rightarrow> ackTable" where
  "ack_register i cb t = t\<lparr>at_cbs := AList.update i cb (at_cbs t)\<rparr>"

text \<open>
  \<^verbatim>\<open>invoke\<close>: the table without the entry, the call that is made (none for a nil callback)
  and the returned boolean.
\<close>

definition ack_invoke ::
  "int \<Rightarrow> val list \<Rightarrow> ackTable \<Rightarrow> ackTable \<times> (callback \<times> val list) option \<times> bool" where
  "ack_invoke i args t =
     (case map_of (at_cbs t) i of
        None \<Rightarrow> (t, None, False)
      | Some cb \<Rightarrow>
          (t\<lparr>at_cbs := AList.delete i (at_cbs t)\<rparr>, map_option (\<lambda>f. (f, args)) cb, True))"

definition ack_remove :: "int \<Rightarrow> ackTable \<Rightarrow> ackTable" where
  "ack_remove i t = t\<lparr>at_cbs := AList.delete i (at_cbs t)\<rparr>"

definition ack_clear :: "ackTable \<Rightarrow> ackTable" where
  "ack_clear t = t\<lparr>at_cbs := []\<rparr>"

section \<open>Invariant\<close>

text \<open>
  Ids in use were handed out before, one entry each. Ids come from \<open>ack_next\<close> only, as in
  the two \<^verbatim>\<open>EmitWithAck\<close> methods.
\<close>

definition ack_inv :: "ackTable \<Rightarrow> bool" where
  "ack_inv t \<longleftrightarrow>
     0 \<le> at_seq t \<and> distinct (map fst (at_cbs t)) \<and> (\<forall>i\<in>fst ` set (at_cbs t). 0 < i \<and> i \<le> at_seq t)"

lemma ack_inv_new [inv_simps]: "ack_inv newAckTable"
  by (simp add: ack_inv_def newAckTable_def)

lemma ack_inv_next [inv_simps]:
  "ack_inv t \<Longrightarrow> at_seq t < max_int64 \<Longrightarrow> ack_inv (snd (ack_next t))"
  by (auto simp: ack_inv_def ack_next_def inc64_def)

lemma ack_inv_register [inv_simps]:
  "ack_inv t \<Longrightarrow> 0 < i \<Longrightarrow> i \<le> at_seq t \<Longrightarrow> ack_inv (ack_register i cb t)"
  by (auto simp: ack_inv_def ack_register_def dom_update distinct_update)

lemma ack_inv_delete:
  "ack_inv t \<Longrightarrow> ack_inv (t\<lparr>at_cbs := AList.delete i (at_cbs t)\<rparr>)"
  by (auto simp: ack_inv_def AList.delete_eq distinct_map_filter)

lemma ack_inv_invoke [inv_simps]: "ack_inv t \<Longrightarrow> ack_inv (fst (ack_invoke i args t))"
  by (auto simp: ack_invoke_def ack_inv_delete split: option.splits)

lemma ack_inv_remove [inv_simps]: "ack_inv t \<Longrightarrow> ack_inv (ack_remove i t)"
  by (simp add: ack_remove_def ack_inv_delete)

lemma ack_inv_clear [inv_simps]: "ack_inv t \<Longrightarrow> ack_inv (ack_clear t)"
  by (simp add: ack_inv_def ack_clear_def)

lemma at_cbs_next [simp]: "at_cbs (snd (ack_next t)) = at_cbs t"
  by (simp add: ack_next_def)

lemma ack_invoke_lookup [op_simps]:
  "map_of (at_cbs (fst (ack_invoke i args t))) j = (if j = i then None else map_of (at_cbs t) j)"
  by (auto simp: ack_invoke_def delete_conv split: option.splits)

section \<open>At most one call per id\<close>

text \<open>
  The uses of the table: an emit with acknowledgement takes an id and registers its callback
  under it; an acknowledgement packet invokes; a disconnect clears.
\<close>

datatype ack_op = AckEmit callback | AckReply int "val list" | AckRemove int | AckClear

fun ack_step :: "ack_op \<Rightarrow> ackTable \<Rightarrow> (int \<times> callback \<times> val list) list \<times> ackTable" where
  "ack_step (AckEmit cb) t =
     (case ack_next t of (i, t') \<Rightarrow> ([], ack_register i (Some cb) t'))"
| "ack_step (AckReply i args) t =
     (case ack_invoke i args t of
        (t', None, _) \<Rightarrow> ([], t')
      | (t', Some (cb, as), _) \<Rightarrow> ([(i, cb, as)], t'))"
| "ack_step (AckRemove i) t = ([], ack_remove i t)"
| "ack_step AckClear t = ([], ack_clear t)"

fun ack_run :: "ack_op list \<Rightarrow> ackTable \<Rightarrow> (int \<times> callback \<times> val list) list" where
  "ack_run [] t = []"
| "ack_run (op # ops) t = (case ack_step op t of (calls, t') \<Rightarrow> calls @ ack_run ops t')"

fun emitted :: "ack_op list \<Rightarrow> callback list" where
  "emitted [] = []"
| "emitted (AckEmit cb # ops) = cb # emitted ops"
| "emitted (_ # ops) = emitted ops"

lemma ack_step_inv:
  assumes "ack_inv t" and "at_seq t < max_int64"
  shows "ack_inv (snd (ack_step op t))"
proof (cases op)
  case (AckEmit cb)
  have "ack_inv (ack_register (at_seq t + 1) (Some cb) (snd (ack_next t)))"
    using assms ack_inv_next [OF assms] by (intro ack_inv_register) (auto simp: ack_next_def inc64_def ack_inv_def)
  then show ?thesis
    using AckEmit assms(2) by (simp add: ack_next_def inc64_def)
next
  case (AckReply i args)
  then show ?thesis
    using ack_inv_invoke [OF assms(1), of i args] by (auto split: prod.splits option.splits)
qed (simp_all add: assms inv_simps)

lemma ack_step_seq:
  "at_seq t < max_int64 \<Longrightarrow>
   at_seq (snd (ack_step op t)) = at_seq t + (case op of AckEmit _ \<Rightarrow> 1 | _ \<Rightarrow> 0)"
  by (cases op)
    (auto simp: ack_next_def inc64_def ack_register_def ack_invoke_def ack_remove_def ack_clear_def
      split: option.splits)

text \<open>Where the calls of a run come from: the table at the start, or a later emit.\<close>

definition call_source :: "ack_op list \<Rightarrow> ackTable \<Rightarrow> int \<Rightarrow> callback \<Rightarrow> bool" where
  "call_source ops t i cb \<longleftrightarrow>
     (if i \<le> at_seq t then map_of (at_cbs t) i = Some (Some cb)
      else nat (i - at_seq t - 1) < length (emitted ops) \<and> emitted ops ! nat (i - at_seq t - 1) = cb)"

lemma call_source_step:
  assumes "ack_inv t" and "at_seq t < max_int64"
    and "call_source ops (snd (ack_step op t)) i cb"
  shows "call_source (op # ops) t i cb"
proof (cases op)
  case (AckEmit c)
  have t': "at_seq (snd (ack_step op t)) = at_seq t + 1"
    "at_cbs (snd (ack_step op t)) = AList.update (at_seq t + 1) (Some c) (at_cbs t)"
    using AckEmit assms(2) by (simp_all add: ack_next_def inc64_def ack_register_def)
  have src: "if i \<le> at_seq t + 1 then map_of (AList.update (at_seq t + 1) (Some c) (at_cbs t)) i = Some (Some cb)
      else nat (i - (at_seq t + 1) - 1) < length (emitted ops)
        \<and> emitted ops ! nat (i - (at_seq t + 1) - 1) = cb"
    using assms(3) unfolding call_source_def t' .
  consider "i \<le> at_seq t" | "i = at_seq t + 1" | "at_seq t + 1 < i"
    by linarith
  then show ?thesis
  proof cases
    case 3
    then have "nat (i - at_seq t - 1) = Suc (nat (i - (at_seq t + 1) - 1))"
      by simp
    with 3 show ?thesis
      using src AckEmit by (simp add: call_source_def)
  qed (use src AckEmit in \<open>simp_all add: call_source_def update_conv\<close>)
next
  case (AckReply j args)
  have "at_seq (snd (ack_step op t)) = at_seq t"
    using ack_step_seq [OF assms(2), of op] AckReply by simp
  moreover have "map_of (at_cbs (snd (ack_step op t))) i = Some v \<Longrightarrow> map_of (at_cbs t) i = Some v" for v
    using AckReply ack_invoke_lookup [of j args t i]
    by (auto split: prod.splits option.splits if_splits)
  ultimately show ?thesis
    using assms(3) AckReply by (auto simp: call_source_def)
next
  case (AckRemove j)
  then show ?thesis
    using assms(3) by (auto simp: call_source_def ack_remove_def delete_conv split: if_splits)
next
  case AckClear
  then show ?thesis
    using assms(3) by (auto simp: call_source_def ack_clear_def split: if_splits)
qed

lemma ack_step_calls:
  "fst (ack_step op t) = [] \<or> (\<exists>i cb args. fst (ack_step op t) = [(i, cb, args)]
     \<and> map_of (at_cbs t) i = Some (Some cb) \<and> map_of (at_cbs (snd (ack_step op t))) i = None)"
  by (cases op) (auto simp: ack_next_def ack_invoke_def delete_conv' split: option.splits)

lemma ack_run_calls:
  assumes "ack_inv t" and "at_seq t + int (length ops) \<le> max_int64"
  shows "(\<forall>(i, cb, args)\<in>set (ack_run ops t). call_source ops t i cb)
    \<and> distinct (map fst (ack_run ops t))"
  using assms
proof (induction ops arbitrary: t)
  case (Cons op ops)
  obtain calls t' where s: "ack_step op t = (calls, t')"
    by fastforce
  have seq: "at_seq t < max_int64"
    using Cons.prems(2) by simp
  have t': "ack_inv t'" "at_seq t \<le> at_seq t'" "at_seq t' + int (length ops) \<le> max_int64"
    using ack_step_inv [OF Cons.prems(1) seq, of op] ack_step_seq [OF seq, of op] Cons.prems(2) s
    by (auto split: ack_op.splits)
  note ih = Cons.IH [OF t'(1,3)]
  have rest: "call_source (op # ops) t i cb" if "(i, cb, args) \<in> set (ack_run ops t')" for i cb args
    using ih that call_source_step [OF Cons.prems(1) seq, of ops op i cb] s by auto
  consider "calls = []" | i cb args where "calls = [(i, cb, args)]" "map_of (at_cbs t) i = Some (Some cb)"
    "map_of (at_cbs t') i = None"
    using ack_step_calls [of op t] s by auto
  then show ?case
  proof cases
    case 1
    then show ?thesis
      using ih rest s by auto
  next
    case (2 i cb args)
    have i: "i \<le> at_seq t"
      using 2(2) Cons.prems(1) by (auto simp: ack_inv_def dest: map_of_SomeD)
    have "i \<notin> fst ` set (ack_run ops t')"
      using ih 2(3) i t'(2) by (fastforce simp: call_source_def)
    then show ?thesis
      using ih rest s 2 i by (auto simp: call_source_def)
  qed
qed simp

text \<open>
  C8. However emits, acknowledgement packets, removals and clears follow each other, no
  acknowledgement id is called twice, and the callback called under an id is the one whose
  emit was given that id: the \<open>i\<close>-th emit with acknowledgement carries id \<open>i\<close>. (The hypothesis
  keeps the \<^verbatim>\<open>int64\<close> counter from wrapping.)\<close>

theorem ack_called_at_most_once:
  assumes "int (length ops) \<le> max_int64"
  shows "distinct (map fst (ack_run ops newAckTable))
    \<and> (\<forall>(i, cb, args)\<in>set (ack_run ops newAckTable).
         0 < i \<and> nat i \<le> length (emitted ops) \<and> cb = emitted ops ! nat (i - 1))"
proof -
  have "0 < i \<and> nat i \<le> length (emitted ops) \<and> cb = emitted ops ! nat (i - 1)"
    if "call_source ops newAckTable i cb" for i cb
    using that by (auto simp: call_source_def newAckTable_def split: if_splits)
  then show ?thesis
    using ack_run_calls [OF ack_inv_new, of ops] assms by (fastforce simp: newAckTable_def)
qed

theorem ack_called_at_most_once_witness:
  "distinct (map fst (ack_run [AckEmit 7, AckEmit 8, AckReply 2 [], AckReply 2 []] newAckTable))
   \<and> ack_run [AckEmit 7, AckEmit 8, AckReply 2 [], AckReply 2 []] newAckTable = [(2, 8, [])]"
  using ack_called_at_most_once [of "[AckEmit 7, AckEmit 8, AckReply 2 [], AckReply 2 []]"]
  by (simp add: newAckTable_def ack_next_def ack_register_def ack_invoke_def inc64_def max_int64_def)

end
