(* ===== verification/PacketQueue.thy ===== *)
theory PacketQueue
  imports Prelude
begin

text \<open>
  The unbounded FIFO between the transport read loop and the packet processor
  (\<^verbatim>\<open>packetQueue\<close> of \<^verbatim>\<open>socketio/server.go\<close>, also used by the client). What a consumer
  relies on is the locale \<open>fifo\<close>, interpreted on the queue's operations.
\<close>

section \<open>Operations\<close>

record inPacket =
  ip_data :: bytes
  ip_binary :: bool

record packetQueue =
  pq_items :: "inPacket list"
  pq_closed :: bool

definition newPacketQueue :: packetQueue where
  "newPacketQueue = \<lparr>pq_items = [], pq_closed = False\<rparr>"

definition pq_push :: "inPacket \<Rightarrow> packetQueue \<Rightarrow> packetQueue" where
  "pq_push p q = (if pq_closed q then q else q\<lparr>pq_items := pq_items q @ [p]\<rparr>)"

text \<open>
  The outcome of \<^verbatim>\<open>pop\<close>: it waits while the queue is open and empty, returns
  \<^verbatim>\<open>(nil, false)\<close> when it is closed and empty, and the oldest item otherwise.
\<close>

datatype pop_result = PopWait | PopClosed | PopItem inPacket

definition pq_pop :: "packetQueue \<Rightarrow> pop_result \<times> packetQueue" where
  "pq_pop q =
     (case pq_items q of
        [] \<Rightarrow> (if pq_closed q then PopClosed else PopWait, q)
      | p # ps \<Rightarrow> (PopItem p, q\<lparr>pq_items := ps\<rparr>))"

definition pq_close :: "packetQueue \<Rightarrow> packetQueue" where
  "pq_close q = q\<lparr>pq_closed := True\<rparr>"

section \<open>The contract\<close>

text \<open>
  A FIFO over its list of pending items: pushing appends unless the queue is closed,
  popping takes the oldest item also after the queue was closed.
\<close>

locale fifo =
  fixes items :: "'q \<Rightarrow> 'a list" and closed :: "'q \<Rightarrow> bool"
    and push :: "'a \<Rightarrow> 'q \<Rightarrow> 'q" and pop :: "'q \<Rightarrow> 'a option \<times> 'q" and close :: "'q \<Rightarrow> 'q"
  assumes items_push: "items (push x q) = (if closed q then items q else items q @ [x])"
    and closed_push: "closed (push x q) = closed q"
    and pop_Nil: "items q = [] \<Longrightarrow> pop q = (None, q)"
    and pop_Cons: "items q = x # xs \<Longrightarrow> fst (pop q) = Some x \<and> items (snd (pop q)) = xs"
    and closed_pop: "closed (snd (pop q)) = closed q"
    and items_close: "items (close q) = items q" and closed_close: "closed (close q)"
begin

primrec drain :: "nat \<Rightarrow> 'q \<Rightarrow> 'a list \<times> 'q" where
  "drain 0 q = ([], q)"
| "drain (Suc n) q =
     (case pop q of
        (None, q') \<Rightarrow> ([], q')
      | (Some x, q') \<Rightarrow> (case drain n q' of (xs, q'') \<Rightarrow> (x # xs, q'')))"

lemma items_fold_push:
  "\<not> closed q \<Longrightarrow> items (fold push xs q) = items q @ xs \<and> \<not> closed (fold push xs q)"
  by (induction xs arbitrary: q) (simp_all add: items_push closed_push)

lemma drain_items:
  "fst (drain n q) = take n (items q) \<and> items (snd (drain n q)) = drop n (items q)"
proof (induction n arbitrary: q)
  case (Suc n)
  show ?case
  proof (cases "items q")
    case Nil
    then show ?thesis
      using pop_Nil by simp
  next
    case (Cons x xs)
    then obtain q' where "pop q = (Some x, q')" "items q' = xs"
      using pop_Cons by (metis prod.collapse)
    then show ?thesis
      using Suc [of q'] Cons by (simp add: case_prod_beta)
  qed
qed simp

lemma closed_drain: "closed (snd (drain n q)) = closed q"
proof (induction n arbitrary: q)
  case (Suc n)
  obtain r q' where "pop q = (r, q')"
    by fastforce
  then show ?case
    using closed_pop [of q] Suc [of q'] by (cases r) (simp_all add: case_prod_beta)
qed simp

text \<open>Everything pushed before a close is delivered in order, pushes after it are lost.\<close>

lemma drain_after_close:
  assumes "\<not> closed q" and "length (items q) + length xs \<le> n"
    and "q' = fold push ys (close (fold push xs q))"
  shows "fst (drain n q') = items q @ xs \<and> items (snd (drain n q')) = [] \<and> closed (snd (drain n q'))"
proof -
  have c: "closed (fold push ys r) \<and> items (fold push ys r) = items r" if "closed r" for r
    using that by (induction ys arbitrary: r) (simp_all add: items_push closed_push)
  have "items q' = items q @ xs" "closed q'"
    using c [OF closed_close] items_fold_push [OF assms(1)] assms(3) by (simp_all add: items_close)
  then show ?thesis
    using drain_items [of n q'] closed_drain [of n q'] assms(2) by simp
qed

end

definition pop_item :: "packetQueue \<Rightarrow> inPacket option \<times> packetQueue" where
  "pop_item q = (case pq_pop q of (PopItem p, q') \<Rightarrow> (Some p, q') | (_, q') \<Rightarrow> (None, q'))"

interpretation pq: fifo pq_items pq_closed pq_push pop_item pq_close
  by unfold_locales
    (auto simp: pq_push_def pq_pop_def pop_item_def pq_close_def split: list.splits)

lemma pq_pop_wait_iff: "fst (pq_pop q) = PopWait \<longleftrightarrow> pq_items q = [] \<and> \<not> pq_closed q"
  by (auto simp: pq_pop_def split: list.splits)

section \<open>Properties of the queue\<close>

text \<open>
  The loop of \<^verbatim>\<open>processLoop\<close> over a queue that nobody pushes to any more: the packets it
  hands to \<^verbatim>\<open>handleIn\<close> and what the last \<^verbatim>\<open>pop\<close> answered.
\<close>

fun pq_loop :: "nat \<Rightarrow> packetQueue \<Rightarrow> inPacket list \<times> pop_result" where
  "pq_loop 0 q = ([], fst (pq_pop q))"
| "pq_loop (Suc n) q =
     (case pq_pop q of
        (PopItem p, q') \<Rightarrow> (case pq_loop n q' of (ps, r) \<Rightarrow> (p # ps, r))
      | (r, _) \<Rightarrow> ([], r))"

lemma pq_loop_eq: "pq_loop n q = (fst (pq.drain n q), fst (pq_pop (snd (pq.drain n q))))"
proof (induction n arbitrary: q)
  case (Suc n)
  show ?case
  proof (cases "pq_items q")
    case Nil
    then have "pop_item q = (None, q)" "pq_pop q = (if pq_closed q then PopClosed else PopWait, q)"
      by (simp_all add: pop_item_def pq_pop_def)
    then show ?thesis
      by simp
  next
    case (Cons p ps)
    then have "pop_item q = (Some p, q\<lparr>pq_items := ps\<rparr>)" "pq_pop q = (PopItem p, q\<lparr>pq_items := ps\<rparr>)"
      by (simp_all add: pop_item_def pq_pop_def)
    then show ?thesis
      by (simp add: Suc case_prod_beta)
  qed
qed simp

text \<open>
  C22. The packets pushed before the queue is closed come out in the order they were pushed,
  also after the close; packets pushed after the close never come out, and the processing
  loop ends instead of waiting for more.\<close>

theorem queue_delivers_in_order:
  assumes "length xs \<le> n"
  shows "pq_loop n (fold pq_push ys (pq_close (fold pq_push xs newPacketQueue))) = (xs, PopClosed)"
proof -
  let ?q = "fold pq_push ys (pq_close (fold pq_push xs newPacketQueue))"
  have "fst (pq.drain n ?q) = xs" "pq_items (snd (pq.drain n ?q)) = []" "pq_closed (snd (pq.drain n ?q))"
    using pq.drain_after_close [of newPacketQueue xs n ?q ys] assms by (simp_all add: newPacketQueue_def)
  then have "fst (pq_pop (snd (pq.drain n ?q))) = PopClosed"
    unfolding pq_pop_def by (simp split: list.split)
  with \<open>fst (pq.drain n ?q) = xs\<close> show ?thesis
    by (simp add: pq_loop_eq)
qed

theorem queue_delivers_in_order_witness:
  "pq_loop 2 (fold pq_push [\<lparr>ip_data = ''9'', ip_binary = False\<rparr>]
     (pq_close (fold pq_push [\<lparr>ip_data = ''0'', ip_binary = False\<rparr>, \<lparr>ip_data = ''1'', ip_binary = True\<rparr>]
        newPacketQueue)))
   = ([\<lparr>ip_data = ''0'', ip_binary = False\<rparr>, \<lparr>ip_data = ''1'', ip_binary = True\<rparr>], PopClosed)"
  by (rule queue_delivers_in_order) simp

end
