(* ===== verification/Adapter.thy ===== *)
theory Adapter
  imports Prelude "HOL-Library.AList"
begin

text \<open>
  The room and membership backend of a namespace (\<^verbatim>\<open>socketio/adapter.go\<close>). The
  \<^verbatim>\<open>Adapter\<close> interface is the locale \<open>adapter\<close>: its laws state each operation's effect on a
  set of ids and a relation between rooms and ids. \<^verbatim>\<open>memoryAdapter\<close> is the model's
  implementation and interprets it. Each method runs under the adapter's lock and is one
  step; \<^verbatim>\<open>Broadcast\<close> calls \<^verbatim>\<open>deliver\<close> after releasing it.
\<close>

section \<open>Go sets\<close>

text \<open>
  A Go \<^verbatim>\<open>map[string]struct{}\<close> as a list without repetitions, in the order a \<^verbatim>\<open>range\<close>
  loop visits it.
\<close>

definition set_add :: "'a \<Rightarrow> 'a list \<Rightarrow> 'a list" where
  "set_add x xs = (if x \<in> set xs then xs else xs @ [x])"

lemma set_set_add [simp]: "set (set_add x xs) = insert x (set xs)"
  by (auto simp: set_add_def)

lemma distinct_set_add [simp]: "distinct (set_add x xs) = distinct xs"
  by (auto simp: set_add_def)

lemma set_add_nonempty [simp]: "set_add x xs \<noteq> []"
  by (auto simp: set_add_def)

section \<open>The memory adapter\<close>

record memoryAdapter =
  ma_ids :: "string list"
  ma_rooms :: "(string \<times> string list) list"

definition NewMemoryAdapter :: memoryAdapter where
  "NewMemoryAdapter = \<lparr>ma_ids = [], ma_rooms = []\<rparr>"

text \<open>\<^verbatim>\<open>rooms[room][id] = struct{}{}\<close> after creating the inner map when it is missing.\<close>

definition join_room :: "string \<Rightarrow> string \<Rightarrow> (string \<times> string list) list \<Rightarrow> (string \<times> string list) list" where
  "join_room room i rooms =
     (let rooms' = (if map_of rooms room = None then AList.update room [] rooms else rooms)
      in AList.update room (set_add i (the (map_of rooms' room))) rooms')"

definition AddSocket :: "string \<Rightarrow> memoryAdapter \<Rightarrow> memoryAdapter" where
  "AddSocket i a = a\<lparr>ma_ids := set_add i (ma_ids a), ma_rooms := join_room i i (ma_rooms a)\<rparr>"

text \<open>The loop of \<^verbatim>\<open>RemoveSocket\<close> over the rooms.\<close>

fun leave_all :: "string \<Rightarrow> (string \<times> string list) list \<Rightarrow> (string \<times> string list) list" where
  "leave_all i [] = []"
| "leave_all i ((room, m) # rooms) =
     (if i \<in> set m then
        (if removeAll i m = [] then leave_all i rooms
         else (room, removeAll i m) # leave_all i rooms)
      else (room, m) # leave_all i rooms)"

definition RemoveSocket :: "string \<Rightarrow> memoryAdapter \<Rightarrow> memoryAdapter" where
  "RemoveSocket i a =
     a\<lparr>ma_ids := removeAll i (ma_ids a), ma_rooms := leave_all i (ma_rooms a)\<rparr>"

definition AddToRoom :: "string \<Rightarrow> string \<Rightarrow> memoryAdapter \<Rightarrow> memoryAdapter" where
  "AddToRoom room i a = a\<lparr>ma_rooms := join_room room i (ma_rooms a)\<rparr>"

definition RemoveFromRoom :: "string \<Rightarrow> string \<Rightarrow> memoryAdapter \<Rightarrow> memoryAdapter" where
  "RemoveFromRoom room i a =
     (case map_of (ma_rooms a) room of
        None \<Rightarrow> a
      | Some m \<Rightarrow>
          (if removeAll i m = [] then a\<lparr>ma_rooms := AList.delete room (ma_rooms a)\<rparr>
           else a\<lparr>ma_rooms := AList.update room (removeAll i m) (ma_rooms a)\<rparr>))"

definition excepted :: "string list \<Rightarrow> string \<Rightarrow> bool" where
  "excepted except i \<longleftrightarrow> i \<in> set except"

text \<open>The ids a broadcast delivers to, in order, and the delivery loop.\<close>

definition targets :: "string \<Rightarrow> string list \<Rightarrow> memoryAdapter \<Rightarrow> string list" where
  "targets room except a =
     (if room \<noteq> []
      then filter (\<lambda>i. \<not> excepted except i) (case map_of (ma_rooms a) room of None \<Rightarrow> [] | Some m \<Rightarrow> m)
      else filter (\<lambda>i. \<not> excepted except i) (ma_ids a))"

definition Broadcast ::
  "string \<Rightarrow> string list \<Rightarrow> (string \<Rightarrow> 's \<Rightarrow> 's) option \<Rightarrow> memoryAdapter \<Rightarrow> 's \<Rightarrow> 's" where
  "Broadcast room except deliver a s =
     (case deliver of None \<Rightarrow> s | Some f \<Rightarrow> fold f (targets room except a) s)"

definition Sockets :: "memoryAdapter \<Rightarrow> string list" where
  "Sockets a = ma_ids a"

definition SocketsCount :: "memoryAdapter \<Rightarrow> nat" where
  "SocketsCount a = length (ma_ids a)"

section \<open>The adapter contract\<close>

text \<open>Membership as the interface describes it: who is registered, and who is in which room.\<close>

record membership =
  mem_ids :: "string set"
  mem_rooms :: "(string \<times> string) set"

datatype adapter_op =
    OpAddSocket string | OpRemoveSocket string | OpAddToRoom string string | OpRemoveFromRoom string string

fun spec_op :: "adapter_op \<Rightarrow> membership \<Rightarrow> membership" where
  "spec_op (OpAddSocket i) m =
     m\<lparr>mem_ids := insert i (mem_ids m), mem_rooms := insert (i, i) (mem_rooms m)\<rparr>"
| "spec_op (OpRemoveSocket i) m =
     m\<lparr>mem_ids := mem_ids m - {i}, mem_rooms := {(r, j) \<in> mem_rooms m. j \<noteq> i}\<rparr>"
| "spec_op (OpAddToRoom r i) m = m\<lparr>mem_rooms := insert (r, i) (mem_rooms m)\<rparr>"
| "spec_op (OpRemoveFromRoom r i) m = m\<lparr>mem_rooms := mem_rooms m - {(r, i)}\<rparr>"

definition spec_targets :: "string \<Rightarrow> string set \<Rightarrow> membership \<Rightarrow> string set" where
  "spec_targets room except m =
     (if room \<noteq> [] then {i. (room, i) \<in> mem_rooms m} else mem_ids m) - except"

text \<open>An operation that puts an id (back) into the adapter.\<close>

fun adds :: "string \<Rightarrow> adapter_op \<Rightarrow> bool" where
  "adds i (OpAddSocket j) \<longleftrightarrow> i = j"
| "adds i (OpAddToRoom r j) \<longleftrightarrow> i = j"
| "adds i _ \<longleftrightarrow> False"

locale adapter =
  fixes abs :: "'a \<Rightarrow> membership" and inv :: "'a \<Rightarrow> bool" and new :: 'a
    and apply_op :: "adapter_op \<Rightarrow> 'a \<Rightarrow> 'a"
    and deliver_to :: "string \<Rightarrow> string list \<Rightarrow> 'a \<Rightarrow> string list"
  assumes new_inv: "inv new" and new_abs: "abs new = \<lparr>mem_ids = {}, mem_rooms = {}\<rparr>"
    and op_inv: "inv a \<Longrightarrow> inv (apply_op op a)"
    and op_abs: "inv a \<Longrightarrow> abs (apply_op op a) = spec_op op (abs a)"
    and deliver_set: "inv a \<Longrightarrow> set (deliver_to room except a) = spec_targets room (set except) (abs a)"
    and deliver_once: "inv a \<Longrightarrow> distinct (deliver_to room except a)"
begin

lemma run_refines:
  "inv a \<Longrightarrow> inv (fold apply_op ops a) \<and> abs (fold apply_op ops a) = fold spec_op ops (abs a)"
  by (induction ops arbitrary: a) (simp_all add: op_inv op_abs)

text \<open>Once removed, an id is delivered to only after an operation that adds it again.\<close>

lemma spec_removed:
  assumes "\<forall>op\<in>set ops. \<not> adds i op" and "i \<notin> mem_ids m" and "\<forall>r. (r, i) \<notin> mem_rooms m"
  shows "i \<notin> mem_ids (fold spec_op ops m) \<and> (\<forall>r. (r, i) \<notin> mem_rooms (fold spec_op ops m))"
  using assms
proof (induction ops arbitrary: m)
  case (Cons op ops)
  have "i \<notin> mem_ids (spec_op op m)" "\<forall>r. (r, i) \<notin> mem_rooms (spec_op op m)"
    using Cons.prems by (cases op; auto)+
  then show ?case
    using Cons.prems(1) Cons.IH [of "spec_op op m"] by simp
qed simp

lemma removed_not_delivered:
  assumes "inv a" and "\<forall>op\<in>set ops. \<not> adds i op"
  shows "i \<notin> set (deliver_to room except (fold apply_op ops (apply_op (OpRemoveSocket i) a)))"
proof -
  let ?a = "apply_op (OpRemoveSocket i) a"
  have "inv ?a" "abs ?a = spec_op (OpRemoveSocket i) (abs a)"
    using assms(1) op_inv op_abs by blast+
  moreover have "i \<notin> mem_ids (fold spec_op ops (spec_op (OpRemoveSocket i) (abs a)))
      \<and> (\<forall>r. (r, i) \<notin> mem_rooms (fold spec_op ops (spec_op (OpRemoveSocket i) (abs a))))"
    using assms(2) by (intro spec_removed) auto
  ultimately show ?thesis
    using run_refines [of ?a ops] deliver_set by (auto simp: spec_targets_def)
qed

end

section \<open>The memory adapter meets the contract\<close>

definition ma_members :: "memoryAdapter \<Rightarrow> string \<Rightarrow> string list" where
  "ma_members a room = (case map_of (ma_rooms a) room of None \<Rightarrow> [] | Some m \<Rightarrow> m)"

definition ma_abs :: "memoryAdapter \<Rightarrow> membership" where
  "ma_abs a = \<lparr>mem_ids = set (ma_ids a), mem_rooms = {(r, i). i \<in> set (ma_members a r)}\<rparr>"

definition rooms_ok :: "(string \<times> string list) list \<Rightarrow> bool" where
  "rooms_ok rooms \<longleftrightarrow>
     distinct (map fst rooms) \<and> (\<forall>(r, m)\<in>set rooms. distinct m \<and> m \<noteq> [])"

definition ma_inv :: "memoryAdapter \<Rightarrow> bool" where
  "ma_inv a \<longleftrightarrow> distinct (ma_ids a) \<and> rooms_ok (ma_rooms a)"

fun ma_op :: "adapter_op \<Rightarrow> memoryAdapter \<Rightarrow> memoryAdapter" where
  "ma_op (OpAddSocket i) = AddSocket i"
| "ma_op (OpRemoveSocket i) = RemoveSocket i"
| "ma_op (OpAddToRoom r i) = AddToRoom r i"
| "ma_op (OpRemoveFromRoom r i) = RemoveFromRoom r i"

lemma rooms_ok_lookup: "rooms_ok rooms \<Longrightarrow> map_of rooms r = Some m \<Longrightarrow> distinct m \<and> m \<noteq> []"
  by (auto simp: rooms_ok_def dest!: map_of_SomeD)

lemma rooms_ok_update:
  assumes "rooms_ok rooms" and "distinct m" and "m \<noteq> []"
  shows "rooms_ok (AList.update r m rooms)"
proof -
  have "set (AList.update r m rooms) \<subseteq> insert (r, m) (set rooms)"
    by (induction rooms) auto
  then show ?thesis
    using assms by (auto simp: rooms_ok_def distinct_update)
qed

lemma join_room_eq:
  "join_room r i rooms =
     AList.update r (set_add i (case map_of rooms r of None \<Rightarrow> [] | Some m \<Rightarrow> m)) rooms"
proof (cases "map_of rooms r")
  case None
  have "AList.update r m (AList.update r m' rooms) = AList.update r m rooms" for m m' :: "string list"
    by (induction rooms) auto
  then show ?thesis
    using None by (simp add: join_room_def Let_def update_conv')
next
  case (Some m)
  then show ?thesis by (simp add: join_room_def)
qed

lemma rooms_ok_join: "rooms_ok rooms \<Longrightarrow> rooms_ok (join_room r i rooms)"
  unfolding join_room_eq
  by (intro rooms_ok_update) (auto split: option.splits dest: rooms_ok_lookup)

lemma lookup_join:
  "map_of (join_room r i rooms) r' =
     (if r' = r then Some (set_add i (case map_of rooms r of None \<Rightarrow> [] | Some m \<Rightarrow> m)) else map_of rooms r')"
  by (simp add: join_room_eq update_conv')

lemma leave_all_keys: "fst ` set (leave_all i rooms) \<subseteq> fst ` set rooms"
  by (induction i rooms rule: leave_all.induct) auto

lemma rooms_ok_Cons: "rooms_ok ((r, m) # rooms) \<longleftrightarrow>
    r \<notin> fst ` set rooms \<and> distinct m \<and> m \<noteq> [] \<and> rooms_ok rooms"
  by (auto simp: rooms_ok_def)

lemma rooms_ok_leave: "rooms_ok rooms \<Longrightarrow> rooms_ok (leave_all i rooms)"
proof (induction i rooms rule: leave_all.induct)
  case (2 i r m rooms)
  then show ?case
    using leave_all_keys [of i rooms] by (auto simp: rooms_ok_Cons distinct_removeAll)
qed (simp add: rooms_ok_def)

lemma lookup_leave:
  "rooms_ok rooms \<Longrightarrow>
   (case map_of (leave_all i rooms) r of None \<Rightarrow> [] | Some m \<Rightarrow> m)
   = removeAll i (case map_of rooms r of None \<Rightarrow> [] | Some m \<Rightarrow> m)"
proof (induction i rooms rule: leave_all.induct)
  case (2 i q m rooms)
  have "map_of (leave_all i rooms) q = None"
    using 2(4) leave_all_keys [of i rooms] by (auto simp: rooms_ok_Cons map_of_eq_None_iff)
  then show ?case
    using 2 by (auto simp: rooms_ok_Cons)
qed simp

lemma ma_members_remove_room:
  assumes "rooms_ok (ma_rooms a)"
  shows "ma_members (RemoveFromRoom r i a) r' =
    (if r' = r then removeAll i (ma_members a r') else ma_members a r')"
  by (auto simp: RemoveFromRoom_def ma_members_def delete_conv' update_conv' split: option.splits)

lemma rooms_ok_delete: "rooms_ok rooms \<Longrightarrow> rooms_ok (AList.delete r rooms)"
  by (simp add: rooms_ok_def AList.delete_eq distinct_map_filter)

lemma rooms_ok_remove_room:
  assumes "rooms_ok (ma_rooms a)"
  shows "rooms_ok (ma_rooms (RemoveFromRoom r i a))"
proof (cases "map_of (ma_rooms a) r")
  case (Some m)
  have d: "distinct (removeAll i m)"
    using rooms_ok_lookup [OF assms Some] by (simp add: distinct_removeAll)
  note upd = rooms_ok_update [OF assms d, of r]
  show ?thesis
    using rooms_ok_delete [OF assms, of r] upd by (simp add: RemoveFromRoom_def Some)
qed (simp add: RemoveFromRoom_def assms)

lemma ma_ids_remove_room [simp]: "ma_ids (RemoveFromRoom r i a) = ma_ids a"
  by (simp add: RemoveFromRoom_def split: option.split)

lemma ma_op_inv: "ma_inv a \<Longrightarrow> ma_inv (ma_op op a)"
  by (cases op)
    (simp_all add: ma_inv_def AddSocket_def RemoveSocket_def AddToRoom_def rooms_ok_join
      rooms_ok_leave rooms_ok_remove_room distinct_removeAll)

lemma ma_op_abs: "ma_inv a \<Longrightarrow> ma_abs (ma_op op a) = spec_op op (ma_abs a)"
proof (cases op)
  case (OpRemoveSocket i)
  assume "ma_inv a"
  then have "ma_members (RemoveSocket i a) r = removeAll i (ma_members a r)" for r
    by (simp add: ma_inv_def ma_members_def RemoveSocket_def lookup_leave)
  then show ?thesis
    using OpRemoveSocket by (auto simp: ma_abs_def RemoveSocket_def)
next
  case (OpRemoveFromRoom r i)
  assume "ma_inv a"
  then show ?thesis
    using OpRemoveFromRoom
    by (auto simp: ma_abs_def ma_inv_def ma_members_remove_room split: if_splits)
qed (auto simp: ma_abs_def ma_members_def AddSocket_def AddToRoom_def lookup_join split: option.splits if_splits)

lemma targets_set: "set (targets room except a) = spec_targets room (set except) (ma_abs a)"
  by (auto simp: targets_def spec_targets_def ma_abs_def ma_members_def excepted_def)

lemma targets_distinct: "ma_inv a \<Longrightarrow> distinct (targets room except a)"
  by (auto simp: targets_def ma_inv_def dest: rooms_ok_lookup split: option.splits)

interpretation mem: adapter ma_abs ma_inv NewMemoryAdapter ma_op targets
proof
  show "ma_inv NewMemoryAdapter" "ma_abs NewMemoryAdapter = \<lparr>mem_ids = {}, mem_rooms = {}\<rparr>"
    by (simp_all add: ma_inv_def rooms_ok_def ma_abs_def ma_members_def NewMemoryAdapter_def)
qed (simp_all add: ma_op_inv ma_op_abs targets_set targets_distinct)

section \<open>Properties of the adapter\<close>

text \<open>
  C20. After any sequence of operations the memory adapter holds exactly the ids and the
  room memberships that the sequence describes, and keeps its representation invariant (no
  id twice, no room twice, no empty room).\<close>

theorem memory_adapter_refines_membership:
  "ma_inv (fold ma_op ops NewMemoryAdapter)
   \<and> ma_abs (fold ma_op ops NewMemoryAdapter) = fold spec_op ops \<lparr>mem_ids = {}, mem_rooms = {}\<rparr>"
  using mem.run_refines [OF mem.new_inv, of ops] mem.new_abs by simp

text \<open>
  C21. After any sequence of operations a broadcast calls \<^verbatim>\<open>deliver\<close> exactly once for each
  member of the room (for each registered id when the room is empty) that is not excepted,
  and for nobody else.\<close>

theorem broadcast_reaches_members_once:
  "\<exists>ids. distinct ids
     \<and> set ids = spec_targets room (set except) (fold spec_op ops \<lparr>mem_ids = {}, mem_rooms = {}\<rparr>)
     \<and> Broadcast room except (Some deliver) (fold ma_op ops NewMemoryAdapter) s = fold deliver ids s"
proof -
  let ?a = "fold ma_op ops NewMemoryAdapter"
  have a: "ma_inv ?a" "ma_abs ?a = fold spec_op ops \<lparr>mem_ids = {}, mem_rooms = {}\<rparr>"
    using mem.run_refines [OF mem.new_inv, of ops] mem.new_abs by simp_all
  show ?thesis
    using mem.deliver_set [OF a(1)] mem.deliver_once [OF a(1)] a(2)
    by (intro exI [of _ "targets room except ?a"]) (simp add: Broadcast_def)
qed

text \<open>
  Once a socket's id has been removed, no broadcast to any room delivers to it until an
  operation adds the id again.\<close>

lemma removed_socket_not_delivered:
  assumes "\<forall>op\<in>set after. \<not> adds i op"
  shows "i \<notin> set (targets room except
    (fold ma_op (before @ OpRemoveSocket i # after) NewMemoryAdapter))"
proof -
  have "ma_inv (fold ma_op before NewMemoryAdapter)"
    using mem.run_refines [OF mem.new_inv] by blast
  from mem.removed_not_delivered [OF this assms] show ?thesis
    by simp
qed

end
