(* ===== verification/Emitter.thy ===== *)
theory Emitter
  imports Json
begin

text \<open>
  Calling event handlers by reflection (\<^verbatim>\<open>socketio/emitter.go\<close>): converting decoded
  arguments to the handler's parameter types, calling it, collecting its results. A panic of
  \<^verbatim>\<open>reflect.Value.Call\<close> is an outcome of its own, since nothing recovers from it.
\<close>

section \<open>Parameter types\<close>

text \<open>
  The types the source tells apart, the basic types with their JSON decoding, and any other
  type of the application as \<open>TyOther\<close>: how it decodes JSON text is code of the application
  and of its types, given as a function; the second argument is its zero value.
\<close>

datatype gotype =
    TySocket
  | TyAny
  | TyMap
  | TySlice
  | TyString
  | TyBool
  | TyFloat64
  | TyInt
  | TyBytes
  | TyOther "string \<Rightarrow> val option" val

text \<open>\<^verbatim>\<open>reflect.Zero\<close>; nil maps, slices and interfaces are \<open>VNil\<close>.\<close>

fun reflect_Zero :: "gotype \<Rightarrow> val" where
  "reflect_Zero TyString = VStr []"
| "reflect_Zero TyBool = VBool False"
| "reflect_Zero TyFloat64 = VNum (Dec False 0 0)"
| "reflect_Zero TyInt = VNum (Dec False 0 0)"
| "reflect_Zero (TyOther dec z) = z"
| "reflect_Zero _ = VNil"

section \<open>Decoding JSON into a type\<close>

text \<open>An element of a JSON array read into a \<^verbatim>\<open>[]byte\<close>.\<close>

definition decode_uint8 :: "val \<Rightarrow> char option" where
  "decode_uint8 v =
     (case v of
        VNil \<Rightarrow> Some (byte_of 0)
      | VNum d \<Rightarrow>
          (case atoi (format_num d) of
             None \<Rightarrow> None
           | Some i \<Rightarrow> if hd (format_num d) \<noteq> CHR ''-'' \<and> i < 256 then Some (byte_of (nat i)) else None)
      | _ \<Rightarrow> None)"

fun sequence :: "'a option list \<Rightarrow> 'a list option" where
  "sequence [] = Some []"
| "sequence (None # xs) = None"
| "sequence (Some x # xs) = map_option (Cons x) (sequence xs)"

text \<open>
  \<^verbatim>\<open>json.Unmarshal\<close> of a text, which reads as \<open>j\<close>, into a new value of a type; \<open>None\<close> is an
  error. A JSON null leaves the zero value.
\<close>

fun decode_into :: "gotype \<Rightarrow> string \<Rightarrow> val \<Rightarrow> val option" where
  "decode_into TyString text j =
     (case j of VNil \<Rightarrow> Some (VStr []) | VStr s \<Rightarrow> Some (VStr s) | _ \<Rightarrow> None)"
| "decode_into TyBool text j =
     (case j of VNil \<Rightarrow> Some (VBool False) | VBool b \<Rightarrow> Some (VBool b) | _ \<Rightarrow> None)"
| "decode_into TyFloat64 text j =
     (case j of VNil \<Rightarrow> Some (VNum (Dec False 0 0)) | VNum d \<Rightarrow> Some (VNum d) | _ \<Rightarrow> None)"
| "decode_into TyInt text j =
     (case j of
        VNil \<Rightarrow> Some (VNum (Dec False 0 0))
      | VNum d \<Rightarrow> map_option (\<lambda>_. VNum d) (atoi (format_num d))
      | _ \<Rightarrow> None)"
| "decode_into TyBytes text j =
     (case j of
        VNil \<Rightarrow> Some VNil
      | VStr s \<Rightarrow> map_option VBytes (b64_decode s)
      | VArr vs \<Rightarrow> map_option VBytes (sequence (map decode_uint8 vs))
      | _ \<Rightarrow> None)"
| "decode_into TySocket text j =
     (case j of VNil \<Rightarrow> Some VNil | VObj _ \<Rightarrow> Some (VObj []) | _ \<Rightarrow> None)"
| "decode_into (TyOther dec z) text j = dec text"
| "decode_into t text j = Some j"

text \<open>
  \<^verbatim>\<open>convertArg\<close>. For \<^verbatim>\<open>any\<close> and the two container types the decoded value is passed on
  as it is; otherwise it is marshalled and unmarshalled into the type. (Marshalling a value
  that came out of a packet never fails.)
\<close>

definition convertArg :: "val \<Rightarrow> gotype \<Rightarrow> val option" where
  "convertArg v t =
     (case t of
        TyAny \<Rightarrow> Some v
      | TyMap \<Rightarrow> Some v
      | TySlice \<Rightarrow> Some v
      | _ \<Rightarrow>
          (case unmarshal (marshal v) of
             None \<Rightarrow> None
           | Some j \<Rightarrow> decode_into t (marshal v) j))"

section \<open>Calling\<close>

text \<open>
  The check of \<^verbatim>\<open>reflect.Value.Call\<close> on an argument: \<^verbatim>\<open>reflect.ValueOf(nil)\<close> is the zero
  \<^verbatim>\<open>Value\<close>, which may not be passed, and a value must be assignable to the parameter. Only
  the arguments that are passed on unconverted can violate it.
\<close>

definition call_ok :: "gotype \<Rightarrow> val \<Rightarrow> bool" where
  "call_ok t v \<longleftrightarrow>
     (case t of
        TyAny \<Rightarrow> v \<noteq> VNil
      | TyMap \<Rightarrow> (case v of VObj _ \<Rightarrow> True | _ \<Rightarrow> False)
      | TySlice \<Rightarrow> (case v of VArr _ \<Rightarrow> True | _ \<Rightarrow> False)
      | _ \<Rightarrow> True)"

text \<open>A value returned by a handler: a nil interface, a non-nil error, or any other value.\<close>

datatype out_val = OutNil | OutError string | OutVal val

fun collectResults :: "out_val list \<Rightarrow> val list" where
  "collectResults [] = []"
| "collectResults (OutNil # outs) = collectResults outs"
| "collectResults (OutError msg # outs) = VStr msg # collectResults outs"
| "collectResults (OutVal v # outs) = v # collectResults outs"

datatype invocation = Panics | Mismatch | Returns "val list"

text \<open>
  A handler: its parameter types, the element type of a trailing variadic parameter, and
  what it returns on the given arguments (for a server handler, after the socket).
\<close>

record handler =
  hd_in :: "gotype list"
  hd_variadic :: "gotype option"
  hd_fn :: "string \<Rightarrow> val list \<Rightarrow> out_val list"

text \<open>
  Parameter values for the given arguments: converted where there is an argument, flagged as
  safe to pass, and the zero value of the type beyond the last argument.
\<close>

fun convert_params :: "gotype list \<Rightarrow> val list \<Rightarrow> (val \<times> bool) list option" where
  "convert_params [] args = Some []"
| "convert_params (t # ts) [] = map_option (Cons (reflect_Zero t, True)) (convert_params ts [])"
| "convert_params (t # ts) (a # as) =
     (case convertArg a t of
        None \<Rightarrow> None
      | Some v \<Rightarrow> map_option (Cons (v, call_ok t v)) (convert_params ts as))"

definition call_handler :: "handler \<Rightarrow> string \<Rightarrow> (val \<times> bool) list \<Rightarrow> invocation" where
  "call_handler h sid params =
     (if list_all snd params then Returns (collectResults (hd_fn h sid (map fst params))) else Panics)"

text \<open>\<^verbatim>\<open>invokeHandler\<close>, for handlers without a variadic parameter.\<close>

definition invokeHandler :: "handler \<Rightarrow> string \<Rightarrow> val list \<Rightarrow> invocation" where
  "invokeHandler h sid args =
     (case hd_in h of
        [] \<Rightarrow> call_handler h sid []
      | t # ts \<Rightarrow>
          (case t of
             TySocket \<Rightarrow>
               (case convert_params ts args of
                  None \<Rightarrow> Mismatch
                | Some params \<Rightarrow> call_handler h sid params)
           | _ \<Rightarrow> Mismatch))"

text \<open>
  The variadic part of \<^verbatim>\<open>invokeClientHandler\<close>: the arguments are sliced from the number of
  fixed parameters on, which panics when there are fewer, converted one by one, and stored
  with \<^verbatim>\<open>Set\<close>, which makes the same demands as a call.
\<close>

fun convert_rest :: "gotype \<Rightarrow> val list \<Rightarrow> invocation + val list" where
  "convert_rest t [] = Inr []"
| "convert_rest t (a # as) =
     (case convertArg a t of
        None \<Rightarrow> Inl Mismatch
      | Some v \<Rightarrow>
          if \<not> call_ok t v then Inl Panics
          else (case convert_rest t as of Inl r \<Rightarrow> Inl r | Inr vs \<Rightarrow> Inr (v # vs)))"

definition invokeClientHandler :: "handler \<Rightarrow> val list \<Rightarrow> invocation" where
  "invokeClientHandler h args =
     (case convert_params (hd_in h) args of
        None \<Rightarrow> Mismatch
      | Some params \<Rightarrow>
          (case hd_variadic h of
             None \<Rightarrow> call_handler h [] params
           | Some t \<Rightarrow>
               if length args < length (hd_in h) then Panics
               else
                 (case convert_rest t (drop (length (hd_in h)) args) of
                    Inl r \<Rightarrow> r
                  | Inr rest \<Rightarrow> call_handler h [] (params @ [(VArr rest, True)]))))"

section \<open>Arguments of the right type\<close>

text \<open>A decoded value that already is a value of the parameter type.\<close>

fun fits :: "gotype \<Rightarrow> val \<Rightarrow> bool" where
  "fits TyAny v \<longleftrightarrow> v \<noteq> VNil"
| "fits TyMap v \<longleftrightarrow> (case v of VObj _ \<Rightarrow> True | _ \<Rightarrow> False)"
| "fits TySlice v \<longleftrightarrow> (case v of VArr _ \<Rightarrow> True | _ \<Rightarrow> False)"
| "fits TyString v \<longleftrightarrow> (case v of VStr s \<Rightarrow> valid_utf8 s | _ \<Rightarrow> False)"
| "fits TyBool v \<longleftrightarrow> (case v of VBool _ \<Rightarrow> True | _ \<Rightarrow> False)"
| "fits TyFloat64 v \<longleftrightarrow> (case v of VNum d \<Rightarrow> wf_decimal d | _ \<Rightarrow> False)"
| "fits TyInt v \<longleftrightarrow> (case v of VNum d \<Rightarrow> wf_decimal d \<and> atoi (format_num d) \<noteq> None | _ \<Rightarrow> False)"
| "fits TyBytes v \<longleftrightarrow> (case v of VBytes _ \<Rightarrow> True | _ \<Rightarrow> False)"
| "fits _ v \<longleftrightarrow> False"

lemma convert_fits: "fits t v \<Longrightarrow> convertArg v t = Some v \<and> call_ok t v"
  by (cases t; cases v) (auto simp: convertArg_def call_ok_def unmarshal_marshal)

lemma convert_params_fits:
  "list_all2 fits ts as \<Longrightarrow> convert_params ts (as @ extra) = Some (map (\<lambda>v. (v, True)) as)"
  by (induction ts as rule: list_all2_induct) (simp_all add: convert_fits)

lemma call_handler_safe: "call_handler h sid (map (\<lambda>v. (v, True)) as) = Returns (collectResults (hd_fn h sid as))"
  by (simp add: call_handler_def list_all_iff comp_def)

lemma convert_rest_fits: "list_all (fits t) as \<Longrightarrow> convert_rest t as = Inr as"
  by (induction as) (simp_all add: convert_fits)



section \<open>Panics\<close>

lemma call_ok_converted: "convertArg a t = Some v \<Longrightarrow> call_ok t v = call_ok t a"
  by (cases t) (auto simp: convertArg_def call_ok_def)

lemma convert_params_ok:
  "convert_params ts args = Some params \<Longrightarrow>
   list_all snd params \<longleftrightarrow> (\<forall>(t, a)\<in>set (zip ts args). call_ok t a)"
proof (induction ts args arbitrary: params rule: convert_params.induct)
  case (3 t ts a as)
  then show ?case
    by (auto simp: call_ok_converted split: option.splits)
qed (auto simp: call_ok_def)



text \<open>
  A client handler with a variadic parameter gets the arguments beyond its fixed
  parameters packed into one list when they match its element type; with fewer arguments
  than fixed parameters, although every missing one could take its zero value, the call
  panics.\<close>

lemma variadic_client_handler:
  assumes "hd_variadic h = Some t" and "list_all2 fits (hd_in h) as"
  shows "(list_all (fits t) rest \<longrightarrow>
      invokeClientHandler h (as @ rest) = Returns (collectResults (hd_fn h [] (as @ [VArr rest]))))
    \<and> (n < length as \<longrightarrow> invokeClientHandler h (take n as) = Panics)"
proof -
  have len: "length (hd_in h) = length as"
    using assms(2) by (rule list_all2_lengthD)
  have "invokeClientHandler h (as @ rest) = Returns (collectResults (hd_fn h [] (as @ [VArr rest])))"
    if "list_all (fits t) rest"
    using assms len that call_handler_safe [of h "[]" "as @ [VArr rest]"]
    by (simp add: invokeClientHandler_def convert_params_fits convert_rest_fits)
  moreover have "convert_params ts (take n as) \<noteq> None" if "list_all2 fits ts as" for ts
    using that
  proof (induction ts as arbitrary: n rule: list_all2_induct)
    case (Cons t ts a as)
    have "convert_params us [] \<noteq> None" for us
      by (induction us) auto
    then show ?case
      using Cons by (cases n) (auto simp: convert_fits)
  qed simp
  then have "invokeClientHandler h (take n as) = Panics" if "n < length as"
    using assms len that by (fastforce simp: invokeClientHandler_def)
  ultimately show ?thesis
    by blast
qed

end
