(* ===== verification/Namespace.thy ===== *)
theory Namespace
  imports Adapter Emitter
begin

text \<open>
  A namespace by itself (\<^verbatim>\<open>socketio/namespace.go\<close>): its table of sockets, its adapter and
  the registered callbacks. What needs the server or a socket object (broadcasting,
  disconnecting) is in \<open>SioServer\<close>.
\<close>

section \<open>State\<close>

text \<open>
  Callbacks whose result the server inspects are functions: a middleware takes the socket's
  id and the CONNECT payload, a connect handler the id; both answer with the text of an
  error, or \<open>None\<close>. Callbacks that are only called are named by numbers. Sockets are named by
  their id. The slice \<open>ns_unknownAck\<close> is nil when it is empty.
\<close>

type_synonym middleware = "string \<Rightarrow> (string \<times> val) list option \<Rightarrow> string option"

type_synonym connect_handler = "string \<Rightarrow> string option"

record namespace =
  ns_sockets :: "string list"
  ns_adapter :: memoryAdapter
  ns_middlewares :: "middleware list"
  ns_connect :: "connect_handler list"
  ns_disconnect :: "nat list"
  ns_onError :: "nat list"
  ns_onAny :: "nat list"
  ns_events :: "(string \<times> handler list) list"
  ns_unknownAck :: "val list"

definition newNamespace :: namespace where
  "newNamespace =
     \<lparr>ns_sockets = [], ns_adapter = NewMemoryAdapter, ns_middlewares = [], ns_connect = [],
      ns_disconnect = [], ns_onError = [], ns_onAny = [], ns_events = [], ns_unknownAck = []\<rparr>"

section \<open>Registration\<close>

definition ns_OnConnect :: "connect_handler \<Rightarrow> namespace \<Rightarrow> namespace" where
  "ns_OnConnect f n = n\<lparr>ns_connect := ns_connect n @ [f]\<rparr>"

definition ns_OnDisconnect :: "nat \<Rightarrow> namespace \<Rightarrow> namespace" where
  "ns_OnDisconnect f n = n\<lparr>ns_disconnect := ns_disconnect n @ [f]\<rparr>"

definition ns_OnError :: "nat \<Rightarrow> namespace \<Rightarrow> namespace" where
  "ns_OnError f n = n\<lparr>ns_onError := ns_onError n @ [f]\<rparr>"

definition ns_OnAny :: "nat \<Rightarrow> namespace \<Rightarrow> namespace" where
  "ns_OnAny f n = n\<lparr>ns_onAny := ns_onAny n @ [f]\<rparr>"

definition handlersFor :: "string \<Rightarrow> namespace \<Rightarrow> handler list" where
  "handlersFor event n = (case map_of (ns_events n) event of None \<Rightarrow> [] | Some hs \<Rightarrow> hs)"

definition ns_OnEvent :: "string \<Rightarrow> handler \<Rightarrow> namespace \<Rightarrow> namespace" where
  "ns_OnEvent event f n =
     n\<lparr>ns_events := AList.update event (handlersFor event n @ [f]) (ns_events n)\<rparr>"

definition ns_SetUnknownEventAck :: "val list \<Rightarrow> namespace \<Rightarrow> namespace" where
  "ns_SetUnknownEventAck data n = n\<lparr>ns_unknownAck := data\<rparr>"

definition unknownEventAck :: "namespace \<Rightarrow> val list" where
  "unknownEventAck n = ns_unknownAck n"

definition ns_Use :: "middleware \<Rightarrow> namespace \<Rightarrow> namespace" where
  "ns_Use m n = n\<lparr>ns_middlewares := ns_middlewares n @ [m]\<rparr>"

section \<open>Callbacks with a result\<close>

text \<open>The first error stops the loop.\<close>

fun run_middlewares :: "middleware list \<Rightarrow> string \<Rightarrow> (string \<times> val) list option \<Rightarrow> string option" where
  "run_middlewares [] sid data = None"
| "run_middlewares (m # ms) sid data =
     (case m sid data of Some err \<Rightarrow> Some err | None \<Rightarrow> run_middlewares ms sid data)"

definition runMiddlewares :: "string \<Rightarrow> (string \<times> val) list option \<Rightarrow> namespace \<Rightarrow> string option" where
  "runMiddlewares sid data n = run_middlewares (ns_middlewares n) sid data"

fun run_connect :: "connect_handler list \<Rightarrow> string \<Rightarrow> string option" where
  "run_connect [] sid = None"
| "run_connect (h # hs) sid = (case h sid of Some err \<Rightarrow> Some err | None \<Rightarrow> run_connect hs sid)"

definition runConnect :: "string \<Rightarrow> namespace \<Rightarrow> string option" where
  "runConnect sid n = run_connect (ns_connect n) sid"

section \<open>Membership\<close>

definition ns_addSocket :: "string \<Rightarrow> namespace \<Rightarrow> namespace" where
  "ns_addSocket sid n =
     n\<lparr>ns_sockets := set_add sid (ns_sockets n), ns_adapter := AddSocket sid (ns_adapter n)\<rparr>"

definition ns_removeSocket :: "string \<Rightarrow> namespace \<Rightarrow> namespace" where
  "ns_removeSocket sid n =
     n\<lparr>ns_sockets := removeAll sid (ns_sockets n), ns_adapter := RemoveSocket sid (ns_adapter n)\<rparr>"

definition ns_addToRoom :: "string \<Rightarrow> string \<Rightarrow> namespace \<Rightarrow> namespace" where
  "ns_addToRoom room sid n = n\<lparr>ns_adapter := AddToRoom room sid (ns_adapter n)\<rparr>"

definition ns_removeFromRoom :: "string \<Rightarrow> string \<Rightarrow> namespace \<Rightarrow> namespace" where
  "ns_removeFromRoom room sid n = n\<lparr>ns_adapter := RemoveFromRoom room sid (ns_adapter n)\<rparr>"

definition ns_Sockets :: "namespace \<Rightarrow> string list" where
  "ns_Sockets n = Sockets (ns_adapter n)"

definition ns_SocketsCount :: "namespace \<Rightarrow> nat" where
  "ns_SocketsCount n = SocketsCount (ns_adapter n)"

section \<open>Invariant\<close>

text \<open>
  The table that resolves ids and the adapter that is authoritative for membership agree.
\<close>

definition ns_inv :: "namespace \<Rightarrow> bool" where
  "ns_inv n \<longleftrightarrow>
     distinct (ns_sockets n) \<and> ma_inv (ns_adapter n) \<and> set (ma_ids (ns_adapter n)) = set (ns_sockets n)"

lemma ns_inv_new [inv_simps]: "ns_inv newNamespace"
  using mem.new_inv by (simp add: ns_inv_def newNamespace_def NewMemoryAdapter_def)

lemma ma_ids_simps [simp]:
  "ma_ids (AddSocket i a) = set_add i (ma_ids a)"
  "ma_ids (RemoveSocket i a) = removeAll i (ma_ids a)"
  "ma_ids (AddToRoom r i a) = ma_ids a"
  by (simp_all add: AddSocket_def RemoveSocket_def AddToRoom_def)

lemma ma_inv_simps [inv_simps]:
  assumes "ma_inv a"
  shows "ma_inv (AddSocket i a)" "ma_inv (RemoveSocket i a)" "ma_inv (AddToRoom r i a)"
    "ma_inv (RemoveFromRoom r i a)"
  using mem.op_inv [OF assms, of "OpAddSocket i"] mem.op_inv [OF assms, of "OpRemoveSocket i"]
    mem.op_inv [OF assms, of "OpAddToRoom r i"] mem.op_inv [OF assms, of "OpRemoveFromRoom r i"]
  by simp_all

lemma ns_inv_membership [inv_simps]:
  assumes "ns_inv n"
  shows "ns_inv (ns_addSocket i n)" "ns_inv (ns_removeSocket i n)" "ns_inv (ns_addToRoom r i n)"
    "ns_inv (ns_removeFromRoom r i n)"
  using assms
  by (simp_all add: ns_inv_def ns_addSocket_def ns_removeSocket_def ns_addToRoom_def
      ns_removeFromRoom_def ma_inv_simps distinct_removeAll)

lemma ns_inv_registration [inv_simps]:
  assumes "ns_inv n"
  shows "ns_inv (ns_OnConnect f n)" "ns_inv (ns_OnDisconnect d n)" "ns_inv (ns_OnError d n)"
    "ns_inv (ns_OnAny d n)" "ns_inv (ns_OnEvent e h n)" "ns_inv (ns_SetUnknownEventAck vs n)"
    "ns_inv (ns_Use m n)"
  using assms
  by (simp_all add: ns_inv_def ns_OnConnect_def ns_OnDisconnect_def ns_OnError_def ns_OnAny_def
      ns_OnEvent_def ns_SetUnknownEventAck_def ns_Use_def)

lemma ns_sockets_simps [simp]:
  "ns_sockets newNamespace = []"
  "ns_sockets (ns_addSocket i n) = set_add i (ns_sockets n)"
  "ns_sockets (ns_removeSocket i n) = removeAll i (ns_sockets n)"
  "ns_sockets (ns_addToRoom r i n) = ns_sockets n"
  "ns_sockets (ns_removeFromRoom r i n) = ns_sockets n"
  "ns_sockets (ns_OnConnect f n) = ns_sockets n"
  "ns_sockets (ns_OnDisconnect d n) = ns_sockets n"
  "ns_sockets (ns_OnError d n) = ns_sockets n"
  "ns_sockets (ns_OnAny d n) = ns_sockets n"
  "ns_sockets (ns_OnEvent e h n) = ns_sockets n"
  "ns_sockets (ns_SetUnknownEventAck vs n) = ns_sockets n"
  "ns_sockets (ns_Use m n) = ns_sockets n"
  by (simp_all add: newNamespace_def ns_addSocket_def ns_removeSocket_def ns_addToRoom_def
      ns_removeFromRoom_def ns_OnConnect_def ns_OnDisconnect_def ns_OnError_def ns_OnAny_def
      ns_OnEvent_def ns_SetUnknownEventAck_def ns_Use_def)

end
