(* ===== verification/SioServer.thy ===== *)
theory SioServer
  imports Steps SioWire AckTable PacketQueue Namespace
begin

text \<open>
  The Socket.IO server (\<^verbatim>\<open>socketio/server.go\<close>, \<^verbatim>\<open>socketio/socket.go\<close> and the rest of
  \<^verbatim>\<open>socketio/namespace.go\<close>): connections, sockets and namespaces as one state, and every
  method that changes it as a function that returns the new state and the effects it has on
  the outside (messages handed to Engine.IO, callbacks started).

  Each method is one step: two methods that run on different goroutines are interleaved as
  wholes. What the code puts on a goroutine of its own with results that matter later (the
  event handlers and the acknowledgement that waits for them) is a task in the state and a
  step of its own. The callbacks' own calls into the server are separate steps.
\<close>

section \<open>State\<close>

record socket =
  sk_nsp :: string
  sk_ec :: nat
  sk_connected :: bool
  sk_acks :: ackTable

record engineConn =
  ec_es :: nat
  ec_sockets :: "(string \<times> string) list"
  ec_recon :: "reconstructor option"
  ec_in :: packetQueue
  ec_started :: bool

text \<open>The handlers of an event that are still to run, and the reply they owe.\<close>

record event_task =
  et_sock :: string
  et_nsp :: string
  et_id :: int
  et_handlers :: "handler list"
  et_args :: "val list"

text \<open>
  Socket and connection objects live in stores (a method may hold on to an object that no
  table lists any more); sockets are addressed by their id, which is unique because it is
  random, connections by a number. \<open>sv_crashed\<close> is set by a panic on a goroutine of the
  server, which ends the process.
\<close>

record server =
  sv_nsps :: "(string \<times> namespace) list"
  sv_engines :: "(nat \<times> nat) list"
  sv_conns :: "nat \<Rightarrow> engineConn option"
  sv_nconns :: nat
  sv_socks :: "string \<Rightarrow> socket option"
  sv_tasks :: "event_task list"
  sv_readers :: readers
  sv_crashed :: bool

datatype effect =
    Send nat message
  | DisconnectCall nat string string
  | AnyCall nat string string "val list"
  | ErrorCall nat string go_error
  | AckCall callback "val list"
  | CloseEngine

type_synonym step = "server \<Rightarrow> server \<times> effect list"

section \<open>Tables and stores\<close>

definition get_ns :: "string \<Rightarrow> server \<Rightarrow> namespace option" where
  "get_ns name s = map_of (sv_nsps s) name"

definition map_ns :: "string \<Rightarrow> (namespace \<Rightarrow> namespace) \<Rightarrow> server \<Rightarrow> server" where
  "map_ns name f s =
     (case get_ns name s of
        None \<Rightarrow> s
      | Some n \<Rightarrow> s\<lparr>sv_nsps := AList.update name (f n) (sv_nsps s)\<rparr>)"

definition map_sock :: "string \<Rightarrow> (socket \<Rightarrow> socket) \<Rightarrow> server \<Rightarrow> server" where
  "map_sock sid f s = s\<lparr>sv_socks := (sv_socks s)(sid := map_option f (sv_socks s sid))\<rparr>"

definition map_conn :: "nat \<Rightarrow> (engineConn \<Rightarrow> engineConn) \<Rightarrow> server \<Rightarrow> server" where
  "map_conn ec f s = s\<lparr>sv_conns := (sv_conns s)(ec := map_option f (sv_conns s ec))\<rparr>"

definition conn_sockets :: "nat \<Rightarrow> server \<Rightarrow> (string \<times> string) list" where
  "conn_sockets ec s = (case sv_conns s ec of None \<Rightarrow> [] | Some c \<Rightarrow> ec_sockets c)"

section \<open>Creating a server\<close>

definition NewServerWithConfig :: "readers \<Rightarrow> server" where
  "NewServerWithConfig h =
     \<lparr>sv_nsps = [(defaultNamespace, newNamespace)], sv_engines = [], sv_conns = \<lambda>_. None,
      sv_nconns = 0, sv_socks = \<lambda>_. None, sv_tasks = [], sv_readers = h, sv_crashed = False\<rparr>"

definition nsp_name :: "string \<Rightarrow> string" where
  "nsp_name name = (if name = [] then defaultNamespace else name)"

definition namespaceFor :: "string \<Rightarrow> server \<Rightarrow> server" where
  "namespaceFor name s =
     (case get_ns (nsp_name name) s of
        Some _ \<Rightarrow> s
      | None \<Rightarrow> s\<lparr>sv_nsps := AList.update (nsp_name name) newNamespace (sv_nsps s)\<rparr>)"

definition namespaceLookup :: "string \<Rightarrow> server \<Rightarrow> namespace option" where
  "namespaceLookup name s = get_ns (nsp_name name) s"

section \<open>Registration\<close>

definition OnConnect :: "string \<Rightarrow> connect_handler \<Rightarrow> server \<Rightarrow> server" where
  "OnConnect nsp f s = map_ns (nsp_name nsp) (ns_OnConnect f) (namespaceFor nsp s)"

definition OnDisconnect :: "string \<Rightarrow> nat \<Rightarrow> server \<Rightarrow> server" where
  "OnDisconnect nsp f s = map_ns (nsp_name nsp) (ns_OnDisconnect f) (namespaceFor nsp s)"

definition OnError :: "string \<Rightarrow> nat \<Rightarrow> server \<Rightarrow> server" where
  "OnError nsp f s = map_ns (nsp_name nsp) (ns_OnError f) (namespaceFor nsp s)"

definition OnEvent :: "string \<Rightarrow> string \<Rightarrow> handler \<Rightarrow> server \<Rightarrow> server" where
  "OnEvent nsp event f s = map_ns (nsp_name nsp) (ns_OnEvent event f) (namespaceFor nsp s)"

definition OnAny :: "string \<Rightarrow> nat \<Rightarrow> server \<Rightarrow> server" where
  "OnAny nsp f s = map_ns (nsp_name nsp) (ns_OnAny f) (namespaceFor nsp s)"

definition SetUnknownEventAck :: "string \<Rightarrow> val list \<Rightarrow> server \<Rightarrow> server" where
  "SetUnknownEventAck nsp data s =
     map_ns (nsp_name nsp) (ns_SetUnknownEventAck data) (namespaceFor nsp s)"

definition Use :: "string \<Rightarrow> middleware \<Rightarrow> server \<Rightarrow> server" where
  "Use nsp m s = map_ns (nsp_name nsp) (ns_Use m) (namespaceFor nsp s)"

definition sv_Namespace :: "string \<Rightarrow> server \<Rightarrow> server" where
  "sv_Namespace nsp s = namespaceFor (if nsp = [] then defaultNamespace else nsp) s"

text \<open>The quoted name in the text of the error is left out.\<close>

definition RegisterNamespace :: "string \<Rightarrow> server \<Rightarrow> go_error option \<times> server" where
  "RegisterNamespace nsp s =
     (if \<not> hasPrefix nsp ''/'' \<or> length nsp \<le> 1
      then (Some (ErrorsNew ''socketio: invalid namespace''), s)
      else (None, namespaceFor nsp s))"

section \<open>Sending\<close>

text \<open>\<^verbatim>\<open>Server.sendPacket\<close> on a connection.\<close>

definition send_on :: "nat \<Rightarrow> sio_packet \<Rightarrow> step" where
  "send_on ec pkt s =
     (case sv_conns s ec of
        None \<Rightarrow> (s, [])
      | Some c \<Rightarrow>
          (case sendPacket pkt (sv_readers s) of
             (msgs, h) \<Rightarrow> (s\<lparr>sv_readers := h\<rparr>, map (Send (ec_es c)) msgs)))"

definition packet :: "PacketType \<Rightarrow> string \<Rightarrow> int \<Rightarrow> val \<Rightarrow> sio_packet" where
  "packet t nsp i data =
     \<lparr>sp_Type = t, sp_Nsp = nsp, sp_ID = i, sp_Data = data, sp_Attachments = 0\<rparr>"

definition sock_send :: "string \<Rightarrow> sio_packet \<Rightarrow> step" where
  "sock_send sid pkt s =
     (case sv_socks s sid of None \<Rightarrow> (s, []) | Some k \<Rightarrow> send_on (sk_ec k) pkt s)"

definition sendConnectError :: "nat \<Rightarrow> string \<Rightarrow> string \<Rightarrow> step" where
  "sendConnectError ec nsp msg =
     send_on ec (packet ConnectError nsp (-1) (VObj [(''message'', VStr msg)]))"

section \<open>Sockets\<close>

definition Connected :: "string \<Rightarrow> server \<Rightarrow> bool" where
  "Connected sid s = (case sv_socks s sid of None \<Rightarrow> False | Some k \<Rightarrow> sk_connected k)"

definition setConnected :: "string \<Rightarrow> bool \<Rightarrow> server \<Rightarrow> server" where
  "setConnected sid v = map_sock sid (\<lambda>k. k\<lparr>sk_connected := v\<rparr>)"

definition emitEvent :: "string \<Rightarrow> int \<Rightarrow> string \<Rightarrow> val list \<Rightarrow> step" where
  "emitEvent sid i event args s =
     (case sv_socks s sid of
        None \<Rightarrow> (s, [])
      | Some k \<Rightarrow> sock_send sid (packet Event (sk_nsp k) i (VArr (VStr event # args))) s)"

definition Emit :: "string \<Rightarrow> string \<Rightarrow> val list \<Rightarrow> server \<Rightarrow> go_error option \<times> server \<times> effect list" where
  "Emit sid event args s =
     (if \<not> Connected sid s then (Some ErrNotConnected, s, [])
      else (None, emitEvent sid (-1) event args s))"

definition EmitWithAck ::
  "string \<Rightarrow> string \<Rightarrow> callback option \<Rightarrow> val list \<Rightarrow> server
   \<Rightarrow> (int \<times> go_error option) \<times> server \<times> effect list" where
  "EmitWithAck sid event cb args s =
     (case sv_socks s sid of
        None \<Rightarrow> ((-1, Some ErrNotConnected), s, [])
      | Some k \<Rightarrow>
          if \<not> sk_connected k then ((-1, Some ErrNotConnected), s, [])
          else
            (case cb of
               None \<Rightarrow> ((-1, None), emitEvent sid (-1) event args s)
             | Some f \<Rightarrow>
                 (case ack_next (sk_acks k) of
                    (i, t) \<Rightarrow>
                      ((i, None),
                       emitEvent sid i event args
                         (map_sock sid (\<lambda>k. k\<lparr>sk_acks := ack_register i (Some f) t\<rparr>) s)))))"

definition JoinRoom :: "string \<Rightarrow> string \<Rightarrow> server \<Rightarrow> server" where
  "JoinRoom sid room s =
     (case sv_socks s sid of None \<Rightarrow> s | Some k \<Rightarrow> map_ns (sk_nsp k) (ns_addToRoom room sid) s)"

definition LeaveRoom :: "string \<Rightarrow> string \<Rightarrow> server \<Rightarrow> server" where
  "LeaveRoom sid room s =
     (case sv_socks s sid of None \<Rightarrow> s | Some k \<Rightarrow> map_ns (sk_nsp k) (ns_removeFromRoom room sid) s)"

section \<open>Broadcasting\<close>

text \<open>The delivery callback of \<^verbatim>\<open>namespace.broadcast\<close>; the error of \<^verbatim>\<open>Emit\<close> is dropped.\<close>

definition deliver :: "string \<Rightarrow> string \<Rightarrow> val list \<Rightarrow> string \<Rightarrow> step" where
  "deliver nsp event args sid s =
     (case get_ns nsp s of
        None \<Rightarrow> (s, [])
      | Some n \<Rightarrow> if sid \<in> set (ns_sockets n) then snd (Emit sid event args s) else (s, []))"

definition broadcast :: "string \<Rightarrow> string \<Rightarrow> string list \<Rightarrow> string \<Rightarrow> val list \<Rightarrow> step" where
  "broadcast nsp room except event args s =
     (case get_ns nsp s of
        None \<Rightarrow> (s, [])
      | Some n \<Rightarrow>
          Broadcast room except
            (Some (\<lambda>sid (s1, e1). case deliver nsp event args sid s1 of (s2, e2) \<Rightarrow> (s2, e1 @ e2)))
            (ns_adapter n) (s, []))"

definition ns_Emit :: "string \<Rightarrow> string \<Rightarrow> val list \<Rightarrow> step" where
  "ns_Emit nsp event args = broadcast nsp [] [] event args"

record BroadcastOperator =
  bo_nsp :: string
  bo_room :: string
  bo_except :: "string list"

definition ns_To :: "string \<Rightarrow> string \<Rightarrow> BroadcastOperator" where
  "ns_To nsp room = \<lparr>bo_nsp = nsp, bo_room = room, bo_except = []\<rparr>"

definition bo_Except :: "string list \<Rightarrow> BroadcastOperator \<Rightarrow> BroadcastOperator" where
  "bo_Except ids b = b\<lparr>bo_except := bo_except b @ ids\<rparr>"

definition bo_Emit :: "BroadcastOperator \<Rightarrow> string \<Rightarrow> val list \<Rightarrow> step" where
  "bo_Emit b event args = broadcast (bo_nsp b) (bo_room b) (bo_except b) event args"

text \<open>The broadcasting methods of a socket; they exclude the socket itself.\<close>

definition sock_nsp :: "string \<Rightarrow> server \<Rightarrow> string" where
  "sock_nsp sid s = (case sv_socks s sid of None \<Rightarrow> [] | Some k \<Rightarrow> sk_nsp k)"

definition sock_To :: "string \<Rightarrow> string \<Rightarrow> server \<Rightarrow> BroadcastOperator" where
  "sock_To sid room s = \<lparr>bo_nsp = sock_nsp sid s, bo_room = room, bo_except = [sid]\<rparr>"

definition sock_ToExcept :: "string \<Rightarrow> string \<Rightarrow> string list \<Rightarrow> server \<Rightarrow> BroadcastOperator" where
  "sock_ToExcept sid room except s =
     \<lparr>bo_nsp = sock_nsp sid s, bo_room = room, bo_except = [sid] @ except\<rparr>"

definition sock_BroadcastToRoom :: "string \<Rightarrow> string \<Rightarrow> string \<Rightarrow> val list \<Rightarrow> step" where
  "sock_BroadcastToRoom sid room event args s =
     broadcast (sock_nsp sid s) room [sid] event args s"

definition sock_Broadcast :: "string \<Rightarrow> string \<Rightarrow> val list \<Rightarrow> step" where
  "sock_Broadcast sid event args s = broadcast (sock_nsp sid s) [] [sid] event args s"

text \<open>The broadcasting methods of the server; an unknown namespace is not created.\<close>

definition BroadcastToNamespace :: "string \<Rightarrow> string \<Rightarrow> val list \<Rightarrow> step" where
  "BroadcastToNamespace nsp event args s =
     (case namespaceLookup nsp s of
        None \<Rightarrow> (s, []) | Some _ \<Rightarrow> broadcast (nsp_name nsp) [] [] event args s)"

definition BroadcastToRoom :: "string \<Rightarrow> string \<Rightarrow> string \<Rightarrow> val list \<Rightarrow> step" where
  "BroadcastToRoom nsp room event args s =
     (case namespaceLookup nsp s of
        None \<Rightarrow> (s, []) | Some _ \<Rightarrow> broadcast (nsp_name nsp) room [] event args s)"

definition ToExcept ::
  "string \<Rightarrow> string \<Rightarrow> string list \<Rightarrow> string \<Rightarrow> val list \<Rightarrow> server
   \<Rightarrow> go_error option \<times> server \<times> effect list" where
  "ToExcept nsp room except event args s =
     (case namespaceLookup nsp s of
        None \<Rightarrow> (Some ErrInvalidNamespace, s, [])
      | Some _ \<Rightarrow> (None, broadcast (nsp_name nsp) room except event args s))"

section \<open>Leaving a namespace\<close>

definition detachEngineSocket :: "string \<Rightarrow> server \<Rightarrow> server" where
  "detachEngineSocket sid s =
     (case sv_socks s sid of
        None \<Rightarrow> s
      | Some k \<Rightarrow> map_conn (sk_ec k) (\<lambda>c. c\<lparr>ec_sockets := AList.delete (sk_nsp k) (ec_sockets c)\<rparr>) s)"

definition disconnectSocket :: "string \<Rightarrow> string \<Rightarrow> step" where
  "disconnectSocket sid reason s =
     (case sv_socks s sid of
        None \<Rightarrow> (s, [])
      | Some k \<Rightarrow>
          (case get_ns (sk_nsp k) s of
             None \<Rightarrow> (s, [])
           | Some n \<Rightarrow>
               if sid \<notin> set (ns_sockets n) then (s, [])
               else
                 run_all
                   [modify (map_ns (sk_nsp k) (ns_removeSocket sid)),
                    modify (setConnected sid False),
                    modify (map_sock sid (\<lambda>k. k\<lparr>sk_acks := ack_clear (sk_acks k)\<rparr>)),
                    (if reason = ''server namespace disconnect''
                     then sock_send sid (packet Disconnect (sk_nsp k) (-1) VNil) else run_all []),
                    (\<lambda>s. (s, map (\<lambda>h. DisconnectCall h sid reason) (ns_disconnect n))),
                    modify (detachEngineSocket sid)] s))"

definition sock_Disconnect :: "string \<Rightarrow> step" where
  "sock_Disconnect sid = disconnectSocket sid ''server namespace disconnect''"

section \<open>Packets from a client\<close>

definition connectData :: "val \<Rightarrow> (string \<times> val) list option" where
  "connectData v = (case v of VObj m \<Rightarrow> Some m | _ \<Rightarrow> None)"

text \<open>\<^verbatim>\<open>newSocket\<close>; the random id is an argument.\<close>

definition newSocket :: "string \<Rightarrow> string \<Rightarrow> nat \<Rightarrow> server \<Rightarrow> server" where
  "newSocket sid nsp ec s =
     s\<lparr>sv_socks := (sv_socks s)(sid \<mapsto>
        \<lparr>sk_nsp = nsp, sk_ec = ec, sk_connected = False, sk_acks = newAckTable\<rparr>)\<rparr>"

definition rejectConnect :: "nat \<Rightarrow> string \<Rightarrow> string \<Rightarrow> string \<Rightarrow> step" where
  "rejectConnect ec sid nsp msg =
     run_all
       [modify (map_ns nsp (ns_removeSocket sid)),
        modify (map_conn ec (\<lambda>c. c\<lparr>ec_sockets := AList.delete nsp (ec_sockets c)\<rparr>)),
        modify (setConnected sid False),
        sendConnectError ec nsp msg]"

definition handleConnect :: "string \<Rightarrow> nat \<Rightarrow> sio_packet \<Rightarrow> step" where
  "handleConnect sid ec pkt s =
     (let nsp = sp_Nsp pkt; name = nsp_name nsp
      in case namespaceLookup nsp s of
           None \<Rightarrow> sendConnectError ec nsp ''Invalid namespace'' s
         | Some n \<Rightarrow>
             (case runMiddlewares sid (connectData (sp_Data pkt)) n of
                Some err \<Rightarrow> run_all [modify (newSocket sid name ec), rejectConnect ec sid name err] s
              | None \<Rightarrow>
                  run_all
                    [modify (newSocket sid name ec),
                     modify (map_ns name (ns_addSocket sid)),
                     modify (map_conn ec (\<lambda>c. c\<lparr>ec_sockets := AList.update nsp sid (ec_sockets c)\<rparr>)),
                     modify (setConnected sid True),
                     (case runConnect sid n of
                        Some err \<Rightarrow> rejectConnect ec sid name err
                      | None \<Rightarrow> send_on ec (packet Connect nsp (-1) (VObj [(''sid'', VStr sid)])))] s))"

definition handleDisconnect :: "nat \<Rightarrow> sio_packet \<Rightarrow> step" where
  "handleDisconnect ec pkt s =
     (case map_of (conn_sockets ec s) (sp_Nsp pkt) of
        None \<Rightarrow> (s, [])
      | Some sid \<Rightarrow> disconnectSocket sid ''client namespace disconnect'' s)"

text \<open>
  \<^verbatim>\<open>handleEvent\<close>: the catch-all handlers are started, and the named handlers with the reply
  that waits for them become a task.
\<close>

definition fireOnAny :: "string \<Rightarrow> string \<Rightarrow> val list \<Rightarrow> namespace \<Rightarrow> effect list" where
  "fireOnAny sid name args n = map (\<lambda>h. AnyCall h sid name args) (ns_onAny n)"

definition fireOnError :: "string \<Rightarrow> go_error \<Rightarrow> namespace \<Rightarrow> effect list" where
  "fireOnError sid err n = map (\<lambda>h. ErrorCall h sid err) (ns_onError n)"

definition handleEvent :: "nat \<Rightarrow> sio_packet \<Rightarrow> step" where
  "handleEvent ec pkt s =
     (case map_of (conn_sockets ec s) (sp_Nsp pkt) of
        None \<Rightarrow> (s, [])
      | Some sid \<Rightarrow>
          (case sp_Data pkt of
             VArr (VStr name # args) \<Rightarrow>
               (case get_ns (sock_nsp sid s) s of
                  None \<Rightarrow> (s, [])
                | Some n \<Rightarrow>
                    (s\<lparr>sv_tasks := sv_tasks s @
                        [\<lparr>et_sock = sid, et_nsp = sp_Nsp pkt, et_id = sp_ID pkt,
                          et_handlers = handlersFor name n, et_args = args\<rparr>]\<rparr>,
                     fireOnAny sid name args n))
           | _ \<Rightarrow> (s, [])))"

text \<open>
  The handlers of a task, in the order in which their goroutines finish: their results are
  appended in that order, an error is reported to the error handlers, a panic ends the
  process.
\<close>

fun run_handlers ::
  "handler list \<Rightarrow> event_task \<Rightarrow> namespace \<Rightarrow> val list \<Rightarrow> (bool \<times> val list) \<times> effect list" where
  "run_handlers [] t n results = ((True, results), [])"
| "run_handlers (h # hs) t n results =
     (case invokeHandler h (et_sock t) (et_args t) of
        Panics \<Rightarrow> ((False, results), [])
      | Mismatch \<Rightarrow>
          (case run_handlers hs t n results of
             (r, es) \<Rightarrow> (r, fireOnError (et_sock t) ErrHandlerMismatch n @ es))
      | Returns res \<Rightarrow> run_handlers hs t n (results @ res))"

definition ack_payload :: "val list \<Rightarrow> namespace \<Rightarrow> val list" where
  "ack_payload results n = (if results = [] then unknownEventAck n else results)"

definition run_task :: "event_task \<Rightarrow> handler list \<Rightarrow> step" where
  "run_task t order s =
     (case get_ns (sock_nsp (et_sock t) s) s of
        None \<Rightarrow> (s, [])
      | Some n \<Rightarrow>
          (case run_handlers order t n [] of
             ((False, _), es) \<Rightarrow> (s\<lparr>sv_crashed := True\<rparr>, es)
           | ((True, results), es) \<Rightarrow>
               if 0 \<le> et_id t then
                 (case sock_send (et_sock t)
                         (packet Ack (et_nsp t) (et_id t) (VArr (ack_payload results n))) s of
                    (s', es') \<Rightarrow> (s', es @ es'))
               else (s, es)))"

text \<open>\<^verbatim>\<open>Socket.handleAck\<close> and \<^verbatim>\<open>Server.handleAck\<close>; the callback is started at once.\<close>

definition sock_handleAck :: "string \<Rightarrow> sio_packet \<Rightarrow> step" where
  "sock_handleAck sid pkt s =
     (case sv_socks s sid of
        None \<Rightarrow> (s, [])
      | Some k \<Rightarrow>
          (let args = (case sp_Data pkt of VArr vs \<Rightarrow> vs | _ \<Rightarrow> [])
           in case ack_invoke (sp_ID pkt) args (sk_acks k) of
                (t, call, _) \<Rightarrow>
                  (map_sock sid (\<lambda>k. k\<lparr>sk_acks := t\<rparr>) s,
                   (case call of None \<Rightarrow> [] | Some (cb, as) \<Rightarrow> [AckCall cb as]))))"

definition handleAck :: "nat \<Rightarrow> sio_packet \<Rightarrow> step" where
  "handleAck ec pkt s =
     (case map_of (conn_sockets ec s) (sp_Nsp pkt) of
        None \<Rightarrow> (s, [])
      | Some sid \<Rightarrow> sock_handleAck sid pkt s)"

definition process :: "string \<Rightarrow> nat \<Rightarrow> sio_packet \<Rightarrow> step" where
  "process sid ec pkt =
     (case sp_Type pkt of
        Connect \<Rightarrow> handleConnect sid ec pkt
      | Disconnect \<Rightarrow> handleDisconnect ec pkt
      | Event \<Rightarrow> handleEvent ec pkt
      | Ack \<Rightarrow> handleAck ec pkt
      | _ \<Rightarrow> run_all [])"

section \<open>Engine.IO callbacks\<close>

definition newEngineConn :: "nat \<Rightarrow> engineConn" where
  "newEngineConn es =
     \<lparr>ec_es = es, ec_sockets = [], ec_recon = None, ec_in = newPacketQueue, ec_started = False\<rparr>"

text \<open>\<^verbatim>\<open>connFor\<close>: the connection object of an engine socket, created when it is missing.\<close>

definition connFor :: "nat \<Rightarrow> server \<Rightarrow> nat \<times> server" where
  "connFor es s =
     (case map_of (sv_engines s) es of
        Some ec \<Rightarrow> (ec, s)
      | None \<Rightarrow>
          (sv_nconns s,
           s\<lparr>sv_engines := AList.update es (sv_nconns s) (sv_engines s),
             sv_conns := (sv_conns s)(sv_nconns s \<mapsto> newEngineConn es),
             sv_nconns := sv_nconns s + 1\<rparr>))"

definition onEngineConnect :: "nat \<Rightarrow> server \<Rightarrow> server" where
  "onEngineConnect es s = snd (connFor es s)"

definition onEngineData :: "nat \<Rightarrow> bytes \<Rightarrow> bool \<Rightarrow> server \<Rightarrow> server" where
  "onEngineData es data binary s =
     (case connFor es s of
        (ec, s') \<Rightarrow>
          map_conn ec
            (\<lambda>c. c\<lparr>ec_started := True, ec_in := pq_push \<lparr>ip_data = data, ip_binary = binary\<rparr> (ec_in c)\<rparr>) s')"

text \<open>
  One turn of \<^verbatim>\<open>processLoop\<close>: the oldest message goes through \<^verbatim>\<open>handleIn\<close>, and the packet it
  completes through \<^verbatim>\<open>process\<close>. The id is the one a CONNECT would give its socket.
\<close>

definition process_next :: "string \<Rightarrow> nat \<Rightarrow> step" where
  "process_next sid ec s =
     (case sv_conns s ec of
        None \<Rightarrow> (s, [])
      | Some c \<Rightarrow>
          if \<not> ec_started c then (s, [])
          else
            (case pq_pop (ec_in c) of
               (PopItem p, q) \<Rightarrow>
                 (case handleIn (ec_recon c) (ip_data p) (ip_binary p) of
                    (recon, pkt) \<Rightarrow>
                      run_all
                        [modify (map_conn ec (\<lambda>c. c\<lparr>ec_in := q, ec_recon := recon\<rparr>)),
                         (case pkt of None \<Rightarrow> run_all [] | Some p \<Rightarrow> process sid ec p)] s)
             | _ \<Rightarrow> (s, [])))"

definition mapDisconnectReason :: "string \<Rightarrow> string" where
  "mapDisconnectReason reason =
     (if reason = ''client close'' \<or> reason = ''transport close'' then ''transport close''
      else if reason = ''transport error'' then ''transport error''
      else if reason = ''ping timeout'' then ''ping timeout''
      else if reason = [] then ''transport close''
      else reason)"

definition onEngineClose :: "nat \<Rightarrow> string \<Rightarrow> step" where
  "onEngineClose es reason s =
     (case map_of (sv_engines s) es of
        None \<Rightarrow> (s, [])
      | Some ec \<Rightarrow>
          (let socks = map snd (conn_sockets ec s)
           in run_all
                ([modify (\<lambda>s. s\<lparr>sv_engines := AList.delete es (sv_engines s)\<rparr>),
                  modify (map_conn ec (\<lambda>c. c\<lparr>ec_in := pq_close (ec_in c), ec_sockets := []\<rparr>))]
                 @ map (\<lambda>sid. disconnectSocket sid (mapDisconnectReason reason)) socks) s))"

text \<open>\<^verbatim>\<open>Close\<close>: closing a memory adapter does nothing; the engine closes its sessions.\<close>

definition server_Close :: "step" where
  "server_Close s = (s, [CloseEngine])"

end
