(* ===== verification/SioServerInv.thy ===== *)
theory SioServerInv
  imports SioServer
begin

text \<open>
  The server as a transition system whose steps are the methods of \<open>SioServer\<close> in any
  order, and the invariant that ties its tables together. The properties of the server that
  follow from it are here, too.
\<close>

section \<open>Projections of updated states\<close>

lemma get_ns_update [simp]:
  "get_ns name (map_ns name' f s) = (if name = name' then map_option f (get_ns name s) else get_ns name s)"
  "get_ns name (map_sock sid g s) = get_ns name s"
  "get_ns name (map_conn ec h s) = get_ns name s"
  "get_ns name (s\<lparr>sv_readers := r\<rparr>) = get_ns name s"
  "get_ns name (s\<lparr>sv_engines := e\<rparr>) = get_ns name s"
  "get_ns name (s\<lparr>sv_conns := c\<rparr>) = get_ns name s"
  "get_ns name (s\<lparr>sv_nconns := m\<rparr>) = get_ns name s"
  "get_ns name (s\<lparr>sv_socks := k\<rparr>) = get_ns name s"
  "get_ns name (s\<lparr>sv_tasks := t\<rparr>) = get_ns name s"
  "get_ns name (s\<lparr>sv_crashed := b\<rparr>) = get_ns name s"
  by (auto simp: get_ns_def map_ns_def map_sock_def map_conn_def update_conv' split: option.splits)

lemma map_ns_fields [simp]:
  "sv_engines (map_ns name f s) = sv_engines s" "sv_conns (map_ns name f s) = sv_conns s"
  "sv_nconns (map_ns name f s) = sv_nconns s" "sv_socks (map_ns name f s) = sv_socks s"
  "sv_tasks (map_ns name f s) = sv_tasks s" "sv_readers (map_ns name f s) = sv_readers s"
  "sv_crashed (map_ns name f s) = sv_crashed s"
  by (simp_all add: map_ns_def split: option.split)

lemma map_sock_fields [simp]:
  "sv_nsps (map_sock sid f s) = sv_nsps s"
  "sv_engines (map_sock sid f s) = sv_engines s" "sv_conns (map_sock sid f s) = sv_conns s"
  "sv_nconns (map_sock sid f s) = sv_nconns s"
  "sv_socks (map_sock sid f s) = (sv_socks s)(sid := map_option f (sv_socks s sid))"
  "sv_tasks (map_sock sid f s) = sv_tasks s" "sv_readers (map_sock sid f s) = sv_readers s"
  "sv_crashed (map_sock sid f s) = sv_crashed s"
  by (simp_all add: map_sock_def)

lemma map_conn_fields [simp]:
  "sv_nsps (map_conn ec f s) = sv_nsps s"
  "sv_engines (map_conn ec f s) = sv_engines s"
  "sv_conns (map_conn ec f s) = (sv_conns s)(ec := map_option f (sv_conns s ec))"
  "sv_nconns (map_conn ec f s) = sv_nconns s" "sv_socks (map_conn ec f s) = sv_socks s"
  "sv_tasks (map_conn ec f s) = sv_tasks s" "sv_readers (map_conn ec f s) = sv_readers s"
  "sv_crashed (map_conn ec f s) = sv_crashed s"
  by (simp_all add: map_conn_def)

lemma newSocket_fields [simp]:
  "get_ns name (newSocket sid nsp ec s) = get_ns name s"
  "sv_engines (newSocket sid nsp ec s) = sv_engines s" "sv_conns (newSocket sid nsp ec s) = sv_conns s"
  "sv_nconns (newSocket sid nsp ec s) = sv_nconns s"
  "sv_socks (newSocket sid nsp ec s) = (sv_socks s)(sid \<mapsto>
     \<lparr>sk_nsp = nsp, sk_ec = ec, sk_connected = False, sk_acks = newAckTable\<rparr>)"
  "sv_tasks (newSocket sid nsp ec s) = sv_tasks s" "sv_crashed (newSocket sid nsp ec s) = sv_crashed s"
  by (simp_all add: newSocket_def)

section \<open>The invariant\<close>

text \<open>
  Every namespace is consistent in itself; a namespace lists exactly the connected sockets
  that belong to it.
\<close>

definition members_ok :: "server \<Rightarrow> bool" where
  "members_ok s \<longleftrightarrow>
     (\<forall>name n. get_ns name s = Some n \<longrightarrow>
        ns_inv n
        \<and> (\<forall>sid. sid \<in> set (ns_sockets n) \<longleftrightarrow>
             (\<exists>k. sv_socks s sid = Some k \<and> sk_nsp k = name \<and> sk_connected k)))"

text \<open>A connection only routes to connected sockets of its own, under their namespace.\<close>

definition routes_ok :: "server \<Rightarrow> bool" where
  "routes_ok s \<longleftrightarrow>
     (\<forall>ec c nsp sid. sv_conns s ec = Some c \<longrightarrow> map_of (ec_sockets c) nsp = Some sid \<longrightarrow>
        (\<exists>k. sv_socks s sid = Some k \<and> sk_nsp k = nsp \<and> sk_ec k = ec \<and> sk_connected k))"

text \<open>Sockets refer to existing namespaces and connections, and their ack tables are sound.\<close>

definition socks_ok :: "server \<Rightarrow> bool" where
  "socks_ok s \<longleftrightarrow>
     (\<forall>sid k. sv_socks s sid = Some k \<longrightarrow>
        ack_inv (sk_acks k) \<and> get_ns (sk_nsp k) s \<noteq> None \<and> sv_conns s (sk_ec k) \<noteq> None)
     \<and> (\<forall>t\<in>set (sv_tasks s). sv_socks s (et_sock t) \<noteq> None)"

text \<open>
  Connection objects are numbered, the engine table refers to existing ones, and a packet
  waiting for its attachments names a namespace; a connection has one route per namespace.
\<close>

definition one_route :: "engineConn \<Rightarrow> bool" where
  "one_route c \<longleftrightarrow> distinct (map fst (ec_sockets c))"

lemma one_route_simps [simp]:
  "one_route c \<Longrightarrow> one_route (c\<lparr>ec_sockets := AList.delete nsp (ec_sockets c)\<rparr>)"
  "one_route c \<Longrightarrow> one_route (c\<lparr>ec_sockets := AList.update nsp sid (ec_sockets c)\<rparr>)"
  "one_route (c\<lparr>ec_sockets := []\<rparr>)" "one_route (c\<lparr>ec_in := q\<rparr>) = one_route c"
  "one_route (c\<lparr>ec_recon := r\<rparr>) = one_route c" "one_route (c\<lparr>ec_started := b\<rparr>) = one_route c"
  "one_route (newEngineConn es)"
  by (auto simp: one_route_def newEngineConn_def distinct_update distinct_delete)

definition conns_ok :: "server \<Rightarrow> bool" where
  "conns_ok s \<longleftrightarrow>
     (\<forall>es ec. map_of (sv_engines s) es = Some ec \<longrightarrow> (\<exists>c. sv_conns s ec = Some c \<and> ec_es c = es))
     \<and> (\<forall>ec. sv_nconns s \<le> ec \<longrightarrow> sv_conns s ec = None)
     \<and> (\<forall>ec c r. sv_conns s ec = Some c \<longrightarrow> ec_recon c = Some r \<longrightarrow> sp_Nsp (rc_pkt r) \<noteq> [])
     \<and> (\<forall>ec c. sv_conns s ec = Some c \<longrightarrow> one_route c)"

definition sv_inv :: "server \<Rightarrow> bool" where
  "sv_inv s \<longleftrightarrow> members_ok s \<and> routes_ok s \<and> socks_ok s \<and> conns_ok s"

lemmas sv_inv_defs = sv_inv_def members_ok_def routes_ok_def socks_ok_def conns_ok_def

lemma sv_invI:
  assumes "\<And>name n. get_ns name s = Some n \<Longrightarrow> ns_inv n"
    and "\<And>name n sid. get_ns name s = Some n \<Longrightarrow> sid \<in> set (ns_sockets n) \<longleftrightarrow>
          (\<exists>k. sv_socks s sid = Some k \<and> sk_nsp k = name \<and> sk_connected k)"
    and "\<And>ec c nsp sid. sv_conns s ec = Some c \<Longrightarrow> map_of (ec_sockets c) nsp = Some sid \<Longrightarrow>
          \<exists>k. sv_socks s sid = Some k \<and> sk_nsp k = nsp \<and> sk_ec k = ec \<and> sk_connected k"
    and "\<And>sid k. sv_socks s sid = Some k \<Longrightarrow>
          ack_inv (sk_acks k) \<and> get_ns (sk_nsp k) s \<noteq> None \<and> sv_conns s (sk_ec k) \<noteq> None"
    and "\<And>t. t \<in> set (sv_tasks s) \<Longrightarrow> sv_socks s (et_sock t) \<noteq> None"
    and "\<And>es ec. map_of (sv_engines s) es = Some ec \<Longrightarrow> \<exists>c. sv_conns s ec = Some c \<and> ec_es c = es"
    and "\<And>ec. sv_nconns s \<le> ec \<Longrightarrow> sv_conns s ec = None"
    and "\<And>ec c r. sv_conns s ec = Some c \<Longrightarrow> ec_recon c = Some r \<Longrightarrow> sp_Nsp (rc_pkt r) \<noteq> []"
    and "\<And>ec c. sv_conns s ec = Some c \<Longrightarrow> one_route c"
  shows "sv_inv s"
  using assms unfolding sv_inv_defs by blast

lemma sv_invD:
  assumes "sv_inv s"
  shows sv_inv_ns: "\<And>name n. get_ns name s = Some n \<Longrightarrow> ns_inv n"
    and sv_inv_member: "\<And>name n sid. get_ns name s = Some n \<Longrightarrow> sid \<in> set (ns_sockets n) \<longleftrightarrow>
          (\<exists>k. sv_socks s sid = Some k \<and> sk_nsp k = name \<and> sk_connected k)"
    and sv_inv_route: "\<And>ec c nsp sid. sv_conns s ec = Some c \<Longrightarrow> map_of (ec_sockets c) nsp = Some sid \<Longrightarrow>
          \<exists>k. sv_socks s sid = Some k \<and> sk_nsp k = nsp \<and> sk_ec k = ec \<and> sk_connected k"
    and sv_inv_sock: "\<And>sid k. sv_socks s sid = Some k \<Longrightarrow>
          ack_inv (sk_acks k) \<and> get_ns (sk_nsp k) s \<noteq> None \<and> sv_conns s (sk_ec k) \<noteq> None"
    and sv_inv_task: "\<And>t. t \<in> set (sv_tasks s) \<Longrightarrow> sv_socks s (et_sock t) \<noteq> None"
    and sv_inv_engine: "\<And>es ec. map_of (sv_engines s) es = Some ec \<Longrightarrow> \<exists>c. sv_conns s ec = Some c \<and> ec_es c = es"
    and sv_inv_fresh: "\<And>ec. sv_nconns s \<le> ec \<Longrightarrow> sv_conns s ec = None"
    and sv_inv_recon: "\<And>ec c r. sv_conns s ec = Some c \<Longrightarrow> ec_recon c = Some r \<Longrightarrow> sp_Nsp (rc_pkt r) \<noteq> []"
    and sv_inv_keys: "\<And>ec c. sv_conns s ec = Some c \<Longrightarrow> one_route c"
  using assms unfolding sv_inv_defs by blast+

lemma sv_inv_init: "sv_inv (NewServerWithConfig h)"
  by (simp add: sv_inv_defs NewServerWithConfig_def get_ns_def ns_inv_new)

text \<open>What is not mentioned in the invariant can change freely.\<close>

lemma sv_inv_readers [simp]: "sv_inv (s\<lparr>sv_readers := h\<rparr>) = sv_inv s"
  by (simp add: sv_inv_defs)

lemma sv_inv_crashed [simp]: "sv_inv (s\<lparr>sv_crashed := b\<rparr>) = sv_inv s"
  by (simp add: sv_inv_defs)

lemma sv_inv_tasks: "sv_inv s \<Longrightarrow> set ts \<subseteq> set (sv_tasks s) \<Longrightarrow> sv_inv (s\<lparr>sv_tasks := ts\<rparr>)"
  by (auto simp: sv_inv_defs)

text \<open>Sending only drains readers.\<close>

lemma readers_self: "\<exists>h. s = s\<lparr>sv_readers := h\<rparr>"
  by (rule exI [of _ "sv_readers s"]) simp

lemma send_on_state: "\<exists>h. fst (send_on ec pkt s) = s\<lparr>sv_readers := h\<rparr>"
  by (auto simp: send_on_def split: option.splits prod.splits intro: readers_self)

lemma sock_send_state: "\<exists>h. fst (sock_send sid pkt s) = s\<lparr>sv_readers := h\<rparr>"
  using send_on_state by (auto simp: sock_send_def split: option.splits intro: readers_self)

lemma emitEvent_state: "\<exists>h. fst (emitEvent sid i event args s) = s\<lparr>sv_readers := h\<rparr>"
  using sock_send_state by (auto simp: emitEvent_def split: option.splits intro: readers_self)

lemma Emit_state: "\<exists>h. fst (snd (Emit sid event args s)) = s\<lparr>sv_readers := h\<rparr>"
  using emitEvent_state by (auto simp: Emit_def intro: readers_self)

lemma deliver_state: "\<exists>h. fst (deliver nsp event args sid s) = s\<lparr>sv_readers := h\<rparr>"
  using Emit_state by (auto simp: deliver_def split: option.splits intro: readers_self)

lemma broadcast_state: "\<exists>h. fst (broadcast nsp room except event args s) = s\<lparr>sv_readers := h\<rparr>"
proof -
  have "\<exists>h. fst (fold (\<lambda>sid (s1, e1). case deliver nsp event args sid s1 of (s2, e2) \<Rightarrow> (s2, e1 @ e2))
      ids (t, e)) = t\<lparr>sv_readers := h\<rparr>" for ids t e
  proof (induction ids arbitrary: t e)
    case (Cons i ids)
    obtain h e' where "deliver nsp event args i t = (t\<lparr>sv_readers := h\<rparr>, e')"
      using deliver_state [of nsp event args i t] by (metis prod.collapse)
    then show ?case
      using Cons.IH [of "t\<lparr>sv_readers := h\<rparr>" "e @ e'"] by auto
  qed (simp add: readers_self)
  then show ?thesis
    by (auto simp: broadcast_def Broadcast_def split: option.splits intro: readers_self)
qed

section \<open>Preservation\<close>

subsection \<open>Namespaces and rooms\<close>

lemma sv_inv_map_ns:
  assumes "sv_inv s" and "\<And>n. ns_inv n \<Longrightarrow> ns_inv (f n)" and "\<And>n. ns_sockets (f n) = ns_sockets n"
  shows "sv_inv (map_ns name f s)"
proof (rule sv_invI)
  fix name' n sid assume "get_ns name' (map_ns name f s) = Some n"
  then obtain n0 where "get_ns name' s = Some n0" "ns_sockets n = ns_sockets n0"
    using assms(3) by (auto split: if_splits)
  then show "sid \<in> set (ns_sockets n) \<longleftrightarrow>
      (\<exists>k. sv_socks (map_ns name f s) sid = Some k \<and> sk_nsp k = name' \<and> sk_connected k)"
    using sv_inv_member [OF assms(1)] by simp
qed (use assms(2) sv_invD [OF assms(1)] in \<open>auto split: if_splits\<close>)

lemma get_ns_namespaceFor [simp]:
  "get_ns name (namespaceFor nsp s) =
     (if name = nsp_name nsp \<and> get_ns name s = None then Some newNamespace else get_ns name s)"
  by (auto simp: namespaceFor_def get_ns_def update_conv' split: option.splits)

lemma namespaceFor_fields [simp]:
  "sv_engines (namespaceFor nsp s) = sv_engines s" "sv_conns (namespaceFor nsp s) = sv_conns s"
  "sv_nconns (namespaceFor nsp s) = sv_nconns s" "sv_socks (namespaceFor nsp s) = sv_socks s"
  "sv_tasks (namespaceFor nsp s) = sv_tasks s" "sv_crashed (namespaceFor nsp s) = sv_crashed s"
  by (simp_all add: namespaceFor_def split: option.split)

lemma sv_inv_namespaceFor:
  assumes "sv_inv s"
  shows "sv_inv (namespaceFor nsp s)"
proof -
  have new: "sk_nsp k \<noteq> nsp_name nsp" if "get_ns (nsp_name nsp) s = None" "sv_socks s sid = Some k" for sid k
    using sv_inv_sock [OF assms that(2)] that(1) by metis
  show ?thesis
  proof (rule sv_invI)
    fix name n sid assume "get_ns name (namespaceFor nsp s) = Some n"
    then show "sid \<in> set (ns_sockets n) \<longleftrightarrow>
        (\<exists>k. sv_socks (namespaceFor nsp s) sid = Some k \<and> sk_nsp k = name \<and> sk_connected k)"
      using sv_inv_member [OF assms] new by (auto split: if_splits)
  qed (use ns_inv_new sv_invD [OF assms] in \<open>auto split: if_splits\<close>)
qed

lemmas registration_defs =
  OnConnect_def OnDisconnect_def OnError_def OnEvent_def OnAny_def SetUnknownEventAck_def Use_def

lemma sv_inv_registration:
  assumes "sv_inv s"
  shows "sv_inv (OnConnect nsp f s)" "sv_inv (OnDisconnect nsp d s)" "sv_inv (OnError nsp d s)"
    "sv_inv (OnEvent nsp e h s)" "sv_inv (OnAny nsp d s)" "sv_inv (SetUnknownEventAck nsp vs s)"
    "sv_inv (Use nsp m s)"
  unfolding registration_defs using sv_inv_namespaceFor [OF assms, of nsp]
  by (intro sv_inv_map_ns; simp add: inv_simps)+

lemma sv_inv_rooms:
  assumes "sv_inv s"
  shows "sv_inv (JoinRoom sid room s)" "sv_inv (LeaveRoom sid room s)"
  using assms sv_inv_map_ns [OF assms]
  by (simp_all add: JoinRoom_def LeaveRoom_def inv_simps split: option.split)

subsection \<open>Sockets\<close>

lemma sv_inv_map_sock:
  assumes "sv_inv s"
    and "\<And>k. sk_nsp (f k) = sk_nsp k \<and> sk_ec (f k) = sk_ec k \<and> sk_connected (f k) = sk_connected k"
    and "\<And>k. sv_socks s sid = Some k \<Longrightarrow> ack_inv (sk_acks (f k))"
  shows "sv_inv (map_sock sid f s)"
proof (rule sv_invI)
  fix name n i assume "get_ns name (map_sock sid f s) = Some n"
  then show "i \<in> set (ns_sockets n) \<longleftrightarrow>
      (\<exists>k. sv_socks (map_sock sid f s) i = Some k \<and> sk_nsp k = name \<and> sk_connected k)"
    using sv_inv_member [OF assms(1)] assms(2) by auto
next
  fix ec c nsp i assume "sv_conns (map_sock sid f s) ec = Some c" "map_of (ec_sockets c) nsp = Some i"
  then show "\<exists>k. sv_socks (map_sock sid f s) i = Some k \<and> sk_nsp k = nsp \<and> sk_ec k = ec \<and> sk_connected k"
    using sv_inv_route [OF assms(1), of ec c nsp i] assms(2) by auto
next
  fix i k assume "sv_socks (map_sock sid f s) i = Some k"
  then show "ack_inv (sk_acks k) \<and> get_ns (sk_nsp k) (map_sock sid f s) \<noteq> None
      \<and> sv_conns (map_sock sid f s) (sk_ec k) \<noteq> None"
    using sv_inv_sock [OF assms(1)] assms(2,3) by (auto split: if_splits)
qed (use sv_invD [OF assms(1)] in auto)

lemma sv_inv_EmitWithAck:
  assumes "sv_inv s" and "\<And>k. sv_socks s sid = Some k \<Longrightarrow> at_seq (sk_acks k) < max_int64"
  shows "sv_inv (fst (snd (EmitWithAck sid event cb args s)))"
proof (cases "sv_socks s sid")
  case (Some k)
  obtain h1 h2 where
    h: "fst (emitEvent sid (-1) event args s) = s\<lparr>sv_readers := h1\<rparr>"
    using emitEvent_state by blast
  show ?thesis
  proof (cases cb)
    case (Some f)
    have t: "ack_inv (ack_register (at_seq (sk_acks k) + 1) (Some f) (snd (ack_next (sk_acks k))))"
      using assms \<open>sv_socks s sid = Some k\<close> ack_inv_next [of "sk_acks k"]
      by (intro ack_inv_register) (auto simp: sv_inv_defs ack_next_def inc64_def ack_inv_def)
    let ?s = "map_sock sid (\<lambda>k'. k'\<lparr>sk_acks := ack_register (at_seq (sk_acks k) + 1) (Some f) (snd (ack_next (sk_acks k)))\<rparr>) s"
    have "sv_inv ?s"
      using assms(1) t by (intro sv_inv_map_sock) auto
    moreover have "fst (ack_next (sk_acks k)) = at_seq (sk_acks k) + 1"
      using assms(2) [OF \<open>sv_socks s sid = Some k\<close>] by (simp add: ack_next_def inc64_def)
    moreover obtain h where "fst (emitEvent sid (at_seq (sk_acks k) + 1) event args ?s) = ?s\<lparr>sv_readers := h\<rparr>"
      using emitEvent_state by blast
    ultimately show ?thesis
      using assms(1) Some \<open>sv_socks s sid = Some k\<close>
      by (cases "ack_next (sk_acks k)") (simp add: EmitWithAck_def)
  qed (use assms(1) Some h in \<open>simp add: EmitWithAck_def\<close>)
qed (simp add: EmitWithAck_def assms(1))

subsection \<open>Leaving\<close>

text \<open>The state in which a socket has left its namespace, before anything is sent.\<close>

definition leave_state :: "string \<Rightarrow> socket \<Rightarrow> server \<Rightarrow> server" where
  "leave_state sid k s =
     map_conn (sk_ec k) (\<lambda>c. c\<lparr>ec_sockets := AList.delete (sk_nsp k) (ec_sockets c)\<rparr>)
       (map_sock sid (\<lambda>k. k\<lparr>sk_connected := False, sk_acks := ack_clear (sk_acks k)\<rparr>)
         (map_ns (sk_nsp k) (ns_removeSocket sid) s))"

definition member :: "string \<Rightarrow> server \<Rightarrow> bool" where
  "member sid s \<longleftrightarrow>
     (\<exists>k n. sv_socks s sid = Some k \<and> get_ns (sk_nsp k) s = Some n \<and> sid \<in> set (ns_sockets n))"

lemma member_connected: "sv_inv s \<Longrightarrow> member sid s = Connected sid s"
  using sv_inv_member [of s] sv_inv_sock [of s]
  by (auto simp: member_def Connected_def split: option.splits) blast+

lemma disconnectSocket_nonmember: "\<not> member sid s \<Longrightarrow> disconnectSocket sid reason s = (s, [])"
  by (auto simp: disconnectSocket_def member_def split: option.splits)

lemma disconnectSocket_member:
  assumes "sv_socks s sid = Some k" and "get_ns (sk_nsp k) s = Some n" and "sid \<in> set (ns_sockets n)"
  obtains h sent where
    "disconnectSocket sid reason s =
       ((leave_state sid k s)\<lparr>sv_readers := h\<rparr>, sent @ map (\<lambda>h. DisconnectCall h sid reason) (ns_disconnect n))"
    "reason \<noteq> ''server namespace disconnect'' \<longrightarrow> sent = []" "\<forall>e\<in>set sent. \<exists>es m. e = Send es m"
proof -
  let ?s1 = "map_sock sid (\<lambda>k. k\<lparr>sk_acks := ack_clear (sk_acks k)\<rparr>)
      (setConnected sid False (map_ns (sk_nsp k) (ns_removeSocket sid) s))"
  let ?send = "if reason = ''server namespace disconnect''
      then sock_send sid (packet Disconnect (sk_nsp k) (-1) VNil) else run_all []"
  obtain h where h: "fst (?send ?s1) = ?s1\<lparr>sv_readers := h\<rparr>"
    using sock_send_state [of sid _ ?s1] readers_self [of ?s1] by (cases "reason = ''server namespace disconnect''") auto
  have sends: "\<forall>e\<in>set (snd (?send ?s1)). \<exists>es m. e = Send es m"
    by (auto simp: sock_send_def send_on_def split: option.splits prod.splits)
  have d: "detachEngineSocket sid (?s1\<lparr>sv_readers := h\<rparr>) = (leave_state sid k s)\<lparr>sv_readers := h\<rparr>"
    using assms(1)
    by (simp add: detachEngineSocket_def leave_state_def setConnected_def map_conn_def map_sock_def comp_def)
  have "disconnectSocket sid reason s =
      ((leave_state sid k s)\<lparr>sv_readers := h\<rparr>, snd (?send ?s1) @ map (\<lambda>h. DisconnectCall h sid reason) (ns_disconnect n))"
    using assms h d by (cases "?send ?s1") (simp add: disconnectSocket_def modify_def)
  then show thesis
    using sends by (intro that) auto
qed

lemma sv_inv_leave:
  assumes "sv_inv s" and k: "sv_socks s sid = Some k"
  shows "sv_inv (leave_state sid k s)"
proof (rule sv_invI)
  fix name n i assume n: "get_ns name (leave_state sid k s) = Some n"
  then obtain n0 where "get_ns name s = Some n0"
    "set (ns_sockets n) = (if name = sk_nsp k then set (ns_sockets n0) - {sid} else set (ns_sockets n0))"
    by (auto simp: leave_state_def split: if_splits)
  then show "i \<in> set (ns_sockets n) \<longleftrightarrow>
      (\<exists>k'. sv_socks (leave_state sid k s) i = Some k' \<and> sk_nsp k' = name \<and> sk_connected k')"
    using sv_inv_member [OF assms(1), of name n0 i] k by (auto simp: leave_state_def)
next
  fix ec c nsp i
  assume c: "sv_conns (leave_state sid k s) ec = Some c" "map_of (ec_sockets c) nsp = Some i"
  then obtain c0 where c0: "sv_conns s ec = Some c0" "map_of (ec_sockets c0) nsp = Some i"
    "ec = sk_ec k \<longrightarrow> nsp \<noteq> sk_nsp k"
    by (auto simp: leave_state_def delete_conv' split: if_splits)
  from sv_inv_route [OF assms(1) c0(1,2)] have "i \<noteq> sid"
    using k c0(3) by auto
  with sv_inv_route [OF assms(1) c0(1,2)]
  show "\<exists>k'. sv_socks (leave_state sid k s) i = Some k' \<and> sk_nsp k' = nsp \<and> sk_ec k' = ec \<and> sk_connected k'"
    by (simp add: leave_state_def)
next
  fix i k' assume "sv_socks (leave_state sid k s) i = Some k'"
  then show "ack_inv (sk_acks k') \<and> get_ns (sk_nsp k') (leave_state sid k s) \<noteq> None
      \<and> sv_conns (leave_state sid k s) (sk_ec k') \<noteq> None"
    using sv_inv_sock [OF assms(1), of i] sv_inv_sock [OF assms] k
    by (auto simp: leave_state_def inv_simps split: if_splits)
next
  fix es ec assume "map_of (sv_engines (leave_state sid k s)) es = Some ec"
  then show "\<exists>c. sv_conns (leave_state sid k s) ec = Some c \<and> ec_es c = es"
    using sv_inv_engine [OF assms(1), of es ec] by (auto simp: leave_state_def)
qed (use sv_invD [OF assms(1)] k in \<open>auto simp: leave_state_def inv_simps split: if_splits\<close>)

lemma sv_inv_disconnectSocket:
  assumes "sv_inv s"
  shows "sv_inv (fst (disconnectSocket sid reason s))"
proof (cases "member sid s")
  case True
  then obtain k n where "sv_socks s sid = Some k" "get_ns (sk_nsp k) s = Some n" "sid \<in> set (ns_sockets n)"
    by (auto simp: member_def)
  then obtain h sent where "disconnectSocket sid reason s = ((leave_state sid k s)\<lparr>sv_readers := h\<rparr>,
      sent @ map (\<lambda>h. DisconnectCall h sid reason) (ns_disconnect n))"
    by (rule disconnectSocket_member)
  with sv_inv_leave [OF assms \<open>sv_socks s sid = Some k\<close>] show ?thesis
    by simp
next
  case False
  then show ?thesis
    using assms by (simp add: disconnectSocket_nonmember)
qed

subsection \<open>Connecting\<close>

text \<open>A socket that was accepted, and one that was turned away again.\<close>

definition accept_state :: "string \<Rightarrow> string \<Rightarrow> nat \<Rightarrow> server \<Rightarrow> server" where
  "accept_state sid nsp ec s =
     setConnected sid True
       (map_conn ec (\<lambda>c. c\<lparr>ec_sockets := AList.update nsp sid (ec_sockets c)\<rparr>)
         (map_ns nsp (ns_addSocket sid) (newSocket sid nsp ec s)))"

definition reject_state :: "nat \<Rightarrow> string \<Rightarrow> string \<Rightarrow> server \<Rightarrow> server" where
  "reject_state ec sid nsp s =
     setConnected sid False
       (map_conn ec (\<lambda>c. c\<lparr>ec_sockets := AList.delete nsp (ec_sockets c)\<rparr>)
         (map_ns nsp (ns_removeSocket sid) s))"

lemma rejectConnect_state:
  "\<exists>h. fst (rejectConnect ec sid nsp msg s) = (reject_state ec sid nsp s)\<lparr>sv_readers := h\<rparr>"
  using send_on_state [of ec _ "reject_state ec sid nsp s"]
  by (auto simp: rejectConnect_def sendConnectError_def modify_def reject_state_def case_prod_beta)

lemma handleConnect_state:
  assumes "sp_Nsp pkt \<noteq> []"
  shows "\<exists>h. fst (handleConnect sid ec pkt s) =
    (case get_ns (sp_Nsp pkt) s of
       None \<Rightarrow> s
     | Some n \<Rightarrow>
         if runMiddlewares sid (connectData (sp_Data pkt)) n \<noteq> None
         then reject_state ec sid (sp_Nsp pkt) (newSocket sid (sp_Nsp pkt) ec s)
         else if runConnect sid n \<noteq> None
         then reject_state ec sid (sp_Nsp pkt) (accept_state sid (sp_Nsp pkt) ec s)
         else accept_state sid (sp_Nsp pkt) ec s)\<lparr>sv_readers := h\<rparr>"
proof (cases "get_ns (sp_Nsp pkt) s")
  case None
  then show ?thesis
    using assms send_on_state [of ec _ s]
    by (simp add: handleConnect_def namespaceLookup_def nsp_name_def sendConnectError_def)
next
  case (Some n)
  let ?nsp = "sp_Nsp pkt"
  let ?new = "newSocket sid ?nsp ec s"
  let ?acc = "accept_state sid ?nsp ec s"
  show ?thesis
  proof (cases "runMiddlewares sid (connectData (sp_Data pkt)) n")
    case (Some err)
    then show ?thesis
      using \<open>get_ns ?nsp s = Some n\<close> assms rejectConnect_state [of ec sid ?nsp err ?new]
      by (simp add: handleConnect_def namespaceLookup_def nsp_name_def modify_def case_prod_beta Let_def)
  next
    case None
    then show ?thesis
      using \<open>get_ns ?nsp s = Some n\<close> assms rejectConnect_state [of ec sid ?nsp _ ?acc]
        send_on_state [of ec _ ?acc]
      by (cases "runConnect sid n")
        (simp_all add: handleConnect_def namespaceLookup_def nsp_name_def modify_def case_prod_beta Let_def
          accept_state_def [symmetric])
  qed
qed

lemma sv_inv_accept:
  assumes "sv_inv s" and sid: "sv_socks s sid = None" and n: "get_ns nsp s = Some n" and c: "sv_conns s ec = Some c"
  shows "sv_inv (accept_state sid nsp ec s)"
proof (rule sv_invI)
  fix name n' i assume "get_ns name (accept_state sid nsp ec s) = Some n'"
  then show "i \<in> set (ns_sockets n') \<longleftrightarrow>
      (\<exists>k. sv_socks (accept_state sid nsp ec s) i = Some k \<and> sk_nsp k = name \<and> sk_connected k)"
    using sv_inv_member [OF assms(1), of name] sid
    by (auto simp: accept_state_def setConnected_def split: if_splits)
next
  fix ec' c' nsp' i
  assume "sv_conns (accept_state sid nsp ec s) ec' = Some c'" "map_of (ec_sockets c') nsp' = Some i"
  then show "\<exists>k. sv_socks (accept_state sid nsp ec s) i = Some k \<and> sk_nsp k = nsp' \<and> sk_ec k = ec' \<and> sk_connected k"
    using sv_inv_route [OF assms(1), of ec' _ nsp' i] sid c
    by (fastforce simp: accept_state_def setConnected_def update_conv' split: if_splits)
next
  fix i k assume "sv_socks (accept_state sid nsp ec s) i = Some k"
  then show "ack_inv (sk_acks k) \<and> get_ns (sk_nsp k) (accept_state sid nsp ec s) \<noteq> None
      \<and> sv_conns (accept_state sid nsp ec s) (sk_ec k) \<noteq> None"
    using sv_inv_sock [OF assms(1), of i] n c
    by (auto simp: accept_state_def setConnected_def inv_simps split: if_splits)
next
  fix es ec' assume "map_of (sv_engines (accept_state sid nsp ec s)) es = Some ec'"
  then show "\<exists>c. sv_conns (accept_state sid nsp ec s) ec' = Some c \<and> ec_es c = es"
    using sv_inv_engine [OF assms(1), of es ec'] by (auto simp: accept_state_def setConnected_def)
qed (use sv_invD [OF assms(1)] in \<open>auto simp: accept_state_def setConnected_def inv_simps split: if_splits\<close>)

lemma sv_inv_newSocket:
  assumes "sv_inv s" and "sv_socks s sid = None" and "get_ns nsp s = Some n" and "sv_conns s ec = Some c"
  shows "sv_inv (newSocket sid nsp ec s)"
proof (rule sv_invI)
  fix name n' i assume "get_ns name (newSocket sid nsp ec s) = Some n'"
  then show "i \<in> set (ns_sockets n') \<longleftrightarrow>
      (\<exists>k. sv_socks (newSocket sid nsp ec s) i = Some k \<and> sk_nsp k = name \<and> sk_connected k)"
    using sv_inv_member [OF assms(1), of name n' i] assms(2) by auto
next
  fix ec' c' nsp' i
  assume "sv_conns (newSocket sid nsp ec s) ec' = Some c'" "map_of (ec_sockets c') nsp' = Some i"
  then show "\<exists>k. sv_socks (newSocket sid nsp ec s) i = Some k \<and> sk_nsp k = nsp' \<and> sk_ec k = ec' \<and> sk_connected k"
    using sv_inv_route [OF assms(1), of ec' c' nsp' i] assms(2) by auto
next
  fix i k assume "sv_socks (newSocket sid nsp ec s) i = Some k"
  then show "ack_inv (sk_acks k) \<and> get_ns (sk_nsp k) (newSocket sid nsp ec s) \<noteq> None
      \<and> sv_conns (newSocket sid nsp ec s) (sk_ec k) \<noteq> None"
    using sv_inv_sock [OF assms(1), of i] assms(3,4) by (auto simp: inv_simps split: if_splits)
qed (use sv_invD [OF assms(1)] in auto)

text \<open>Turning a socket away that was registered or not.\<close>

lemma sv_inv_reject:
  assumes "sv_inv s" and k: "sv_socks s sid = Some k" "sk_nsp k = nsp" "sk_ec k = ec"
  shows "sv_inv (reject_state ec sid nsp s)"
proof (rule sv_invI)
  fix name n i assume n: "get_ns name (reject_state ec sid nsp s) = Some n"
  then obtain n0 where "get_ns name s = Some n0"
    "set (ns_sockets n) = (if name = nsp then set (ns_sockets n0) - {sid} else set (ns_sockets n0))"
    by (auto simp: reject_state_def setConnected_def split: if_splits)
  then show "i \<in> set (ns_sockets n) \<longleftrightarrow>
      (\<exists>k'. sv_socks (reject_state ec sid nsp s) i = Some k' \<and> sk_nsp k' = name \<and> sk_connected k')"
    using sv_inv_member [OF assms(1), of name n0 i] k by (auto simp: reject_state_def setConnected_def)
next
  fix ec' c nsp' i
  assume c: "sv_conns (reject_state ec sid nsp s) ec' = Some c" "map_of (ec_sockets c) nsp' = Some i"
  then obtain c0 where c0: "sv_conns s ec' = Some c0" "map_of (ec_sockets c0) nsp' = Some i"
    "ec' = ec \<longrightarrow> nsp' \<noteq> nsp"
    by (auto simp: reject_state_def setConnected_def delete_conv' split: if_splits)
  from sv_inv_route [OF assms(1) c0(1,2)] have "i \<noteq> sid"
    using k c0(3) by auto
  with sv_inv_route [OF assms(1) c0(1,2)]
  show "\<exists>k'. sv_socks (reject_state ec sid nsp s) i = Some k' \<and> sk_nsp k' = nsp' \<and> sk_ec k' = ec' \<and> sk_connected k'"
    by (simp add: reject_state_def setConnected_def)
next
  fix i k' assume "sv_socks (reject_state ec sid nsp s) i = Some k'"
  then show "ack_inv (sk_acks k') \<and> get_ns (sk_nsp k') (reject_state ec sid nsp s) \<noteq> None
      \<and> sv_conns (reject_state ec sid nsp s) (sk_ec k') \<noteq> None"
    using sv_inv_sock [OF assms(1), of i] sv_inv_sock [OF assms(1,2)] k
    by (auto simp: reject_state_def setConnected_def inv_simps split: if_splits)
next
  fix es ec' assume "map_of (sv_engines (reject_state ec sid nsp s)) es = Some ec'"
  then show "\<exists>c. sv_conns (reject_state ec sid nsp s) ec' = Some c \<and> ec_es c = es"
    using sv_inv_engine [OF assms(1), of es ec'] by (auto simp: reject_state_def setConnected_def)
qed (use sv_invD [OF assms(1)] k in \<open>auto simp: reject_state_def setConnected_def inv_simps split: if_splits\<close>)

lemma accept_sock:
  "sv_socks (accept_state sid nsp ec s) sid =
     Some \<lparr>sk_nsp = nsp, sk_ec = ec, sk_connected = True, sk_acks = newAckTable\<rparr>"
  by (simp add: accept_state_def setConnected_def)

lemma sv_inv_handleConnect:
  assumes "sv_inv s" and "sv_socks s sid = None" and "sp_Nsp pkt \<noteq> []" and "sv_conns s ec = Some c"
  shows "sv_inv (fst (handleConnect sid ec pkt s))"
proof (cases "get_ns (sp_Nsp pkt) s")
  case None
  then show ?thesis
    using handleConnect_state [OF assms(3), of sid ec s] assms(1) by auto
next
  case (Some n)
  have "sv_inv (reject_state ec sid (sp_Nsp pkt) (newSocket sid (sp_Nsp pkt) ec s))"
    using sv_inv_newSocket [OF assms(1,2) Some assms(4)] by (rule sv_inv_reject) auto
  moreover have acc: "sv_inv (accept_state sid (sp_Nsp pkt) ec s)"
    using sv_inv_accept [OF assms(1,2) Some assms(4)] .
  moreover have "sv_inv (reject_state ec sid (sp_Nsp pkt) (accept_state sid (sp_Nsp pkt) ec s))"
    using acc accept_sock by (rule sv_inv_reject) auto
  ultimately show ?thesis
    using handleConnect_state [OF assms(3), of sid ec s] Some by (auto split: if_splits)
qed

subsection \<open>Other packets and tasks\<close>

lemma conn_route:
  "map_of (conn_sockets ec s) nsp = Some sid \<Longrightarrow> \<exists>c. sv_conns s ec = Some c \<and> map_of (ec_sockets c) nsp = Some sid"
  by (auto simp: conn_sockets_def split: option.splits)

lemma sv_inv_handleEvent:
  assumes "sv_inv s"
  shows "sv_inv (fst (handleEvent ec pkt s))"
proof -
  have "sv_inv (s\<lparr>sv_tasks := sv_tasks s @ [t]\<rparr>)" if "sv_socks s (et_sock t) \<noteq> None" for t
    using assms that by (auto simp: sv_inv_defs)
  moreover have "sv_socks s sid \<noteq> None" if "map_of (conn_sockets ec s) nsp = Some sid" for nsp sid
    using conn_route [OF that] sv_inv_route [OF assms] by fastforce
  ultimately show ?thesis
    using assms unfolding handleEvent_def by (auto split: option.splits val.splits list.splits)
qed

lemma sv_inv_handleAck:
  assumes "sv_inv s"
  shows "sv_inv (fst (handleAck ec pkt s))"
proof -
  have "sv_inv (fst (sock_handleAck sid pkt s))" for sid
  proof (cases "sv_socks s sid")
    case (Some k)
    have "ack_inv (fst (ack_invoke i args (sk_acks k)))" for i args
      using sv_inv_sock [OF assms Some] by (simp add: ack_inv_invoke)
    then have "sv_inv (map_sock sid (\<lambda>k'. k'\<lparr>sk_acks := fst (ack_invoke i args (sk_acks k))\<rparr>) s)" for i args
      using assms by (intro sv_inv_map_sock) auto
    then show ?thesis
      using Some by (simp add: sock_handleAck_def case_prod_beta Let_def)
  qed (simp add: sock_handleAck_def assms)
  then show ?thesis
    using assms by (simp add: handleAck_def split: option.split)
qed

lemma sv_inv_process:
  assumes "sv_inv s" and "sv_socks s sid = None" and "sp_Nsp pkt \<noteq> []" and "sv_conns s ec = Some c"
  shows "sv_inv (fst (process sid ec pkt s))"
  using assms sv_inv_handleConnect [OF assms] sv_inv_handleEvent [OF assms(1)] sv_inv_handleAck [OF assms(1)]
    sv_inv_disconnectSocket [OF assms(1)]
  by (cases "sp_Type pkt") (auto simp: process_def handleDisconnect_def split: option.splits)

lemma run_task_state:
  "\<exists>h b. fst (run_task t order s) = s\<lparr>sv_readers := h, sv_crashed := b\<rparr>"
proof -
  have self: "\<exists>h b. s = s\<lparr>sv_readers := h, sv_crashed := b\<rparr>"
    by (intro exI [of _ "sv_readers s"] exI [of _ "sv_crashed s"]) simp
  have crash: "\<exists>h b. s\<lparr>sv_crashed := True\<rparr> = s\<lparr>sv_readers := h, sv_crashed := b\<rparr>"
    by (intro exI [of _ "sv_readers s"] exI [of _ True]) simp
  have send: "\<exists>h b. fst (sock_send sid pkt s) = s\<lparr>sv_readers := h, sv_crashed := b\<rparr>" for sid pkt
  proof -
    obtain h where "fst (sock_send sid pkt s) = s\<lparr>sv_readers := h\<rparr>"
      using sock_send_state by blast
    then show ?thesis
      by (intro exI [of _ h] exI [of _ "sv_crashed s"]) simp
  qed
  show ?thesis
    using self crash send unfolding run_task_def
    by (simp add: case_prod_beta split: option.split bool.split)
qed

lemma sv_inv_run_task: "sv_inv s \<Longrightarrow> sv_inv (fst (run_task t order s))"
  using run_task_state [of t order s] by auto

subsection \<open>Engine.IO callbacks\<close>

lemma sv_inv_map_conn:
  assumes "sv_inv s"
    and "\<And>c. sv_conns s ec = Some c \<Longrightarrow> ec_es (f c) = ec_es c
          \<and> (\<forall>nsp sid. map_of (ec_sockets (f c)) nsp = Some sid \<longrightarrow> map_of (ec_sockets c) nsp = Some sid)
          \<and> (\<forall>r. ec_recon (f c) = Some r \<longrightarrow> sp_Nsp (rc_pkt r) \<noteq> []) \<and> (one_route c \<longrightarrow> one_route (f c))"
  shows "sv_inv (map_conn ec f s)"
proof (rule sv_invI)
  fix ec' c assume "sv_conns (map_conn ec f s) ec' = Some c"
  then show "one_route c"
    using sv_inv_keys [OF assms(1), of ec'] assms(2) by (auto split: if_splits)
next
  fix ec' c nsp sid
  assume "sv_conns (map_conn ec f s) ec' = Some c" "map_of (ec_sockets c) nsp = Some sid"
  then show "\<exists>k. sv_socks (map_conn ec f s) sid = Some k \<and> sk_nsp k = nsp \<and> sk_ec k = ec' \<and> sk_connected k"
    using sv_inv_route [OF assms(1), of ec' _ nsp sid] assms(2) by (auto split: if_splits)
next
  fix es ec' assume "map_of (sv_engines (map_conn ec f s)) es = Some ec'"
  then show "\<exists>c. sv_conns (map_conn ec f s) ec' = Some c \<and> ec_es c = es"
    using sv_inv_engine [OF assms(1), of es ec'] assms(2) by auto
next
  fix ec' c r assume "sv_conns (map_conn ec f s) ec' = Some c" "ec_recon c = Some r"
  then show "sp_Nsp (rc_pkt r) \<noteq> []"
    using sv_inv_recon [OF assms(1), of ec'] assms(2) by (auto split: if_splits)
next
  fix sid k assume "sv_socks (map_conn ec f s) sid = Some k"
  then show "ack_inv (sk_acks k) \<and> get_ns (sk_nsp k) (map_conn ec f s) \<noteq> None
      \<and> sv_conns (map_conn ec f s) (sk_ec k) \<noteq> None"
    using sv_inv_sock [OF assms(1), of sid k] by auto
qed (use sv_invD [OF assms(1)] in auto)

lemma sv_inv_connFor:
  assumes "sv_inv s"
  shows "sv_inv (snd (connFor es s))" "\<exists>c. sv_conns (snd (connFor es s)) (fst (connFor es s)) = Some c"
proof -
  let ?s = "s\<lparr>sv_engines := AList.update es (sv_nconns s) (sv_engines s),
      sv_conns := (sv_conns s)(sv_nconns s \<mapsto> newEngineConn es), sv_nconns := sv_nconns s + 1\<rparr>"
  have old: "c = newEngineConn es \<and> ec = sv_nconns s \<or> sv_conns s ec = Some c" if "sv_conns ?s ec = Some c" for ec c
    using that by (auto split: if_splits)
  have "sv_inv ?s"
  proof (rule sv_invI)
    fix ec c assume "sv_conns ?s ec = Some c"
    then show "one_route c"
      using old [of ec c] sv_inv_keys [OF assms, of ec c] by auto
  next
    fix ec c nsp sid assume "sv_conns ?s ec = Some c" "map_of (ec_sockets c) nsp = Some sid"
    then show "\<exists>k. sv_socks ?s sid = Some k \<and> sk_nsp k = nsp \<and> sk_ec k = ec \<and> sk_connected k"
      using old [of ec c] sv_inv_route [OF assms, of ec c nsp sid] by (auto simp: newEngineConn_def)
  next
    fix es' ec assume "map_of (sv_engines ?s) es' = Some ec"
    then show "\<exists>c. sv_conns ?s ec = Some c \<and> ec_es c = es'"
      using sv_inv_engine [OF assms, of es' ec] sv_inv_fresh [OF assms, of ec]
      by (auto simp: update_conv' newEngineConn_def split: if_splits)
  next
    fix ec c r assume "sv_conns ?s ec = Some c" "ec_recon c = Some r"
    then show "sp_Nsp (rc_pkt r) \<noteq> []"
      using old [of ec c] sv_inv_recon [OF assms, of ec c r] by (auto simp: newEngineConn_def)
  qed (use sv_invD [OF assms] in auto)
  then show "sv_inv (snd (connFor es s))" "\<exists>c. sv_conns (snd (connFor es s)) (fst (connFor es s)) = Some c"
    using assms sv_inv_engine [OF assms, of es] by (auto simp: connFor_def split: option.splits)
qed

lemma sv_inv_onEngineData:
  assumes "sv_inv s"
  shows "sv_inv (onEngineData es data binary s)"
  unfolding onEngineData_def case_prod_beta
  using sv_inv_connFor(1) [OF assms, of es]
  by (intro sv_inv_map_conn) (auto dest: sv_inv_recon)

lemma sv_inv_run_disconnects:
  "sv_inv s \<Longrightarrow> sv_inv (fst (run_all (map (\<lambda>sid. disconnectSocket sid reason) sids) s))"
  using sv_inv_disconnectSocket by (induction sids arbitrary: s) (auto simp: case_prod_beta)

lemma sv_inv_engines_delete:
  assumes "sv_inv s"
  shows "sv_inv (s\<lparr>sv_engines := AList.delete es (sv_engines s)\<rparr>)"
  by (rule sv_invI) (use sv_invD [OF assms] in \<open>auto simp: delete_conv' split: if_splits\<close>)

lemma sv_inv_onEngineClose:
  assumes "sv_inv s"
  shows "sv_inv (fst (onEngineClose es reason s))"
proof (cases "map_of (sv_engines s) es")
  case (Some ec)
  let ?s = "map_conn ec (\<lambda>c. c\<lparr>ec_in := pq_close (ec_in c), ec_sockets := []\<rparr>)
      (s\<lparr>sv_engines := AList.delete es (sv_engines s)\<rparr>)"
  have "sv_inv ?s"
    using sv_inv_engines_delete [OF assms, of es] by (intro sv_inv_map_conn) (auto dest: sv_inv_recon)
  then show ?thesis
    using Some sv_inv_run_disconnects [of ?s "mapDisconnectReason reason" "map snd (conn_sockets ec s)"]
    by (simp add: onEngineClose_def modify_def case_prod_beta Let_def)
qed (simp add: onEngineClose_def assms)

lemma handleIn_nsp:
  assumes "handleIn recon data binary = (recon', pkt)" and "\<And>r. recon = Some r \<Longrightarrow> sp_Nsp (rc_pkt r) \<noteq> []"
  shows "(\<forall>r. recon' = Some r \<longrightarrow> sp_Nsp (rc_pkt r) \<noteq> []) \<and> (\<forall>p. pkt = Some p \<longrightarrow> sp_Nsp p \<noteq> [])"
proof -
  have "sp_Nsp p \<noteq> []" if "Decode data = Inr p" for p
  proof -
    from that obtain s1 s2 where "decode_nsp s1 = (sp_Nsp p, s2)"
      by (rule Decode_cases)
    from decode_nsp_wf [OF this] show ?thesis
      by (auto simp: wf_nsp_def)
  qed
  then show ?thesis
    using assms
    by (auto simp: handleIn_def feedBinary_def Let_def split: if_splits option.splits sum.splits)
qed

lemma sv_inv_process_next:
  assumes "sv_inv s" and "sv_socks s sid = None"
  shows "sv_inv (fst (process_next sid ec s))"
proof (cases "sv_conns s ec")
  case (Some c)
  obtain r q where pop: "pq_pop (ec_in c) = (r, q)"
    by fastforce
  show ?thesis
  proof (cases "\<exists>p. r = PopItem p \<and> ec_started c")
    case True
    then obtain p where r: "r = PopItem p" "ec_started c"
      by blast
    obtain recon pkt where h: "handleIn (ec_recon c) (ip_data p) (ip_binary p) = (recon, pkt)"
      by fastforce
    let ?s = "map_conn ec (\<lambda>c. c\<lparr>ec_in := q, ec_recon := recon\<rparr>) s"
    note nsp = handleIn_nsp [OF h sv_inv_recon [OF assms(1) Some]]
    have s: "sv_inv ?s"
      using nsp assms(1) Some by (intro sv_inv_map_conn) auto
    have "sv_inv (fst (process sid ec x ?s))" if "pkt = Some x" for x
      using s assms(2) nsp that Some by (intro sv_inv_process) auto
    then show ?thesis
      using Some pop r h s by (cases pkt) (simp_all add: process_next_def modify_def case_prod_beta)
  next
    case False
    then have "process_next sid ec s = (s, [])"
      using Some pop by (auto simp: process_next_def split: pop_result.split)
    then show ?thesis
      using assms(1) by simp
  qed
qed (simp add: process_next_def assms(1))

end
