(* ===== verification/SioServerProps.thy ===== *)
theory SioServerProps
  imports SioServerInv
begin

text \<open>
  The properties of the Socket.IO server: its tables agree in every reachable state, what
  connecting, disconnecting, emitting and broadcasting do, and some situations in which the
  code does not do what it means to.
\<close>

section \<open>Reachable states\<close>

inductive sv_step :: "server \<Rightarrow> effect list \<Rightarrow> server \<Rightarrow> bool" where
  st_OnConnect: "\<not> sv_crashed s \<Longrightarrow> sv_step s [] (OnConnect nsp f s)"
| st_OnDisconnect: "\<not> sv_crashed s \<Longrightarrow> sv_step s [] (OnDisconnect nsp d s)"
| st_OnError: "\<not> sv_crashed s \<Longrightarrow> sv_step s [] (OnError nsp d s)"
| st_OnEvent: "\<not> sv_crashed s \<Longrightarrow> sv_step s [] (OnEvent nsp event h s)"
| st_OnAny: "\<not> sv_crashed s \<Longrightarrow> sv_step s [] (OnAny nsp d s)"
| st_SetUnknownEventAck: "\<not> sv_crashed s \<Longrightarrow> sv_step s [] (SetUnknownEventAck nsp vs s)"
| st_Use: "\<not> sv_crashed s \<Longrightarrow> sv_step s [] (Use nsp m s)"
| st_RegisterNamespace: "\<not> sv_crashed s \<Longrightarrow> sv_step s [] (snd (RegisterNamespace nsp s))"
| st_JoinRoom: "\<not> sv_crashed s \<Longrightarrow> sv_step s [] (JoinRoom sid room s)"
| st_LeaveRoom: "\<not> sv_crashed s \<Longrightarrow> sv_step s [] (LeaveRoom sid room s)"
| st_Emit: "\<not> sv_crashed s \<Longrightarrow> snd (Emit sid event args s) = (s', es) \<Longrightarrow> sv_step s es s'"
| st_EmitWithAck: "\<not> sv_crashed s \<Longrightarrow> (\<And>k. sv_socks s sid = Some k \<Longrightarrow> at_seq (sk_acks k) < max_int64)
    \<Longrightarrow> snd (EmitWithAck sid event cb args s) = (s', es) \<Longrightarrow> sv_step s es s'"
| st_broadcast: "\<not> sv_crashed s \<Longrightarrow> broadcast nsp room except event args s = (s', es) \<Longrightarrow> sv_step s es s'"
| st_Disconnect: "\<not> sv_crashed s \<Longrightarrow> sock_Disconnect sid s = (s', es) \<Longrightarrow> sv_step s es s'"
| st_onEngineConnect: "\<not> sv_crashed s \<Longrightarrow> sv_step s [] (onEngineConnect e s)"
| st_onEngineData: "\<not> sv_crashed s \<Longrightarrow> sv_step s [] (onEngineData e data binary s)"
| st_onEngineClose: "\<not> sv_crashed s \<Longrightarrow> onEngineClose e reason s = (s', es) \<Longrightarrow> sv_step s es s'"
| st_process: "\<not> sv_crashed s \<Longrightarrow> sv_socks s sid = None \<Longrightarrow> process_next sid ec s = (s', es) \<Longrightarrow> sv_step s es s'"
| st_task: "\<not> sv_crashed s \<Longrightarrow> sv_tasks s = ts1 @ t # ts2 \<Longrightarrow> mset order = mset (et_handlers t)
    \<Longrightarrow> run_task t order (s\<lparr>sv_tasks := ts1 @ ts2\<rparr>) = (s', es) \<Longrightarrow> sv_step s es s'"

text \<open>The states a server can reach, with everything it has done so far.\<close>

inductive sv_reach :: "readers \<Rightarrow> effect list \<Rightarrow> server \<Rightarrow> bool" for h where
  init: "sv_reach h [] (NewServerWithConfig h)"
| step: "sv_reach h es s \<Longrightarrow> sv_step s es' s' \<Longrightarrow> sv_reach h (es @ es') s'"

inductive_cases sv_stepE: "sv_step s es s'"

lemma sv_step_inv: "sv_step s es s' \<Longrightarrow> sv_inv s \<Longrightarrow> sv_inv s'"
proof (induction rule: sv_step.induct)
  case (st_RegisterNamespace s nsp)
  then show ?case
    by (simp add: RegisterNamespace_def sv_inv_namespaceFor)
next
  case (st_Emit s sid event args s' es)
  then show ?case
    using Emit_state [of sid event args s] by auto
next
  case (st_EmitWithAck s sid event cb args s' es)
  then show ?case
    using sv_inv_EmitWithAck [of s sid event cb args] by simp
next
  case (st_broadcast s nsp room except event args s' es)
  then show ?case
    using broadcast_state [of nsp room except event args s] by auto
next
  case (st_Disconnect s sid s' es)
  then show ?case
    using sv_inv_disconnectSocket [of s sid] unfolding sock_Disconnect_def by (metis fst_conv)
next
  case (st_onEngineClose s e reason s' es)
  then show ?case
    using sv_inv_onEngineClose [of s e reason] by simp
next
  case (st_process s sid ec s' es)
  then show ?case
    using sv_inv_process_next [of s sid ec] by simp
next
  case (st_task s ts1 t ts2 order s' es)
  then have "sv_inv (s\<lparr>sv_tasks := ts1 @ ts2\<rparr>)"
    by (intro sv_inv_tasks) auto
  with st_task show ?case
    using sv_inv_run_task [of "s\<lparr>sv_tasks := ts1 @ ts2\<rparr>" t order] by simp
qed (simp_all add: sv_inv_registration sv_inv_rooms onEngineConnect_def sv_inv_connFor sv_inv_onEngineData)

lemma sv_reach_inv: "sv_reach h es s \<Longrightarrow> sv_inv s"
  by (induction rule: sv_reach.induct) (auto simp: sv_inv_init dest: sv_step_inv)

section \<open>The tables agree\<close>


text \<open>A server with one connection, 7, whose client has connected to the root namespace.\<close>

definition sample_server :: server where
  "sample_server = fst (process_next ''A'' 0 (onEngineData 7 ''0'' False (NewServerWithConfig sample_readers)))"

lemma Decode_connect: "Decode ''0'' = Inr (packet Connect ''/'' (-1) VNil)"
  by (simp add: Decode_def packet_type_of_byte_def is_binary_type_def decode_nsp_def decode_id_def
      defaultNamespace_def packet_def)

text \<open>A CONNECT without payload, for a namespace that lets everybody in.\<close>

lemma connect_accepted:
  assumes "get_ns nsp s = Some n" and "ns_middlewares n = []" and "ns_connect n = []" and "nsp \<noteq> []"
  shows "\<exists>h. fst (handleConnect sid ec (packet Connect nsp (-1) VNil) s) = (accept_state sid nsp ec s)\<lparr>sv_readers := h\<rparr>"
  using handleConnect_state [of "packet Connect nsp (-1) VNil" sid ec s] assms
  by (simp add: packet_def runMiddlewares_def runConnect_def)

lemma process_connect:
  assumes "sv_conns s ec = Some c" and "ec_started c" and "pq_items (ec_in c) = \<lparr>ip_data = ''0'', ip_binary = False\<rparr> # items"
    and "get_ns ''/'' s = Some n" and "ns_middlewares n = []" and "ns_connect n = []"
  shows "\<exists>h. fst (process_next sid ec s) = (accept_state sid ''/'' ec
    (map_conn ec (\<lambda>c. c\<lparr>ec_in := (ec_in c)\<lparr>pq_items := items\<rparr>\<rparr>) s))\<lparr>sv_readers := h\<rparr>"
proof -
  let ?s = "map_conn ec (\<lambda>c'. c'\<lparr>ec_in := (ec_in c)\<lparr>pq_items := items\<rparr>, ec_recon := ec_recon c\<rparr>) s"
  have s: "?s = map_conn ec (\<lambda>c. c\<lparr>ec_in := (ec_in c)\<lparr>pq_items := items\<rparr>\<rparr>) s"
    using assms(1) by (simp add: map_conn_def)
  have "fst (process_next sid ec s) = fst (handleConnect sid ec (packet Connect ''/'' (-1) VNil) ?s)"
    using assms(1-3) Decode_connect
    by (simp add: process_next_def pq_pop_def handleIn_def is_binary_type_def packet_def process_def
        modify_def case_prod_beta)
  then show ?thesis
    using connect_accepted [of "''/''" ?s n sid ec] assms(4-6) by (simp add: s)
qed

lemma new_server_ns: "get_ns ''/'' (NewServerWithConfig h) = Some newNamespace"
  by (simp add: NewServerWithConfig_def get_ns_def defaultNamespace_def)

lemma sample_server_reach: "\<exists>es. sv_reach sample_readers es sample_server"
proof -
  let ?s0 = "NewServerWithConfig sample_readers"
  let ?s1 = "onEngineData 7 ''0'' False ?s0"
  have "sv_reach sample_readers ([] @ []) ?s1"
    by (rule sv_reach.step [OF sv_reach.init]) (rule st_onEngineData, simp add: NewServerWithConfig_def)
  moreover have "sv_step ?s1 (snd (process_next ''A'' 0 ?s1)) sample_server"
    by (rule st_process [of _ "''A''" 0])
      (simp_all add: sample_server_def onEngineData_def connFor_def NewServerWithConfig_def)
  ultimately show ?thesis
    using sv_reach.step by blast
qed

lemma sample_server_state:
  "Connected ''A'' sample_server" "sock_nsp ''A'' sample_server = ''/''"
  "map_of (sv_engines sample_server) 7 = Some 0" "conn_sockets 0 sample_server = [(''/'', ''A'')]"
  "get_ns ''/'' sample_server = Some (ns_addSocket ''A'' newNamespace)" "sv_socks sample_server ''B'' = None"
proof -
  let ?s1 = "onEngineData 7 ''0'' False (NewServerWithConfig sample_readers)"
  have "\<exists>h. sample_server = (accept_state ''A'' ''/'' 0
      (map_conn 0 (\<lambda>c. c\<lparr>ec_in := (ec_in c)\<lparr>pq_items := []\<rparr>\<rparr>) ?s1))\<lparr>sv_readers := h\<rparr>"
    unfolding sample_server_def
    by (rule process_connect [where n = newNamespace and c = "\<lparr>ec_es = 7, ec_sockets = [], ec_recon = None,
          ec_in = \<lparr>pq_items = [\<lparr>ip_data = ''0'', ip_binary = False\<rparr>], pq_closed = False\<rparr>, ec_started = True\<rparr>"])
      (simp_all add: onEngineData_def connFor_def NewServerWithConfig_def newEngineConn_def newPacketQueue_def
        pq_push_def get_ns_def defaultNamespace_def newNamespace_def)
  then obtain h where h: "sample_server = (accept_state ''A'' ''/'' 0
      (map_conn 0 (\<lambda>c. c\<lparr>ec_in := (ec_in c)\<lparr>pq_items := []\<rparr>\<rparr>) ?s1))\<lparr>sv_readers := h\<rparr>"
    by blast
  have "sv_socks sample_server ''A'' =
      Some \<lparr>sk_nsp = ''/'', sk_ec = 0, sk_connected = True, sk_acks = newAckTable\<rparr>"
    unfolding h by (simp add: accept_sock)
  then show "Connected ''A'' sample_server" "sock_nsp ''A'' sample_server = ''/''"
    by (simp_all add: Connected_def sock_nsp_def)
  show "sv_socks sample_server ''B'' = None"
    unfolding h by (simp add: accept_state_def setConnected_def onEngineData_def connFor_def NewServerWithConfig_def)
  have "map_of (sv_engines ?s1) 7 = Some 0" "\<exists>c. sv_conns ?s1 0 = Some c \<and> ec_sockets c = []"
      "get_ns ''/'' ?s1 = Some newNamespace"
    by (simp_all add: onEngineData_def connFor_def NewServerWithConfig_def newEngineConn_def get_ns_def
        defaultNamespace_def)
  then show "map_of (sv_engines sample_server) 7 = Some 0" "conn_sockets 0 sample_server = [(''/'', ''A'')]"
    "get_ns ''/'' sample_server = Some (ns_addSocket ''A'' newNamespace)"
    unfolding h by (auto simp: accept_state_def conn_sockets_def setConnected_def)
qed


section \<open>Disconnecting\<close>

text \<open>
  C11. Disconnecting a connected socket makes it disconnected, takes it out of its namespace,
  the adapter and every room, drops its pending acknowledgements and its route, and calls
  every disconnect handler of the namespace once with the reason; doing it again, for
  whatever reason, has no effect at all.\<close>

theorem disconnect_takes_socket_out_once:
  assumes "sv_reach h es s" and "Connected sid s" and "disconnectSocket sid reason s = (s', eff)"
  shows "\<not> Connected sid s'
    \<and> (\<exists>n n'. get_ns (sock_nsp sid s) s = Some n \<and> get_ns (sock_nsp sid s) s' = Some n'
         \<and> sid \<notin> set (ns_Sockets n') \<and> (\<forall>room except. sid \<notin> set (targets room except (ns_adapter n')))
         \<and> filter (\<lambda>e. \<exists>d i r. e = DisconnectCall d i r) eff = map (\<lambda>d. DisconnectCall d sid reason) (ns_disconnect n))
    \<and> (\<forall>ec nsp. map_of (conn_sockets ec s') nsp \<noteq> Some sid)
    \<and> (\<exists>k. sv_socks s' sid = Some k \<and> at_cbs (sk_acks k) = [])
    \<and> disconnectSocket sid reason' s' = (s', [])"
proof -
  have inv: "sv_inv s"
    using assms(1) by (rule sv_reach_inv)
  then have "member sid s"
    using assms(2) by (simp add: member_connected)
  then obtain k n where k: "sv_socks s sid = Some k" "get_ns (sk_nsp k) s = Some n" "sid \<in> set (ns_sockets n)"
    by (auto simp: member_def)
  obtain h' sent where d: "disconnectSocket sid reason s = ((leave_state sid k s)\<lparr>sv_readers := h'\<rparr>,
      sent @ map (\<lambda>d. DisconnectCall d sid reason) (ns_disconnect n))" "\<forall>e\<in>set sent. \<exists>es m. e = Send es m"
    by (rule disconnectSocket_member [OF k])
  have s': "s' = (leave_state sid k s)\<lparr>sv_readers := h'\<rparr>"
    and eff: "eff = sent @ map (\<lambda>d. DisconnectCall d sid reason) (ns_disconnect n)"
    using d(1) assms(3) by simp_all
  have inv': "sv_inv s'"
    using s' sv_inv_leave [OF inv k(1)] by simp
  have dis: "\<not> Connected sid s'"
    using s' k(1) by (simp add: Connected_def leave_state_def)
  have n': "get_ns (sock_nsp sid s) s' = Some (ns_removeSocket sid n)" "get_ns (sock_nsp sid s) s = Some n"
    using s' k by (simp_all add: leave_state_def sock_nsp_def)
  have "sid \<notin> set (targets room except (ns_adapter (ns_removeSocket sid n)))" for room except
    using mem.removed_not_delivered [of "ns_adapter n" "[]" sid room except] sv_inv_ns [OF inv k(2)]
    by (simp add: ns_removeSocket_def ns_inv_def)
  moreover have "sid \<notin> set (ns_Sockets (ns_removeSocket sid n))"
    by (simp add: ns_Sockets_def Sockets_def ns_removeSocket_def)
  moreover have "filter (\<lambda>e. \<exists>d i r. e = DisconnectCall d i r) sent = []"
    using d(2) by (fastforce simp: filter_empty_conv)
  moreover have "map_of (conn_sockets ec s') nsp \<noteq> Some sid" for ec nsp
    using conn_route [of ec s' nsp sid] sv_inv_route [OF inv', of ec _ nsp sid] dis by (auto simp: Connected_def)
  moreover have "\<exists>k. sv_socks s' sid = Some k \<and> at_cbs (sk_acks k) = []"
    using s' k(1) by (simp add: leave_state_def ack_clear_def)
  moreover have "disconnectSocket sid reason' s' = (s', [])"
    using dis inv' by (intro disconnectSocket_nonmember) (simp add: member_connected)
  ultimately show ?thesis
    using dis n' eff by auto
qed

theorem disconnect_takes_socket_out_once_witness:
  "\<exists>s' eff. disconnectSocket ''A'' ''transport close'' sample_server = (s', eff) \<and> \<not> Connected ''A'' s'
    \<and> disconnectSocket ''A'' ''transport close'' s' = (s', [])"
proof -
  obtain es where r: "sv_reach sample_readers es sample_server"
    using sample_server_reach by blast
  obtain s' eff where d: "disconnectSocket ''A'' ''transport close'' sample_server = (s', eff)"
    by fastforce
  show ?thesis
    using disconnect_takes_socket_out_once [OF r sample_server_state(1) d] d by blast
qed

section \<open>Losing a connection\<close>

text \<open>The disconnect handlers of the namespace a socket belongs to, and the calls among the effects.\<close>

definition disconnect_handlers :: "string \<Rightarrow> server \<Rightarrow> nat list" where
  "disconnect_handlers sid s = (case get_ns (sock_nsp sid s) s of None \<Rightarrow> [] | Some n \<Rightarrow> ns_disconnect n)"

fun is_DisconnectCall :: "effect \<Rightarrow> bool" where
  "is_DisconnectCall (DisconnectCall d sid r) = True"
| "is_DisconnectCall e = False"

definition in_queue :: "nat \<Rightarrow> server \<Rightarrow> packetQueue option" where
  "in_queue ec s = map_option ec_in (sv_conns s ec)"

lemma disconnect_one:
  assumes "sv_inv s" and "Connected sid s" and "disconnectSocket sid r s = (s1, e1)"
  shows "sv_inv s1" "Connected i s1 = (Connected i s \<and> i \<noteq> sid)"
    "disconnect_handlers i s1 = disconnect_handlers i s"
    "filter is_DisconnectCall e1 = map (\<lambda>d. DisconnectCall d sid r) (disconnect_handlers sid s)"
    "sv_engines s1 = sv_engines s" "in_queue ec s1 = in_queue ec s"
    "conn_sockets ec s = [] \<Longrightarrow> conn_sockets ec s1 = []"
proof -
  show "sv_inv s1"
    using sv_inv_disconnectSocket [OF assms(1), of sid r] assms(3) by simp
  obtain k n where k: "sv_socks s sid = Some k" "get_ns (sk_nsp k) s = Some n" "sid \<in> set (ns_sockets n)"
    using member_connected [OF assms(1), of sid] assms(2) by (auto simp: member_def)
  obtain h sent where "disconnectSocket sid r s = ((leave_state sid k s)\<lparr>sv_readers := h\<rparr>,
      sent @ map (\<lambda>d. DisconnectCall d sid r) (ns_disconnect n))" and sent: "\<forall>e\<in>set sent. \<exists>es m. e = Send es m"
    by (rule disconnectSocket_member [OF k])
  with assms(3) have s1: "s1 = (leave_state sid k s)\<lparr>sv_readers := h\<rparr>"
    and e1: "e1 = sent @ map (\<lambda>d. DisconnectCall d sid r) (ns_disconnect n)"
    by simp_all
  have sock: "sv_socks s1 = (sv_socks s)(sid \<mapsto> k\<lparr>sk_connected := False, sk_acks := ack_clear (sk_acks k)\<rparr>)"
    using s1 k(1) by (auto simp: leave_state_def map_sock_def)
  have ns: "get_ns m s1 = (if m = sk_nsp k then Some (ns_removeSocket sid n) else get_ns m s)" for m
    using s1 k(2) by (simp add: leave_state_def)
  show "Connected i s1 = (Connected i s \<and> i \<noteq> sid)"
    by (simp add: Connected_def sock)
  show "disconnect_handlers i s1 = disconnect_handlers i s"
    using k(1,2) by (simp add: disconnect_handlers_def sock_nsp_def sock ns ns_removeSocket_def)
  have "filter is_DisconnectCall sent = []"
    using sent by (auto simp: filter_empty_conv)
  moreover have "disconnect_handlers sid s = ns_disconnect n"
    using k(1,2) by (simp add: disconnect_handlers_def sock_nsp_def)
  ultimately show "filter is_DisconnectCall e1 = map (\<lambda>d. DisconnectCall d sid r) (disconnect_handlers sid s)"
    using e1 by (simp add: filter_map comp_def)
  show "sv_engines s1 = sv_engines s" "in_queue ec s1 = in_queue ec s"
    "conn_sockets ec s = [] \<Longrightarrow> conn_sockets ec s1 = []"
    using s1 by (auto simp: leave_state_def in_queue_def conn_sockets_def option.map_comp comp_def
        split: option.splits if_splits)
qed

lemma disconnect_all:
  assumes "sv_inv s" and "distinct sids" and "\<forall>sid\<in>set sids. Connected sid s"
    and "run_all (map (\<lambda>sid. disconnectSocket sid r) sids) s = (s', eff)"
  shows "(\<forall>i. Connected i s' = (Connected i s \<and> i \<notin> set sids))
    \<and> filter is_DisconnectCall eff = concat (map (\<lambda>sid. map (\<lambda>d. DisconnectCall d sid r) (disconnect_handlers sid s)) sids)
    \<and> sv_engines s' = sv_engines s \<and> in_queue ec s' = in_queue ec s
    \<and> (conn_sockets ec s = [] \<longrightarrow> conn_sockets ec s' = [])"
  using assms
proof (induction sids arbitrary: s eff)
  case (Cons sid sids)
  obtain s1 e1 where d: "disconnectSocket sid r s = (s1, e1)"
    by fastforce
  obtain e2 where r: "run_all (map (\<lambda>sid. disconnectSocket sid r) sids) s1 = (s', e2)" and eff: "eff = e1 @ e2"
    using Cons.prems(4) d by (auto split: prod.splits)
  have conn: "Connected sid s"
    using Cons.prems(3) by simp
  note one = disconnect_one [OF Cons.prems(1) conn d]
  have "\<forall>i\<in>set sids. Connected i s1"
    using one(2) Cons.prems(2,3) by auto
  with Cons.IH [OF one(1) _ _ r] Cons.prems(2) have
    "(\<forall>i. Connected i s' = (Connected i s1 \<and> i \<notin> set sids))
    \<and> filter is_DisconnectCall e2 = concat (map (\<lambda>sid. map (\<lambda>d. DisconnectCall d sid r) (disconnect_handlers sid s1)) sids)
    \<and> sv_engines s' = sv_engines s1 \<and> in_queue ec s' = in_queue ec s1
    \<and> (conn_sockets ec s1 = [] \<longrightarrow> conn_sockets ec s' = [])"
    by simp
  then show ?case
    using one(2-7) eff by simp
qed simp

lemma routed_distinct:
  assumes "sv_inv s"
  shows "distinct (map snd (conn_sockets ec s))" "\<forall>sid\<in>set (map snd (conn_sockets ec s)). Connected sid s"
proof -
  have d: "distinct (map fst (conn_sockets ec s))"
    using sv_inv_keys [OF assms, of ec] by (auto simp: conn_sockets_def one_route_def split: option.splits)
  have r: "\<exists>k. sv_socks s sid = Some k \<and> sk_nsp k = nsp \<and> sk_connected k" if "(nsp, sid) \<in> set (conn_sockets ec s)" for nsp sid
    using conn_route [of ec s nsp sid] sv_inv_route [OF assms(1)] map_of_is_SomeI [OF d that] by blast
  then have "inj_on snd (set (conn_sockets ec s))"
    by (intro inj_onI prod_eqI) (metis option.inject prod.collapse, simp)
  then show "distinct (map snd (conn_sockets ec s))"
    using d by (simp add: distinct_map)
  show "\<forall>sid\<in>set (map snd (conn_sockets ec s)). Connected sid s"
    using r by (fastforce simp: Connected_def)
qed

lemma engine_close_sockets:
  assumes inv: "sv_inv s" and "map_of (sv_engines s) e = Some ec" and "onEngineClose e reason s = (s', eff)"
  shows "Connected i s' = (Connected i s \<and> (\<forall>nsp. map_of (conn_sockets ec s) nsp \<noteq> Some i))
    \<and> filter is_DisconnectCall eff =
        concat (map (\<lambda>sid. map (\<lambda>d. DisconnectCall d sid (mapDisconnectReason reason))
          (disconnect_handlers sid s)) (map snd (conn_sockets ec s)))
    \<and> conn_sockets ec s' = [] \<and> in_queue ec s' = map_option pq_close (in_queue ec s)
    \<and> map_of (sv_engines s') e = None"
proof -
  let ?s1 = "map_conn ec (\<lambda>c. c\<lparr>ec_in := pq_close (ec_in c), ec_sockets := []\<rparr>)
      (s\<lparr>sv_engines := AList.delete e (sv_engines s)\<rparr>)"
  let ?sids = "map snd (conn_sockets ec s)"
  have inv1: "sv_inv ?s1"
    using sv_inv_engines_delete [OF inv, of e] by (intro sv_inv_map_conn) (auto dest: sv_inv_recon)
  have c1: "Connected i ?s1 = Connected i s" "disconnect_handlers i ?s1 = disconnect_handlers i s" for i
    by (simp_all add: Connected_def disconnect_handlers_def sock_nsp_def get_ns_def)
  have "run_all (map (\<lambda>sid. disconnectSocket sid (mapDisconnectReason reason)) ?sids) ?s1 = (s', eff)"
    using assms(2,3) by (simp add: onEngineClose_def modify_def Let_def case_prod_beta)
  from disconnect_all [OF inv1 _ _ this, of ec] have
    "(\<forall>i. Connected i s' = (Connected i ?s1 \<and> i \<notin> set ?sids))
    \<and> filter is_DisconnectCall eff = concat (map (\<lambda>sid. map (\<lambda>d. DisconnectCall d sid (mapDisconnectReason reason))
        (disconnect_handlers sid ?s1)) ?sids)
    \<and> sv_engines s' = sv_engines ?s1 \<and> in_queue ec s' = in_queue ec ?s1
    \<and> (conn_sockets ec ?s1 = [] \<longrightarrow> conn_sockets ec s' = [])"
    using routed_distinct [OF inv, of ec] c1(1) by simp
  moreover have "i \<notin> set ?sids \<longleftrightarrow> (\<forall>nsp. map_of (conn_sockets ec s) nsp \<noteq> Some i)"
  proof -
    have "distinct (map fst (conn_sockets ec s))"
      using sv_inv_keys [OF inv, of ec] by (auto simp: conn_sockets_def one_route_def split: option.splits)
    then show ?thesis
      by (force dest: map_of_SomeD)
  qed
  moreover have "conn_sockets ec ?s1 = []" "in_queue ec ?s1 = map_option pq_close (in_queue ec s)"
    "map_of (sv_engines ?s1) e = None"
    by (auto simp: conn_sockets_def in_queue_def option.map_comp comp_def delete_conv' split: option.splits)
  ultimately show ?thesis
    using c1 by simp
qed

text \<open>
  C10. When an Engine.IO session closes, every socket routed over its connection is
  disconnected and no other socket is; the disconnect handlers of their namespaces are called
  once for each, with the Socket.IO form of the reason; the connection keeps no route, its
  queue is closed, and the session is forgotten.\<close>

theorem engine_close_disconnects_sockets:
  assumes "sv_reach h es s" and "map_of (sv_engines s) e = Some ec" and "onEngineClose e reason s = (s', eff)"
  shows "Connected i s' = (Connected i s \<and> (\<forall>nsp. map_of (conn_sockets ec s) nsp \<noteq> Some i))
    \<and> filter is_DisconnectCall eff =
        concat (map (\<lambda>sid. map (\<lambda>d. DisconnectCall d sid (mapDisconnectReason reason))
          (disconnect_handlers sid s)) (map snd (conn_sockets ec s)))
    \<and> conn_sockets ec s' = [] \<and> in_queue ec s' = map_option pq_close (in_queue ec s)
    \<and> map_of (sv_engines s') e = None"
  using sv_reach_inv [OF assms(1)] assms(2,3) by (rule engine_close_sockets)

theorem engine_close_disconnects_sockets_witness:
  "\<exists>s' eff. onEngineClose 7 ''ping timeout'' sample_server = (s', eff) \<and> \<not> Connected ''A'' s'
    \<and> map_of (sv_engines s') 7 = None"
proof -
  obtain es where r: "sv_reach sample_readers es sample_server"
    using sample_server_reach by blast
  obtain s' eff where d: "onEngineClose 7 ''ping timeout'' sample_server = (s', eff)"
    by fastforce
  show ?thesis
    using engine_close_disconnects_sockets [OF r sample_server_state(3) d, of "''A''"] sample_server_state(4) d by auto
qed

section \<open>Connecting\<close>

text \<open>Why a namespace turns a connecting client away, if it does, and the packet it answers with.\<close>

definition connect_refusal :: "string \<Rightarrow> val \<Rightarrow> namespace \<Rightarrow> string option" where
  "connect_refusal sid data n =
     (case runMiddlewares sid (connectData data) n of Some err \<Rightarrow> Some err | None \<Rightarrow> runConnect sid n)"

definition connect_reply :: "string \<Rightarrow> string \<Rightarrow> string option \<Rightarrow> sio_packet" where
  "connect_reply sid nsp refusal =
     (case refusal of
        Some err \<Rightarrow> packet ConnectError nsp (-1) (VObj [(''message'', VStr err)])
      | None \<Rightarrow> packet Connect nsp (-1) (VObj [(''sid'', VStr sid)]))"



section \<open>Sockets that outlive their connection\<close>

text \<open>
  C35. A second CONNECT of a connection to a namespace replaces the route to the first socket
  without disconnecting it: when the session closes, only the second socket is disconnected,
  and the first one stays connected although its connection is gone.\<close>

theorem second_connect_leaks_socket:
  assumes "sv_reach h es s" and "map_of (sv_engines s) e = Some ec" and "map_of (conn_sockets ec s) nsp = Some a"
    and "nsp \<noteq> []" and "get_ns nsp s = Some n" and "connect_refusal b VNil n = None" and "sv_socks s b = None"
    and "handleConnect b ec (packet Connect nsp (-1) VNil) s = (s1, e1)" and "onEngineClose e reason s1 = (s2, e2)"
  shows "Connected a s2 \<and> \<not> Connected b s2 \<and> conn_sockets ec s2 = [] \<and> map_of (sv_engines s2) e = None"
proof -
  have inv: "sv_inv s"
    using assms(1) by (rule sv_reach_inv)
  obtain c where c: "sv_conns s ec = Some c" "map_of (ec_sockets c) nsp = Some a"
    using conn_route [OF assms(3)] by blast
  obtain k where k: "sv_socks s a = Some k" "sk_nsp k = nsp" "sk_connected k"
    using sv_inv_route [OF inv c] by blast
  obtain h' where s1: "s1 = (accept_state b nsp ec s)\<lparr>sv_readers := h'\<rparr>"
    using handleConnect_state [of "packet Connect nsp (-1) VNil" b ec s] assms(4-8)
    by (auto simp: packet_def connect_refusal_def split: option.splits)
  have inv1: "sv_inv s1"
    using sv_inv_handleConnect [OF inv assms(7), of "packet Connect nsp (-1) VNil" ec c] assms(4,8) c(1)
    by (simp add: packet_def)
  have e1: "map_of (sv_engines s1) e = Some ec"
    using s1 assms(2) by (simp add: accept_state_def setConnected_def)
  have sock1: "Connected a s1" "Connected b s1" "a \<noteq> b"
    using s1 k assms(7) by (auto simp: Connected_def accept_state_def setConnected_def)
  have routes: "map_of (conn_sockets ec s1) nsp' = (if nsp' = nsp then Some b else map_of (ec_sockets c) nsp')" for nsp'
    using s1 c(1) by (simp add: accept_state_def setConnected_def conn_sockets_def update_conv')
  have "map_of (conn_sockets ec s1) nsp' \<noteq> Some a" for nsp'
    using routes [of nsp'] sock1(3) sv_inv_route [OF inv c(1), of nsp' a] k by auto
  then show ?thesis
    using engine_close_sockets [OF inv1 e1 assms(9), of a] engine_close_sockets [OF inv1 e1 assms(9), of b]
      sock1 routes [of nsp] by auto
qed

theorem second_connect_leaks_socket_witness:
  "\<exists>s1 e1 s2 e2. handleConnect ''B'' 0 (packet Connect ''/'' (-1) VNil) sample_server = (s1, e1)
    \<and> onEngineClose 7 ''transport close'' s1 = (s2, e2) \<and> Connected ''A'' s2 \<and> map_of (sv_engines s2) 7 = None"
proof -
  obtain es where r: "sv_reach sample_readers es sample_server"
    using sample_server_reach by blast
  obtain s1 e1 s2 e2 where d: "handleConnect ''B'' 0 (packet Connect ''/'' (-1) VNil) sample_server = (s1, e1)"
    "onEngineClose 7 ''transport close'' s1 = (s2, e2)"
    by fastforce
  have "connect_refusal ''B'' VNil (ns_addSocket ''A'' newNamespace) = None"
    by (simp add: connect_refusal_def runMiddlewares_def runConnect_def ns_addSocket_def newNamespace_def)
  then show ?thesis
    using second_connect_leaks_socket [OF r sample_server_state(3) _ _ sample_server_state(5) _ sample_server_state(6) d,
        of "''A''"] sample_server_state(4) d by auto
qed


section \<open>Panicking handlers\<close>

text \<open>
  C37. One JSON null is enough to end the server process: a task with a handler whose
  parameter has type \<^verbatim>\<open>any\<close> and whose only argument is null crashes it, in whatever order the
  handlers of the event run.\<close>

theorem null_argument_crashes_server:
  assumes "get_ns (sock_nsp (et_sock t) s) s = Some n" and "mset order = mset (et_handlers t)"
    and "h \<in> set (et_handlers t)" and "hd_in h = [TySocket, TyAny]" and "et_args t = [VNil]"
  shows "sv_crashed (fst (run_task t order s))"
proof -
  have "h \<in> set order"
    using assms(2,3) by (metis set_mset_mset)
  moreover have "invokeHandler h (et_sock t) [VNil] = Panics"
    using assms(4) by (simp add: invokeHandler_def call_handler_def convertArg_def call_ok_def)
  ultimately have "\<not> fst (fst (run_handlers order t n res))" for res
    using assms(5) by (induction order t n res rule: run_handlers.induct)
      (auto split: invocation.splits prod.splits)
  moreover obtain ok res es where "run_handlers order t n [] = ((ok, res), es)"
    by (metis prod.collapse)
  ultimately have "\<exists>res es. run_handlers order t n [] = ((False, res), es)"
    by (metis (full_types) fst_conv)
  then show ?thesis
    using assms(1) by (auto simp: run_task_def)
qed

theorem null_argument_crashes_server_witness:
  "let h = \<lparr>hd_in = [TySocket, TyAny], hd_variadic = None, hd_fn = \<lambda>sid vs. []\<rparr>
   in sv_crashed (fst (run_task \<lparr>et_sock = ''A'', et_nsp = ''/'', et_id = -1, et_handlers = [h], et_args = [VNil]\<rparr>
     [h] sample_server))"
  using null_argument_crashes_server [of "\<lparr>et_sock = ''A'', et_nsp = ''/'', et_id = -1, et_handlers =
      [\<lparr>hd_in = [TySocket, TyAny], hd_variadic = None, hd_fn = \<lambda>sid vs. []\<rparr>], et_args = [VNil]\<rparr>" sample_server]
    sample_server_state(2,5) by (simp add: Let_def)

end
