(* ===== verification/EioOptions.thy ===== *)
theory EioOptions
  imports Errors
begin

text \<open>
  Requests as the HTTP code of both servers sees them, and the options of an Engine.IO
  session (\<^verbatim>\<open>engineio/options.go\<close>).
\<close>

section \<open>HTTP requests\<close>

text \<open>
  A parsed request: the query with its decoded keys and values, the headers under their
  canonical names, and the outcome of reading the body to its end.
\<close>

record request =
  rq_Method :: string
  rq_Path :: string
  rq_Query :: "(string \<times> string list) list"
  rq_Header :: "(string \<times> string list) list"
  rq_Body :: "go_error + bytes"
  rq_RemoteAddr :: string

text \<open>\<^verbatim>\<open>url.Values.Get\<close> and \<^verbatim>\<open>http.Header.Get\<close>: the first value, or the empty string.\<close>

definition get_first :: "(string \<times> string list) list \<Rightarrow> string \<Rightarrow> string" where
  "get_first m key = (case map_of m key of Some (v # vs) \<Rightarrow> v | _ \<Rightarrow> [])"

section \<open>Durations\<close>

text \<open>\<^verbatim>\<open>time.Duration\<close> counts nanoseconds; the quotient of two integers is truncated.\<close>

type_synonym duration = int

definition second :: duration where
  "second = 1000000000"

definition quot :: "int \<Rightarrow> int \<Rightarrow> int" where
  "quot a b = sgn a * sgn b * (\<bar>a\<bar> div \<bar>b\<bar>)"

definition milliseconds :: "duration \<Rightarrow> int" where
  "milliseconds d = quot d 1000000"

section \<open>Options\<close>

record eio_options =
  eo_PingInterval :: duration
  eo_PingTimeout :: duration
  eo_UpgradeTimeout :: duration
  eo_MaxHTTPBufferSize :: int
  eo_Transports :: "string list"
  eo_AllowUpgrades :: bool
  eo_AllowRequest :: "(request \<Rightarrow> go_error option) option"
  eo_GenerateID :: "(request \<Rightarrow> string) option"

text \<open>\<^verbatim>\<open>Options{}\<close>.\<close>

definition zero_eio_options :: eio_options where
  "zero_eio_options =
     \<lparr>eo_PingInterval = 0, eo_PingTimeout = 0, eo_UpgradeTimeout = 0, eo_MaxHTTPBufferSize = 0,
      eo_Transports = [], eo_AllowUpgrades = False, eo_AllowRequest = None, eo_GenerateID = None\<rparr>"

fun containsString :: "string list \<Rightarrow> string \<Rightarrow> bool" where
  "containsString [] s = False"
| "containsString (v # vs) s = (if v = s then True else containsString vs s)"

definition eio_withDefaults :: "eio_options \<Rightarrow> eio_options" where
  "eio_withDefaults o1 =
     (let o2 = o1\<lparr>eo_PingInterval := if eo_PingInterval o1 = 0 then 25 * second else eo_PingInterval o1\<rparr>;
          o3 = o2\<lparr>eo_PingTimeout := if eo_PingTimeout o2 = 0 then 20 * second else eo_PingTimeout o2\<rparr>;
          o4 = o3\<lparr>eo_UpgradeTimeout := if eo_UpgradeTimeout o3 = 0 then 10 * second else eo_UpgradeTimeout o3\<rparr>;
          o5 = o4\<lparr>eo_MaxHTTPBufferSize :=
                    if eo_MaxHTTPBufferSize o4 = 0 then 1048576 else eo_MaxHTTPBufferSize o4\<rparr>;
          o6 = o5\<lparr>eo_Transports :=
                    if eo_Transports o5 = [] then [''polling'', ''websocket''] else eo_Transports o5\<rparr>
      in o6\<lparr>eo_AllowUpgrades := eo_AllowUpgrades o6 \<or> containsString (eo_Transports o6) ''websocket''\<rparr>)"

text \<open>The enabled transports, as the set of keys of the map the code builds.\<close>

definition transportsEnabled :: "eio_options \<Rightarrow> string list" where
  "transportsEnabled o1 = remdups (eo_Transports o1)"

lemma containsString_iff [simp]: "containsString vs s \<longleftrightarrow> s \<in> set vs"
  by (induction vs) auto

lemma transportsEnabled_iff [simp]: "t \<in> set (transportsEnabled o1) \<longleftrightarrow> t \<in> set (eo_Transports o1)"
  by (simp add: transportsEnabled_def)

lemma eio_withDefaults_fields [simp]:
  "eo_Transports (eio_withDefaults o1) = (if eo_Transports o1 = [] then [''polling'', ''websocket''] else eo_Transports o1)"
  "eo_AllowUpgrades (eio_withDefaults o1) \<longleftrightarrow>
     eo_AllowUpgrades o1 \<or> eo_Transports o1 = [] \<or> ''websocket'' \<in> set (eo_Transports o1)"
  "eo_AllowRequest (eio_withDefaults o1) = eo_AllowRequest o1"
  "eo_GenerateID (eio_withDefaults o1) = eo_GenerateID o1"
  by (simp_all add: eio_withDefaults_def Let_def)

end
