(* ===== verification/SioClient.thy ===== *)
theory SioClient
  imports Complex_Main Steps SioWire AckTable PacketQueue Emitter EioOptions
begin

text \<open>
  The Socket.IO client (\<^verbatim>\<open>socketio/client.go\<close>). Its state is one record; a method is one
  step, except where it waits: \<^verbatim>\<open>connectNsp\<close> sends a CONNECT in one step and returns in
  another, and the goroutine of \<^verbatim>\<open>reconnectLoop\<close> is a small state machine kept in the client
  with the place where it waits. The Engine.IO client below it is seen through the outcome of
  \<^verbatim>\<open>engineio.Dial\<close>, the messages handed to it and the calls of the two callbacks.
\<close>

section \<open>Options\<close>

record options =
  op_Transports :: "string list"
  op_Engine :: "eio_options option"
  op_Auth :: "(string \<times> val) list option"
  op_Reconnection :: bool
  op_ReconnectionAttempts :: int
  op_ReconnectionDelay :: duration
  op_ReconnectionDelayMax :: duration
  op_RandomizationFactor :: rat
  op_Timeout :: duration

definition zero_options :: options where
  "zero_options =
     \<lparr>op_Transports = [], op_Engine = None, op_Auth = None, op_Reconnection = False,
      op_ReconnectionAttempts = 0, op_ReconnectionDelay = 0, op_ReconnectionDelayMax = 0,
      op_RandomizationFactor = 0, op_Timeout = 0\<rparr>"

definition withDefaults :: "options \<Rightarrow> options" where
  "withDefaults o1 =
     o1\<lparr>op_ReconnectionDelay := if op_ReconnectionDelay o1 = 0 then second else op_ReconnectionDelay o1,
        op_ReconnectionDelayMax :=
          if op_ReconnectionDelayMax o1 = 0 then 5 * second else op_ReconnectionDelayMax o1,
        op_Timeout := if op_Timeout o1 = 0 then 10 * second else op_Timeout o1,
        op_RandomizationFactor := if op_RandomizationFactor o1 = 0 then 1 / 2 else op_RandomizationFactor o1\<rparr>"

section \<open>State\<close>

record nsClient =
  nc_connected :: bool
  nc_sid :: string
  nc_auth :: "(string \<times> val) list option"

text \<open>
  Where a \<^verbatim>\<open>reconnectLoop\<close> stands: at the top of its loop, waiting for the timer or the stop
  channel, about to dial, or in \<^verbatim>\<open>connectNsp\<close> for a namespace, with the channel it waits on
  and the namespaces still to come.
\<close>

datatype phase = AtTop | Waiting duration | Dialing | Connecting string nat "string list"

record rloop =
  rl_nsps :: "string list"
  rl_attempt :: int
  rl_delay :: duration
  rl_phase :: phase

text \<open>The handlers of an event that are still to run, and the acknowledgement they owe.\<close>

record client_task =
  ct_nsp :: string
  ct_id :: int
  ct_handlers :: "handler list"
  ct_args :: "val list"

text \<open>
  Channels of capacity one are addressed by numbers: \<open>cl_chans\<close> gives the value in the
  buffer, an error or nil. A send into a full buffer blocks its goroutine, here the packet
  processor, for good: \<open>cl_blocked\<close>. \<open>cl_stop\<close> says that \<^verbatim>\<open>reconnectStop\<close> is closed.
\<close>

record client =
  cl_opts :: options
  cl_engine :: "nat option"
  cl_nsps :: "(string \<times> nsClient) list"
  cl_acks :: ackTable
  cl_closed :: bool
  cl_onConnect :: "(string \<times> nat list) list"
  cl_onEvent :: "(string \<times> (string \<times> handler list) list) list"
  cl_onDisconnect :: "(string \<times> nat list) list"
  cl_onConnectError :: "(string \<times> nat list) list"
  cl_onError :: "(string \<times> nat list) list"
  cl_connecting :: "(string \<times> nat) list"
  cl_chans :: "nat \<Rightarrow> go_error option option"
  cl_nchans :: nat
  cl_in :: packetQueue
  cl_recon :: "reconstructor option"
  cl_started :: bool
  cl_stop :: bool
  cl_loops :: "rloop list"
  cl_tasks :: "client_task list"
  cl_readers :: readers
  cl_blocked :: bool
  cl_crashed :: bool

datatype client_effect =
    CSend nat message
  | ConnectCall nat
  | DisconnCall nat string
  | ConnErrCall nat go_error
  | ErrCall nat go_error
  | AckReply callback "val list"
  | EngineClose nat

type_synonym client_step = "client \<Rightarrow> client \<times> client_effect list"

definition newClient :: "options option \<Rightarrow> readers \<Rightarrow> client" where
  "newClient opts h =
     \<lparr>cl_opts = withDefaults (case opts of None \<Rightarrow> zero_options | Some o1 \<Rightarrow> o1),
      cl_engine = None, cl_nsps = [], cl_acks = newAckTable, cl_closed = False,
      cl_onConnect = [], cl_onEvent = [], cl_onDisconnect = [], cl_onConnectError = [], cl_onError = [],
      cl_connecting = [], cl_chans = \<lambda>_. None, cl_nchans = 0, cl_in = newPacketQueue, cl_recon = None,
      cl_started = False, cl_stop = False, cl_loops = [], cl_tasks = [], cl_readers = h,
      cl_blocked = False, cl_crashed = False\<rparr>"

section \<open>Registration\<close>

definition handlers_of :: "(string \<times> 'a list) list \<Rightarrow> string \<Rightarrow> 'a list" where
  "handlers_of m nsp = (case map_of m nsp of None \<Rightarrow> [] | Some hs \<Rightarrow> hs)"

definition add_handler :: "string \<Rightarrow> 'a \<Rightarrow> (string \<times> 'a list) list \<Rightarrow> (string \<times> 'a list) list" where
  "add_handler nsp f m = AList.update nsp (handlers_of m nsp @ [f]) m"

definition cl_OnEvent :: "string \<Rightarrow> string \<Rightarrow> handler \<Rightarrow> client \<Rightarrow> client" where
  "cl_OnEvent nsp event f c =
     c\<lparr>cl_onEvent := AList.update nsp (add_handler event f (handlers_of (cl_onEvent c) nsp)) (cl_onEvent c)\<rparr>"

definition cl_OnConnect :: "string \<Rightarrow> nat \<Rightarrow> client \<Rightarrow> client" where
  "cl_OnConnect nsp f c = c\<lparr>cl_onConnect := add_handler nsp f (cl_onConnect c)\<rparr>"

definition cl_OnDisconnect :: "string \<Rightarrow> nat \<Rightarrow> client \<Rightarrow> client" where
  "cl_OnDisconnect nsp f c = c\<lparr>cl_onDisconnect := add_handler nsp f (cl_onDisconnect c)\<rparr>"

definition cl_OnConnectError :: "string \<Rightarrow> nat \<Rightarrow> client \<Rightarrow> client" where
  "cl_OnConnectError nsp f c = c\<lparr>cl_onConnectError := add_handler nsp f (cl_onConnectError c)\<rparr>"

definition cl_OnError :: "string \<Rightarrow> nat \<Rightarrow> client \<Rightarrow> client" where
  "cl_OnError nsp f c = c\<lparr>cl_onError := add_handler nsp f (cl_onError c)\<rparr>"

section \<open>Namespaces and channels\<close>

definition cl_Connected :: "string \<Rightarrow> client \<Rightarrow> bool" where
  "cl_Connected nsp c = (case map_of (cl_nsps c) nsp of None \<Rightarrow> False | Some nc \<Rightarrow> nc_connected nc)"

definition cl_ID :: "string \<Rightarrow> client \<Rightarrow> string" where
  "cl_ID nsp c = (case map_of (cl_nsps c) nsp of None \<Rightarrow> [] | Some nc \<Rightarrow> nc_sid nc)"

definition map_nc :: "string \<Rightarrow> (nsClient \<Rightarrow> nsClient) \<Rightarrow> client \<Rightarrow> client" where
  "map_nc nsp f c =
     (case map_of (cl_nsps c) nsp of
        None \<Rightarrow> c
      | Some nc \<Rightarrow> c\<lparr>cl_nsps := AList.update nsp (f nc) (cl_nsps c)\<rparr>)"

text \<open>The loop that marks every namespace as disconnected, and the names of those that were not.\<close>

definition disconnect_nsps :: "client \<Rightarrow> client" where
  "disconnect_nsps c = c\<lparr>cl_nsps := map (\<lambda>(nsp, nc). (nsp, nc\<lparr>nc_connected := False\<rparr>)) (cl_nsps c)\<rparr>"

definition connected_nsps :: "client \<Rightarrow> string list" where
  "connected_nsps c = map fst (filter (\<lambda>(nsp, nc). nc_connected nc) (cl_nsps c))"

text \<open>A send that waits for room in the buffer, and one in a \<^verbatim>\<open>select\<close> with a \<^verbatim>\<open>default\<close>.\<close>

definition chan_send :: "nat \<Rightarrow> go_error option \<Rightarrow> client \<Rightarrow> client" where
  "chan_send ch e c =
     (case cl_chans c ch of
        None \<Rightarrow> c\<lparr>cl_chans := (cl_chans c)(ch \<mapsto> e)\<rparr>
      | Some _ \<Rightarrow> c\<lparr>cl_blocked := True\<rparr>)"

definition chan_try_send :: "nat \<Rightarrow> go_error option \<Rightarrow> client \<Rightarrow> client" where
  "chan_try_send ch e c =
     (case cl_chans c ch of None \<Rightarrow> c\<lparr>cl_chans := (cl_chans c)(ch \<mapsto> e)\<rparr> | Some _ \<Rightarrow> c)"

section \<open>Sending\<close>

definition client_packet :: "PacketType \<Rightarrow> string \<Rightarrow> int \<Rightarrow> val \<Rightarrow> sio_packet" where
  "client_packet t nsp i data =
     \<lparr>sp_Type = t, sp_Nsp = nsp, sp_ID = i, sp_Data = data, sp_Attachments = 0\<rparr>"

definition cl_sendPacket :: "sio_packet \<Rightarrow> client_step" where
  "cl_sendPacket p c =
     (case cl_engine c of
        None \<Rightarrow> (c, [])
      | Some e \<Rightarrow>
          (case sendPacket p (cl_readers c) of
             (msgs, h) \<Rightarrow> (c\<lparr>cl_readers := h\<rparr>, map (CSend e) msgs)))"

definition cl_Emit ::
  "string \<Rightarrow> string \<Rightarrow> val list \<Rightarrow> client \<Rightarrow> go_error option \<times> client \<times> client_effect list" where
  "cl_Emit nsp event args c =
     (if \<not> cl_Connected nsp c then (Some ErrNamespaceNotConnected, c, [])
      else (None, cl_sendPacket (client_packet Event nsp (-1) (VArr (VStr event # args))) c))"

definition cl_EmitWithAck ::
  "string \<Rightarrow> string \<Rightarrow> callback option \<Rightarrow> val list \<Rightarrow> client
   \<Rightarrow> (int \<times> go_error option) \<times> client \<times> client_effect list" where
  "cl_EmitWithAck nsp event cb args c =
     (if \<not> cl_Connected nsp c then ((-1, Some ErrNamespaceNotConnected), c, [])
      else
        (case cb of
           None \<Rightarrow> ((-1, None), cl_sendPacket (client_packet Event nsp (-1) (VArr (VStr event # args))) c)
         | Some f \<Rightarrow>
             (case ack_next (cl_acks c) of
                (i, t) \<Rightarrow>
                  ((i, None),
                   cl_sendPacket (client_packet Event nsp i (VArr (VStr event # args)))
                     (c\<lparr>cl_acks := ack_register i (Some f) t\<rparr>)))))"

section \<open>Callbacks\<close>

definition cl_fireConnectError :: "string \<Rightarrow> go_error \<Rightarrow> client_step" where
  "cl_fireConnectError nsp err c = (c, map (\<lambda>h. ConnErrCall h err) (handlers_of (cl_onConnectError c) nsp))"

definition cl_fireOnError :: "string \<Rightarrow> go_error \<Rightarrow> client \<Rightarrow> client_effect list" where
  "cl_fireOnError nsp err c = map (\<lambda>h. ErrCall h err) (handlers_of (cl_onError c) nsp)"

definition cl_fireDisconnect :: "string \<Rightarrow> string \<Rightarrow> client_step" where
  "cl_fireDisconnect nsp reason c = (c, map (\<lambda>h. DisconnCall h reason) (handlers_of (cl_onDisconnect c) nsp))"

section \<open>Connecting and disconnecting\<close>

text \<open>The part of \<^verbatim>\<open>connectNsp\<close> before it waits; the channel it waits on comes with the new state.\<close>

definition connect_start ::
  "string \<Rightarrow> (string \<times> val) list option \<Rightarrow> client \<Rightarrow> nat \<times> client \<times> client_effect list" where
  "connect_start nsp data c =
     (let ch = cl_nchans c;
          nc = (case map_of (cl_nsps c) nsp of
                  Some nc \<Rightarrow> nc | None \<Rightarrow> \<lparr>nc_connected = False, nc_sid = [], nc_auth = None\<rparr>);
          c1 = c\<lparr>cl_nchans := ch + 1,
                 cl_nsps := AList.update nsp (nc\<lparr>nc_connected := False, nc_auth := data\<rparr>) (cl_nsps c),
                 cl_connecting := AList.update nsp ch (cl_connecting c)\<rparr>;
          payload = (case data of None \<Rightarrow> VNil | Some m \<Rightarrow> VObj m)
      in (ch, cl_sendPacket (client_packet Connect nsp (-1) payload) c1))"

text \<open>
  The two ways it returns: the context is done (with its error), or a value arrives on the
  channel.
\<close>

definition connect_cancelled :: "string \<Rightarrow> client \<Rightarrow> client" where
  "connect_cancelled nsp c = c\<lparr>cl_connecting := AList.delete nsp (cl_connecting c)\<rparr>"

definition connect_result :: "nat \<Rightarrow> client \<Rightarrow> (go_error option \<times> client) option" where
  "connect_result ch c = map_option (\<lambda>e. (e, c\<lparr>cl_chans := (cl_chans c)(ch := None)\<rparr>)) (cl_chans c ch)"

definition ConnectNamespace ::
  "string \<Rightarrow> (string \<times> val) list option \<Rightarrow> client \<Rightarrow> go_error + nat \<times> client \<times> client_effect list" where
  "ConnectNamespace nsp data c =
     (if nsp = [] \<or> nsp = defaultNamespace
      then Inl (ErrorsNew ''socketio: use Dial to connect the default namespace'')
      else Inr (connect_start nsp data c))"

definition DisconnectNamespace :: "string \<Rightarrow> client_step" where
  "DisconnectNamespace nsp c =
     run_all
       [modify (if cl_Connected nsp c then map_nc nsp (\<lambda>nc. nc\<lparr>nc_connected := False\<rparr>) else id),
        cl_sendPacket (client_packet Disconnect nsp (-1) VNil),
        (if cl_Connected nsp c then cl_fireDisconnect nsp ''io client disconnect'' else perform [])] c"

definition cl_Close :: "client_step" where
  "cl_Close c =
     (let c1 = c\<lparr>cl_stop := True\<rparr>
      in if cl_closed c1 then (c1, [])
         else
           run_all
             ([modify (\<lambda>c. disconnect_nsps (c\<lparr>cl_closed := True, cl_engine := None\<rparr>)),
               modify (\<lambda>c. c\<lparr>cl_acks := ack_clear (cl_acks c)\<rparr>)]
              @ map (\<lambda>nsp. cl_fireDisconnect nsp ''io client disconnect'') (connected_nsps c1)
              @ [perform (case cl_engine c1 of None \<Rightarrow> [] | Some e \<Rightarrow> [EngineClose e])]) c1)"

section \<open>Dialing\<close>

definition newEngineOptions :: "client \<Rightarrow> eio_options option" where
  "newEngineOptions c =
     (if op_Transports (cl_opts c) = [] then op_Engine (cl_opts c)
      else
        Some ((case op_Engine (cl_opts c) of None \<Rightarrow> zero_eio_options | Some eo \<Rightarrow> eo)
                \<lparr>eo_Transports := op_Transports (cl_opts c)\<rparr>))"

text \<open>
  \<^verbatim>\<open>dialEngine\<close>, given what \<^verbatim>\<open>engineio.Dial\<close> returned: an error, or a connected Engine.IO
  client whose callbacks now lead here.
\<close>

definition dialEngine :: "go_error + nat \<Rightarrow> client \<Rightarrow> go_error option \<times> client" where
  "dialEngine dialed c =
     (case dialed of
        Inl err \<Rightarrow> (Some err, c)
      | Inr e \<Rightarrow> (None, c\<lparr>cl_engine := Some e, cl_started := True\<rparr>))"

text \<open>\<^verbatim>\<open>Dial\<close> up to the point where it waits for the root namespace, and its end.\<close>

definition Dial ::
  "options option \<Rightarrow> readers \<Rightarrow> go_error + nat \<Rightarrow> go_error + nat \<times> client \<times> client_effect list" where
  "Dial opts h dialed =
     (case dialEngine dialed (newClient opts h) of
        (Some err, c) \<Rightarrow> Inl err
      | (None, c) \<Rightarrow> Inr (connect_start defaultNamespace (op_Auth (cl_opts c)) c))"

definition Dial_return :: "go_error option \<Rightarrow> client \<Rightarrow> go_error option \<times> client \<times> client_effect list" where
  "Dial_return res c = (case res of None \<Rightarrow> (None, c, []) | Some err \<Rightarrow> (Some err, cl_Close c))"

section \<open>Packets from the server\<close>

definition cl_handleConnect :: "sio_packet \<Rightarrow> client_step" where
  "cl_handleConnect pkt c =
     (let nsp = sp_Nsp pkt;
          ch = map_of (cl_connecting c) nsp;
          c1 = (if ch \<noteq> None then c\<lparr>cl_connecting := AList.delete nsp (cl_connecting c)\<rparr> else c);
          sid = (case sp_Data pkt of
                   VObj m \<Rightarrow> (case obj_get m ''sid'' of Some (VStr s) \<Rightarrow> Some s | _ \<Rightarrow> None) | _ \<Rightarrow> None);
          c2 = (if ch \<noteq> None
                then map_nc nsp (\<lambda>nc. nc\<lparr>nc_connected := True,
                       nc_sid := (case sid of Some s \<Rightarrow> s | None \<Rightarrow> nc_sid nc)\<rparr>) c1
                else c1);
          c3 = (case ch of Some a \<Rightarrow> chan_send a None c2 | None \<Rightarrow> c2)
      in (c3, map ConnectCall (handlers_of (cl_onConnect c) nsp)))"

definition cl_handleConnectError :: "sio_packet \<Rightarrow> client_step" where
  "cl_handleConnectError pkt c =
     (let nsp = sp_Nsp pkt;
          msg = (case sp_Data pkt of
                   VObj m \<Rightarrow> (case obj_get m ''message'' of Some (VStr s) \<Rightarrow> s | _ \<Rightarrow> []) | _ \<Rightarrow> []);
          ch = map_of (cl_connecting c) nsp;
          c1 = (if ch \<noteq> None then c\<lparr>cl_connecting := AList.delete nsp (cl_connecting c)\<rparr> else c);
          c2 = map_nc nsp (\<lambda>nc. nc\<lparr>nc_connected := False\<rparr>) c1;
          err = ErrorsNew (if msg \<noteq> [] then msg else ''socketio: connection rejected'');
          c3 = (case ch of Some a \<Rightarrow> chan_send a (Some err) c2 | None \<Rightarrow> c2)
      in (c3, map (\<lambda>h. ConnErrCall h err) (handlers_of (cl_onConnectError c) nsp)))"

definition cl_handleDisconnect :: "sio_packet \<Rightarrow> client_step" where
  "cl_handleDisconnect pkt c =
     (let nsp = sp_Nsp pkt
      in if cl_Connected nsp c
         then (map_nc nsp (\<lambda>nc. nc\<lparr>nc_connected := False\<rparr>) c,
               map (\<lambda>h. DisconnCall h ''io server disconnect'') (handlers_of (cl_onDisconnect c) nsp))
         else (c, []))"

definition cl_handleEvent :: "sio_packet \<Rightarrow> client_step" where
  "cl_handleEvent pkt c =
     (case sp_Data pkt of
        VArr (VStr name # args) \<Rightarrow>
          (c\<lparr>cl_tasks := cl_tasks c @
              [\<lparr>ct_nsp = sp_Nsp pkt, ct_id = sp_ID pkt,
                ct_handlers = handlers_of (handlers_of (cl_onEvent c) (sp_Nsp pkt)) name, ct_args = args\<rparr>]\<rparr>, [])
      | _ \<Rightarrow> (c, []))"

text \<open>
  The goroutines of an event, in the order in which they finish, and the acknowledgement
  sent after the last one.
\<close>

fun run_client_handlers ::
  "handler list \<Rightarrow> client_task \<Rightarrow> client \<Rightarrow> val list \<Rightarrow> (bool \<times> val list) \<times> client_effect list" where
  "run_client_handlers [] t c results = ((True, results), [])"
| "run_client_handlers (h # hs) t c results =
     (case invokeClientHandler h (ct_args t) of
        Panics \<Rightarrow> ((False, results), [])
      | Mismatch \<Rightarrow>
          (case run_client_handlers hs t c results of
             (r, es) \<Rightarrow> (r, cl_fireOnError (ct_nsp t) ErrHandlerMismatch c @ es))
      | Returns res \<Rightarrow> run_client_handlers hs t c (results @ res))"

definition run_client_task :: "client_task \<Rightarrow> handler list \<Rightarrow> client_step" where
  "run_client_task t order c =
     (case run_client_handlers order t c [] of
        ((False, _), es) \<Rightarrow> (c\<lparr>cl_crashed := True\<rparr>, es)
      | ((True, results), es) \<Rightarrow>
          if 0 \<le> ct_id t
          then (case cl_sendPacket (client_packet Ack (ct_nsp t) (ct_id t) (VArr results)) c of
                  (c', es') \<Rightarrow> (c', es @ es'))
          else (c, es))"

definition cl_handleAck :: "sio_packet \<Rightarrow> client_step" where
  "cl_handleAck pkt c =
     (let args = (case sp_Data pkt of VArr vs \<Rightarrow> vs | _ \<Rightarrow> [])
      in case ack_invoke (sp_ID pkt) args (cl_acks c) of
           (t, call, _) \<Rightarrow>
             (c\<lparr>cl_acks := t\<rparr>, (case call of None \<Rightarrow> [] | Some (cb, as) \<Rightarrow> [AckReply cb as])))"

definition cl_process :: "sio_packet \<Rightarrow> client_step" where
  "cl_process pkt =
     (case sp_Type pkt of
        Connect \<Rightarrow> cl_handleConnect pkt
      | ConnectError \<Rightarrow> cl_handleConnectError pkt
      | Disconnect \<Rightarrow> cl_handleDisconnect pkt
      | Event \<Rightarrow> cl_handleEvent pkt
      | Ack \<Rightarrow> cl_handleAck pkt
      | _ \<Rightarrow> perform [])"

text \<open>
  \<^verbatim>\<open>handleIn\<close> with \<^verbatim>\<open>feedBinary\<close> (the code of the server's connection), and one turn of
  \<^verbatim>\<open>processLoop\<close>. The queue of a client is never closed.
\<close>

definition cl_handleIn :: "bytes \<Rightarrow> bool \<Rightarrow> client_step" where
  "cl_handleIn data binary c =
     (case handleIn (cl_recon c) data binary of
        (recon, pkt) \<Rightarrow>
          (case pkt of
             None \<Rightarrow> (c\<lparr>cl_recon := recon\<rparr>, [])
           | Some p \<Rightarrow> cl_process p (c\<lparr>cl_recon := recon\<rparr>)))"

definition cl_onData :: "bytes \<Rightarrow> bool \<Rightarrow> client \<Rightarrow> client" where
  "cl_onData data binary c = c\<lparr>cl_in := pq_push \<lparr>ip_data = data, ip_binary = binary\<rparr> (cl_in c)\<rparr>"

definition cl_processLoop :: "client_step" where
  "cl_processLoop c =
     (if \<not> cl_started c then (c, [])
      else
        (case pq_pop (cl_in c) of
           (PopItem p, q) \<Rightarrow> cl_handleIn (ip_data p) (ip_binary p) (c\<lparr>cl_in := q\<rparr>)
         | _ \<Rightarrow> (c, [])))"

section \<open>Losing the session\<close>

text \<open>\<^verbatim>\<open>strings.Contains\<close>.\<close>

fun str_contains :: "string \<Rightarrow> string \<Rightarrow> bool" where
  "str_contains [] p \<longleftrightarrow> p = []"
| "str_contains (c # s) p \<longleftrightarrow> hasPrefix (c # s) p \<or> str_contains s p"

definition mapClientDisconnectReason :: "go_error option \<Rightarrow> string" where
  "mapClientDisconnectReason err =
     (case err of
        None \<Rightarrow> ''transport close''
      | Some e \<Rightarrow> if str_contains (error_text e) ''ping timeout'' then ''ping timeout'' else ''transport error'')"

text \<open>The goroutine that \<^verbatim>\<open>reconnect\<close> starts begins at the top of its loop.\<close>

definition reconnect :: "string list \<Rightarrow> client \<Rightarrow> client" where
  "reconnect nsps c =
     (if \<not> op_Reconnection (cl_opts c) \<or> nsps = [] then c
      else if cl_closed c then c
      else c\<lparr>cl_loops := cl_loops c @
               [\<lparr>rl_nsps = nsps, rl_attempt = 0, rl_delay = op_ReconnectionDelay (cl_opts c), rl_phase = AtTop\<rparr>]\<rparr>)"

fun fail_connecting :: "go_error option \<Rightarrow> nat list \<Rightarrow> client \<Rightarrow> client" where
  "fail_connecting err [] c = c"
| "fail_connecting err (ch # chs) c = fail_connecting err chs (chan_try_send ch err c)"

definition onEngineClosed :: "go_error option \<Rightarrow> client_step" where
  "onEngineClosed err c =
     run_all
       ([modify (\<lambda>c. (fail_connecting err (map snd (cl_connecting c)) c)\<lparr>cl_connecting := []\<rparr>),
         modify (\<lambda>c. (disconnect_nsps c)\<lparr>cl_engine := None\<rparr>),
         modify (\<lambda>c. c\<lparr>cl_acks := ack_clear (cl_acks c)\<rparr>)]
        @ map (\<lambda>nsp. cl_fireDisconnect nsp (mapClientDisconnectReason err)) (connected_nsps c)
        @ [modify (if cl_closed c then id else reconnect (connected_nsps c))]) c"

section \<open>Reconnecting\<close>

text \<open>
  The delay before an attempt, for a random number \<open>r\<close> in [0, 1). Float arithmetic is exact
  here; the conversion to a duration truncates.
\<close>

definition trunc_rat :: "rat \<Rightarrow> int" where
  "trunc_rat q = (if 0 \<le> q then \<lfloor>q\<rfloor> else - \<lfloor>- q\<rfloor>)"

definition reconnect_wait :: "options \<Rightarrow> duration \<Rightarrow> rat \<Rightarrow> duration" where
  "reconnect_wait o1 delay r =
     (let f = op_RandomizationFactor o1;
          wait = (if 0 < f then trunc_rat (of_int delay * (1 - f + 2 * f * r)) else delay)
      in if op_ReconnectionDelayMax o1 < wait then op_ReconnectionDelayMax o1 else wait)"

text \<open>\<^verbatim>\<open>delay *= 2\<close> on 64 bits, and the cap.\<close>

definition double64 :: "int \<Rightarrow> int" where
  "double64 d = (2 * d - min_int64) mod 18446744073709551616 + min_int64"

definition next_delay :: "options \<Rightarrow> duration \<Rightarrow> duration" where
  "next_delay o1 delay =
     (if op_ReconnectionDelayMax o1 < double64 delay then op_ReconnectionDelayMax o1 else double64 delay)"

definition set_loop :: "nat \<Rightarrow> rloop \<Rightarrow> client \<Rightarrow> client" where
  "set_loop i l c = c\<lparr>cl_loops := (cl_loops c)[i := l]\<rparr>"

definition end_loop :: "nat \<Rightarrow> client \<Rightarrow> client" where
  "end_loop i c = c\<lparr>cl_loops := take i (cl_loops c) @ drop (Suc i) (cl_loops c)\<rparr>"

definition giveUpReconnecting :: "string list \<Rightarrow> client_step" where
  "giveUpReconnecting nsps =
     run_all
       (map (\<lambda>nsp. cl_fireConnectError nsp (ErrorsNew ''socketio: reconnection failed after maximum attempts'')) nsps
        @ [modify (\<lambda>c. c\<lparr>cl_closed := True\<rparr>), modify (\<lambda>c. c\<lparr>cl_stop := True\<rparr>)])"

text \<open>The top of the loop up to the wait; the loop ends when it is stopped or gives up.\<close>

definition loop_top :: "nat \<Rightarrow> rat \<Rightarrow> client_step" where
  "loop_top i r c =
     (let l = cl_loops c ! i; attempts = op_ReconnectionAttempts (cl_opts c)
      in if cl_stop c then (end_loop i c, [])
         else if 0 < attempts \<and> attempts \<le> rl_attempt l
         then giveUpReconnecting (rl_nsps l) (end_loop i c)
         else
           (set_loop i (l\<lparr>rl_attempt := rl_attempt l + 1,
                          rl_phase := Waiting (reconnect_wait (cl_opts c) (rl_delay l) r)\<rparr>) c, []))"

text \<open>The wait ends with the timer or with the stop channel.\<close>

definition loop_timer :: "nat \<Rightarrow> client \<Rightarrow> client" where
  "loop_timer i c = set_loop i ((cl_loops c ! i)\<lparr>rl_phase := Dialing\<rparr>) c"

text \<open>
  A failed attempt: the deferred function of \<^verbatim>\<open>reconnectAttempt\<close> closes the session, and the
  loop doubles the delay.
\<close>

definition attempt_failed :: "nat \<Rightarrow> client_step" where
  "attempt_failed i c =
     (let l = cl_loops c ! i
      in (set_loop i (l\<lparr>rl_delay := next_delay (cl_opts c) (rl_delay l), rl_phase := AtTop\<rparr>)
            (c\<lparr>cl_engine := None\<rparr>),
          (case cl_engine c of None \<Rightarrow> [] | Some e \<Rightarrow> [EngineClose e])))"

text \<open>The next namespace of an attempt, or its successful end.\<close>

definition connect_next :: "nat \<Rightarrow> string list \<Rightarrow> client_step" where
  "connect_next i nsps c =
     (case nsps of
        [] \<Rightarrow> (end_loop i c, [])
      | nsp # rest \<Rightarrow>
          (let auth = (case map_of (cl_nsps c) nsp of None \<Rightarrow> None | Some nc \<Rightarrow> nc_auth nc)
           in case connect_start nsp auth c of
                (ch, c', es) \<Rightarrow>
                  (set_loop i ((cl_loops c' ! i)\<lparr>rl_phase := Connecting nsp ch rest\<rparr>) c', es)))"

definition loop_dial :: "nat \<Rightarrow> go_error + nat \<Rightarrow> client_step" where
  "loop_dial i dialed c =
     (case dialEngine dialed c of
        (Some err, c') \<Rightarrow> attempt_failed i c'
      | (None, c') \<Rightarrow> connect_next i (rl_nsps (cl_loops c' ! i)) c')"

text \<open>\<^verbatim>\<open>connectNsp\<close> inside an attempt returns with the value on its channel, or times out.\<close>

definition loop_result :: "nat \<Rightarrow> client_step" where
  "loop_result i c =
     (case rl_phase (cl_loops c ! i) of
        Connecting nsp ch rest \<Rightarrow>
          (case connect_result ch c of
             None \<Rightarrow> (c, [])
           | Some (None, c') \<Rightarrow> connect_next i rest c'
           | Some (Some err, c') \<Rightarrow> attempt_failed i c')
      | _ \<Rightarrow> (c, []))"

definition loop_timeout :: "nat \<Rightarrow> client_step" where
  "loop_timeout i c =
     (case rl_phase (cl_loops c ! i) of
        Connecting nsp ch rest \<Rightarrow> attempt_failed i (connect_cancelled nsp c)
      | _ \<Rightarrow> (c, []))"

end
