(* ===== verification/SioClientProps.thy ===== *)
theory SioClientProps
  imports SioClient
begin

text \<open>
  The properties of the Socket.IO client: its invariant over all interleavings of calls,
  packets, session losses and reconnecting goroutines; what connecting, closing and
  reconnecting do; and some situations in which the code does not do what it means to.
\<close>

section \<open>What the steps change\<close>

lemma cl_sendPacket_state: "\<exists>h. fst (cl_sendPacket p c) = c\<lparr>cl_readers := h\<rparr>"
proof -
  have "\<exists>h. c = c\<lparr>cl_readers := h\<rparr>"
    by (rule exI [of _ "cl_readers c"]) simp
  then show ?thesis
    by (auto simp: cl_sendPacket_def split: option.splits prod.splits)
qed

lemma fire_all:
  assumes "\<And>n c. f n c = (c, g n c)"
  shows "run_all (map f ns) c = (c, concat (map (\<lambda>n. g n c) ns))"
  using assms by (induction ns) simp_all

lemmas fire_disconnects = fire_all [of "\<lambda>n. cl_fireDisconnect n r"
    "\<lambda>n c. map (\<lambda>h. DisconnCall h r) (handlers_of (cl_onDisconnect c) n)" for r, OF cl_fireDisconnect_def]

lemmas fire_connect_errors = fire_all [of "\<lambda>n. cl_fireConnectError n e"
    "\<lambda>n c. map (\<lambda>h. ConnErrCall h e) (handlers_of (cl_onConnectError c) n)" for e, OF cl_fireConnectError_def]

lemma map_nc_fields [simp]:
  "map_of (cl_nsps (map_nc nsp f c)) n = (if n = nsp then map_option f (map_of (cl_nsps c) n) else map_of (cl_nsps c) n)"
  "cl_connecting (map_nc nsp f c) = cl_connecting c" "cl_chans (map_nc nsp f c) = cl_chans c"
  "cl_nchans (map_nc nsp f c) = cl_nchans c" "cl_blocked (map_nc nsp f c) = cl_blocked c"
  "cl_acks (map_nc nsp f c) = cl_acks c" "cl_loops (map_nc nsp f c) = cl_loops c"
  "cl_opts (map_nc nsp f c) = cl_opts c" "cl_engine (map_nc nsp f c) = cl_engine c"
  "cl_closed (map_nc nsp f c) = cl_closed c" "cl_crashed (map_nc nsp f c) = cl_crashed c"
  "cl_in (map_nc nsp f c) = cl_in c" "cl_started (map_nc nsp f c) = cl_started c" "cl_stop (map_nc nsp f c) = cl_stop c"
  "cl_onConnectError (map_nc nsp f c) = cl_onConnectError c"
  by (auto simp: map_nc_def update_conv' split: option.splits)

lemma disconnect_nsps_lookup [simp]:
  "map_of (map (\<lambda>(nsp, nc). (nsp, nc\<lparr>nc_connected := False\<rparr>)) ns) n = map_option (\<lambda>nc. nc\<lparr>nc_connected := False\<rparr>) (map_of ns n)"
  by (induction ns) auto

lemma fail_connecting_state:
  "fail_connecting err chs c =
     c\<lparr>cl_chans := \<lambda>ch. if ch \<in> set chs \<and> cl_chans c ch = None then Some err else cl_chans c ch\<rparr>"
proof (induction chs arbitrary: c)
  case (Cons ch chs)
  show ?case
  proof (cases "cl_chans c ch")
    case None
    then show ?thesis
      by (simp add: Cons.IH chan_try_send_def fun_eq_iff cong: if_cong)
  next
    case (Some a)
    then have eq: "(\<lambda>x. if x \<in> set (ch # chs) \<and> cl_chans c x = None then Some err else cl_chans c x) =
        (\<lambda>x. if x \<in> set chs \<and> cl_chans c x = None then Some err else cl_chans c x)"
      by (intro ext) auto
    from Some have "chan_try_send ch err c = c"
      by (simp add: chan_try_send_def)
    then show ?thesis
      by (simp only: fail_connecting.simps Cons.IH eq)
  qed
qed simp

section \<open>The invariant\<close>

text \<open>
  Every CONNECT still awaited has a channel of its own whose buffer is empty, and its
  namespace is known and not connected.
\<close>

definition conn_ok ::
  "(string \<times> nsClient) list \<Rightarrow> (string \<times> nat) list \<Rightarrow> (nat \<Rightarrow> go_error option option) \<Rightarrow> nat \<Rightarrow> bool" where
  "conn_ok nsps conn chans n \<longleftrightarrow>
     distinct (map fst conn)
     \<and> (\<forall>nsp ch. map_of conn nsp = Some ch \<longrightarrow> chans ch = None \<and> ch < n
          \<and> (\<exists>nc. map_of nsps nsp = Some nc \<and> \<not> nc_connected nc))
     \<and> (\<forall>n1 n2 ch. map_of conn n1 = Some ch \<longrightarrow> map_of conn n2 = Some ch \<longrightarrow> n1 = n2)
     \<and> (\<forall>ch\<ge>n. chans ch = None)"

text \<open>
  A reconnecting goroutine has made no more attempts than allowed and never waits longer
  than the maximal delay.
\<close>

definition loop_ok :: "options \<Rightarrow> rloop \<Rightarrow> bool" where
  "loop_ok o1 l \<longleftrightarrow>
     0 \<le> rl_attempt l \<and> (0 < op_ReconnectionAttempts o1 \<longrightarrow> rl_attempt l \<le> op_ReconnectionAttempts o1)
     \<and> (\<forall>w. rl_phase l = Waiting w \<longrightarrow> w \<le> op_ReconnectionDelayMax o1)"

definition cl_inv :: "client \<Rightarrow> bool" where
  "cl_inv c \<longleftrightarrow>
     conn_ok (cl_nsps c) (cl_connecting c) (cl_chans c) (cl_nchans c) \<and> \<not> cl_blocked c
     \<and> ack_inv (cl_acks c) \<and> (\<forall>l\<in>set (cl_loops c). loop_ok (cl_opts c) l)"

lemma conn_okD:
  assumes "conn_ok nsps conn chans n"
  shows "distinct (map fst conn)"
    and "\<And>nsp ch. map_of conn nsp = Some ch \<Longrightarrow> chans ch = None"
    and "\<And>nsp ch. map_of conn nsp = Some ch \<Longrightarrow> ch < n"
    and "\<And>nsp ch. map_of conn nsp = Some ch \<Longrightarrow> \<exists>nc. map_of nsps nsp = Some nc \<and> \<not> nc_connected nc"
    and "\<And>n1 n2 ch. map_of conn n1 = Some ch \<Longrightarrow> map_of conn n2 = Some ch \<Longrightarrow> n1 = n2"
    and "\<And>ch. n \<le> ch \<Longrightarrow> chans ch = None"
  using assms unfolding conn_ok_def by blast+

lemma conn_okI:
  assumes "distinct (map fst conn)"
    and "\<And>nsp ch. map_of conn nsp = Some ch \<Longrightarrow> chans ch = None"
    and "\<And>nsp ch. map_of conn nsp = Some ch \<Longrightarrow> ch < n"
    and "\<And>nsp ch. map_of conn nsp = Some ch \<Longrightarrow> \<exists>nc. map_of nsps nsp = Some nc \<and> \<not> nc_connected nc"
    and "\<And>n1 n2 ch. map_of conn n1 = Some ch \<Longrightarrow> map_of conn n2 = Some ch \<Longrightarrow> n1 = n2"
    and "\<And>ch. n \<le> ch \<Longrightarrow> chans ch = None"
  shows "conn_ok nsps conn chans n"
  using assms unfolding conn_ok_def by blast

lemma conn_ok_subset:
  assumes "conn_ok nsps conn chans n" and "distinct (map fst conn')"
    and "\<And>nsp ch. map_of conn' nsp = Some ch \<Longrightarrow> map_of conn nsp = Some ch"
    and "\<And>nsp ch. map_of conn' nsp = Some ch \<Longrightarrow> \<exists>nc. map_of nsps' nsp = Some nc \<and> \<not> nc_connected nc"
    and "\<And>ch. chans' ch \<noteq> chans ch \<Longrightarrow> ch < n \<and> (\<forall>nsp. map_of conn' nsp \<noteq> Some ch)"
  shows "conn_ok nsps' conn' chans' n"
proof (rule conn_okI)
  fix nsp ch assume c: "map_of conn' nsp = Some ch"
  show "chans' ch = None"
    using conn_okD(2) [OF assms(1) assms(3) [OF c]] assms(5) [of ch] c by metis
  show "ch < n"
    using conn_okD(3) [OF assms(1) assms(3) [OF c]] .
next
  fix n1 n2 ch assume "map_of conn' n1 = Some ch" "map_of conn' n2 = Some ch"
  then show "n1 = n2"
    using conn_okD(5) [OF assms(1)] assms(3) by blast
next
  fix ch assume "n \<le> ch"
  then show "chans' ch = None"
    using conn_okD(6) [OF assms(1), of ch] assms(5) [of ch] by fastforce
qed (use assms(2,4) in blast)+

lemma conn_ok_disconnect:
  assumes "conn_ok nsps conn chans n"
    and "\<And>nsp. map_of nsps' nsp = map_of nsps nsp \<or> map_of nsps' nsp = map_option (\<lambda>nc. nc\<lparr>nc_connected := False\<rparr>) (map_of nsps nsp)"
  shows "conn_ok nsps' conn chans n"
proof (rule conn_ok_subset [OF assms(1)])
  fix nsp ch assume "map_of conn nsp = Some ch"
  from conn_okD(4) [OF assms(1) this] show "\<exists>nc. map_of nsps' nsp = Some nc \<and> \<not> nc_connected nc"
    using assms(2) [of nsp] by auto
qed (use conn_okD(1) [OF assms(1)] in auto)

subsection \<open>Every step keeps it\<close>

lemma cl_inv_readers [simp]: "cl_inv (c\<lparr>cl_readers := h\<rparr>) = cl_inv c"
  by (simp add: cl_inv_def)

lemma cl_inv_send: "cl_inv c \<Longrightarrow> cl_inv (fst (cl_sendPacket p c))"
  using cl_sendPacket_state [of p c] by auto

lemma cl_inv_registration:
  "cl_inv c \<Longrightarrow> cl_inv (cl_OnEvent nsp event f c)" "cl_inv c \<Longrightarrow> cl_inv (cl_OnConnect nsp g c)"
  "cl_inv c \<Longrightarrow> cl_inv (cl_OnDisconnect nsp g c)" "cl_inv c \<Longrightarrow> cl_inv (cl_OnConnectError nsp g c)"
  "cl_inv c \<Longrightarrow> cl_inv (cl_OnError nsp g c)" "cl_inv c \<Longrightarrow> cl_inv (cl_onData data binary c)"
  by (simp_all add: cl_inv_def cl_OnEvent_def cl_OnConnect_def cl_OnDisconnect_def cl_OnConnectError_def
      cl_OnError_def cl_onData_def)

lemma cl_inv_nsps:
  assumes "cl_inv c"
    and "\<And>nsp. map_of (cl_nsps c') nsp = map_of (cl_nsps c) nsp
          \<or> map_of (cl_nsps c') nsp = map_option (\<lambda>nc. nc\<lparr>nc_connected := False\<rparr>) (map_of (cl_nsps c) nsp)"
    and "cl_connecting c' = cl_connecting c" "cl_chans c' = cl_chans c" "cl_nchans c' = cl_nchans c"
    "cl_blocked c' = cl_blocked c" "cl_opts c' = cl_opts c" "cl_acks c' = cl_acks c \<or> cl_acks c' = ack_clear (cl_acks c)"
    "set (cl_loops c') \<subseteq> set (cl_loops c)"
  shows "cl_inv c'"
proof -
  have "conn_ok (cl_nsps c') (cl_connecting c) (cl_chans c) (cl_nchans c)"
    by (rule conn_ok_disconnect [OF _ assms(2)]) (use assms(1) in \<open>simp add: cl_inv_def\<close>)
  moreover have "ack_inv (cl_acks c')"
    using assms(1,8) by (auto simp: cl_inv_def inv_simps)
  ultimately show ?thesis
    using assms(1,9) unfolding cl_inv_def assms(3-7) by blast
qed

lemma cl_inv_DisconnectNamespace: "cl_inv c \<Longrightarrow> cl_inv (fst (DisconnectNamespace nsp c))"
proof -
  assume inv: "cl_inv c"
  let ?c1 = "(if cl_Connected nsp c then map_nc nsp (\<lambda>nc. nc\<lparr>nc_connected := False\<rparr>) else id) c"
  have "cl_inv ?c1"
    by (rule cl_inv_nsps [OF inv]) simp_all
  then show ?thesis
    using cl_inv_send [of ?c1 "client_packet Disconnect nsp (-1) VNil"]
    by (auto simp: DisconnectNamespace_def modify_def perform_def cl_fireDisconnect_def split: prod.splits)
qed

lemma cl_Close_state:
  "cl_Close c = (if cl_closed c then (c\<lparr>cl_stop := True\<rparr>, [])
     else ((disconnect_nsps c)\<lparr>cl_stop := True, cl_closed := True, cl_engine := None, cl_acks := ack_clear (cl_acks c)\<rparr>,
           concat (map (\<lambda>n. map (\<lambda>h. DisconnCall h ''io client disconnect'') (handlers_of (cl_onDisconnect c) n)) (connected_nsps c))
           @ (case cl_engine c of None \<Rightarrow> [] | Some e \<Rightarrow> [EngineClose e])))"
proof -
  have "connected_nsps (c\<lparr>cl_stop := True\<rparr>) = connected_nsps c"
    by (simp add: connected_nsps_def)
  then show ?thesis
    by (simp add: cl_Close_def modify_def perform_def run_all_append fire_disconnects disconnect_nsps_def)
qed

lemma cl_inv_Close:
  assumes "cl_inv c"
  shows "cl_inv (fst (cl_Close c))"
  by (rule cl_inv_nsps [OF assms]) (auto simp: cl_Close_state disconnect_nsps_def)

text \<open>The client when \<open>connectNsp\<close> has registered its channel.\<close>

definition connecting_state :: "string \<Rightarrow> (string \<times> val) list option \<Rightarrow> client \<Rightarrow> client" where
  "connecting_state nsp data c =
     c\<lparr>cl_nchans := cl_nchans c + 1,
       cl_nsps := AList.update nsp ((case map_of (cl_nsps c) nsp of Some nc \<Rightarrow> nc
            | None \<Rightarrow> \<lparr>nc_connected = False, nc_sid = [], nc_auth = None\<rparr>)\<lparr>nc_connected := False, nc_auth := data\<rparr>) (cl_nsps c),
       cl_connecting := AList.update nsp (cl_nchans c) (cl_connecting c)\<rparr>"

lemma connect_start_state:
  "\<exists>h es. connect_start nsp data c = (cl_nchans c, (connecting_state nsp data c)\<lparr>cl_readers := h\<rparr>, es)"
proof -
  let ?p = "client_packet Connect nsp (-1) (case data of None \<Rightarrow> VNil | Some m \<Rightarrow> VObj m)"
  have "connect_start nsp data c = (cl_nchans c, cl_sendPacket ?p (connecting_state nsp data c))"
    by (simp add: connect_start_def connecting_state_def Let_def)
  then show ?thesis
    using cl_sendPacket_state [of ?p "connecting_state nsp data c"]
    by (cases "cl_sendPacket ?p (connecting_state nsp data c)") auto
qed

lemma cl_inv_connecting:
  assumes "cl_inv c"
  shows "cl_inv (connecting_state nsp data c)"
proof -
  have ok: "conn_ok (cl_nsps c) (cl_connecting c) (cl_chans c) (cl_nchans c)"
    using assms by (simp add: cl_inv_def)
  have "conn_ok (AList.update nsp nc (cl_nsps c)) (AList.update nsp (cl_nchans c) (cl_connecting c)) (cl_chans c) (cl_nchans c + 1)"
    if "\<not> nc_connected nc" for nc
  proof (rule conn_okI)
    show "distinct (map fst (AList.update nsp (cl_nchans c) (cl_connecting c)))"
      using conn_okD(1) [OF ok] by (rule distinct_update)
  next
    fix n1 n2 ch
    assume "map_of (AList.update nsp (cl_nchans c) (cl_connecting c)) n1 = Some ch"
      "map_of (AList.update nsp (cl_nchans c) (cl_connecting c)) n2 = Some ch"
    then show "n1 = n2"
      using conn_okD(5) [OF ok, of n1 ch n2] conn_okD(3) [OF ok, of n1 ch] conn_okD(3) [OF ok, of n2 ch]
      by (auto simp: update_conv' split: if_splits)
  next
    fix n ch assume n: "map_of (AList.update nsp (cl_nchans c) (cl_connecting c)) n = Some ch"
    then show "cl_chans c ch = None"
      using conn_okD(2) [OF ok, of n ch] conn_okD(6) [OF ok, of ch] by (auto simp: update_conv' split: if_splits)
    show "ch < cl_nchans c + 1"
      using n conn_okD(3) [OF ok, of n ch] by (auto simp: update_conv' split: if_splits)
    show "\<exists>nc'. map_of (AList.update nsp nc (cl_nsps c)) n = Some nc' \<and> \<not> nc_connected nc'"
      using n that conn_okD(4) [OF ok, of n ch] by (auto simp: update_conv' split: if_splits)
  qed (use conn_okD(6) [OF ok] in auto)
  then show ?thesis
    using assms unfolding cl_inv_def connecting_state_def by simp
qed

lemma cl_inv_connect_start:
  assumes "cl_inv c"
  shows "cl_inv (fst (snd (connect_start nsp data c)))"
  using connect_start_state [of nsp data c] cl_inv_connecting [OF assms, of nsp data] by auto

lemma cl_inv_cancelled: "cl_inv c \<Longrightarrow> cl_inv (connect_cancelled nsp c)"
proof -
  assume inv: "cl_inv c"
  then have ok: "conn_ok (cl_nsps c) (cl_connecting c) (cl_chans c) (cl_nchans c)"
    by (simp add: cl_inv_def)
  have "conn_ok (cl_nsps c) (AList.delete nsp (cl_connecting c)) (cl_chans c) (cl_nchans c)"
    by (rule conn_ok_subset [OF ok])
      (use conn_okD(1,4) [OF ok] in \<open>auto simp: delete_conv' distinct_delete split: if_splits\<close>)
  then show ?thesis
    using inv by (simp add: cl_inv_def connect_cancelled_def)
qed

lemma cl_inv_result: "cl_inv c \<Longrightarrow> connect_result ch c = Some (e, c') \<Longrightarrow> cl_inv c'"
  by (auto simp: cl_inv_def connect_result_def conn_ok_def)

text \<open>An awaited CONNECT that is answered.\<close>

lemma conn_ok_answer:
  assumes "conn_ok nsps conn chans n" and "map_of conn nsp = Some ch"
    and "\<And>m. m \<noteq> nsp \<Longrightarrow> map_of nsps' m = map_of nsps m"
  shows "conn_ok nsps' (AList.delete nsp conn) (chans(ch \<mapsto> e)) n"
proof (rule conn_ok_subset [OF assms(1)])
  fix m a assume "map_of (AList.delete nsp conn) m = Some a"
  then have m: "m \<noteq> nsp" "map_of conn m = Some a"
    by (auto simp: delete_conv' split: if_splits)
  then show "map_of conn m = Some a"
    by simp
  show "\<exists>nc. map_of nsps' m = Some nc \<and> \<not> nc_connected nc"
    using conn_okD(4) [OF assms(1) m(2)] assms(3) [OF m(1)] by simp
next
  fix a assume "(chans(ch \<mapsto> e)) a \<noteq> chans a"
  then have "a = ch"
    by (auto split: if_splits)
  then show "a < n \<and> (\<forall>m. map_of (AList.delete nsp conn) m \<noteq> Some a)"
    using conn_okD(3) [OF assms(1,2)] conn_okD(5) [OF assms(1,2)] by (auto simp: delete_conv')
qed (simp add: conn_okD(1) [OF assms(1)] distinct_delete)

lemma cl_inv_answer:
  assumes "cl_inv c" and "map_of (cl_connecting c) nsp = Some ch"
  shows "cl_inv (chan_send ch e (map_nc nsp f (c\<lparr>cl_connecting := AList.delete nsp (cl_connecting c)\<rparr>)))"
proof -
  have ok: "conn_ok (cl_nsps c) (cl_connecting c) (cl_chans c) (cl_nchans c)"
    using assms(1) by (simp add: cl_inv_def)
  let ?c = "map_nc nsp f (c\<lparr>cl_connecting := AList.delete nsp (cl_connecting c)\<rparr>)"
  have "conn_ok (cl_nsps ?c) (AList.delete nsp (cl_connecting c)) ((cl_chans c)(ch \<mapsto> e)) (cl_nchans c)"
    by (rule conn_ok_answer [OF ok assms(2)]) simp
  then show ?thesis
    using assms(1) conn_okD(2) [OF ok assms(2)] by (simp add: chan_send_def cl_inv_def)
qed

lemma cl_inv_disconnected:
  assumes "cl_inv c"
  shows "cl_inv (map_nc nsp (\<lambda>nc. nc\<lparr>nc_connected := False\<rparr>) c)"
  by (rule cl_inv_nsps [OF assms]) simp_all

lemma cl_inv_handleConnect: "cl_inv c \<Longrightarrow> cl_inv (fst (cl_handleConnect pkt c))"
  using cl_inv_answer [of c "sp_Nsp pkt"]
  by (cases "map_of (cl_connecting c) (sp_Nsp pkt)") (simp_all add: cl_handleConnect_def Let_def)

lemma cl_inv_handleConnectError: "cl_inv c \<Longrightarrow> cl_inv (fst (cl_handleConnectError pkt c))"
  using cl_inv_answer [of c "sp_Nsp pkt"] cl_inv_disconnected [of c "sp_Nsp pkt"]
  by (cases "map_of (cl_connecting c) (sp_Nsp pkt)") (simp_all add: cl_handleConnectError_def Let_def)

lemma cl_inv_process:
  assumes "cl_inv c"
  shows "cl_inv (fst (cl_process pkt c))"
proof (cases "sp_Type pkt")
  case Ack
  then show ?thesis
    using assms ack_inv_invoke [of "cl_acks c" "sp_ID pkt"]
    by (auto simp: cl_process_def cl_handleAck_def cl_inv_def Let_def ack_invoke_def ack_inv_delete
        split: option.splits)
next
  case Event
  have "cl_inv (c\<lparr>cl_tasks := ts\<rparr>)" for ts
    using assms by (simp add: cl_inv_def)
  with assms Event show ?thesis
    by (simp add: cl_process_def cl_handleEvent_def split: val.splits list.splits)
next
  case Disconnect
  then show ?thesis
    using assms cl_inv_disconnected [OF assms] by (simp add: cl_process_def cl_handleDisconnect_def Let_def)
qed (simp_all add: cl_process_def perform_def assms cl_inv_handleConnect cl_inv_handleConnectError)

lemma cl_inv_processLoop:
  assumes "cl_inv c"
  shows "cl_inv (fst (cl_processLoop c))"
proof -
  have "cl_inv (c\<lparr>cl_in := q, cl_recon := r\<rparr>)" for q r
    using assms by (simp add: cl_inv_def)
  then have "cl_inv (fst (cl_handleIn data binary (c\<lparr>cl_in := q\<rparr>)))" for data binary q
    using cl_inv_process by (auto simp: cl_handleIn_def split: prod.splits option.splits)
  then show ?thesis
    using assms by (auto simp: cl_processLoop_def split: prod.splits pop_result.splits)
qed

lemma cl_inv_task:
  assumes "cl_inv c"
  shows "cl_inv (fst (run_client_task t order c))"
proof -
  obtain ok res es where r: "run_client_handlers order t c [] = ((ok, res), es)"
    by (cases "run_client_handlers order t c []") auto
  have "cl_inv (c\<lparr>cl_crashed := True\<rparr>)"
    using assms by (simp add: cl_inv_def)
  then show ?thesis
    using assms r cl_inv_send [OF assms] by (cases ok) (simp_all add: run_client_task_def case_prod_beta)
qed

lemma onEngineClosed_state:
  "onEngineClosed err c =
     ((if cl_closed c then id else reconnect (connected_nsps c))
        ((disconnect_nsps ((fail_connecting err (map snd (cl_connecting c)) c)\<lparr>cl_connecting := []\<rparr>))
           \<lparr>cl_engine := None, cl_acks := ack_clear (cl_acks c)\<rparr>),
      concat (map (\<lambda>n. map (\<lambda>h. DisconnCall h (mapClientDisconnectReason err)) (handlers_of (cl_onDisconnect c) n))
        (connected_nsps c)))"
  by (simp add: onEngineClosed_def modify_def run_all_append fire_disconnects disconnect_nsps_def fail_connecting_state)

lemma loop_ok_new:
  "loop_ok o1 \<lparr>rl_nsps = ns, rl_attempt = 0, rl_delay = d, rl_phase = AtTop\<rparr>"
  by (simp add: loop_ok_def)

lemma cl_inv_reconnect: "cl_inv c \<Longrightarrow> cl_inv (reconnect nsps c)"
  by (auto simp: reconnect_def cl_inv_def loop_ok_new)

lemma cl_inv_onEngineClosed:
  assumes "cl_inv c"
  shows "cl_inv (fst (onEngineClosed err c))"
proof -
  let ?c = "(disconnect_nsps ((fail_connecting err (map snd (cl_connecting c)) c)\<lparr>cl_connecting := []\<rparr>))
      \<lparr>cl_engine := None, cl_acks := ack_clear (cl_acks c)\<rparr>"
  have ok: "conn_ok (cl_nsps c) (cl_connecting c) (cl_chans c) (cl_nchans c)"
    using assms by (simp add: cl_inv_def)
  have lt: "ch < cl_nchans c" if "ch \<in> set (map snd (cl_connecting c))" for ch
  proof -
    from that obtain nsp where "(nsp, ch) \<in> set (cl_connecting c)"
      by auto
    from conn_okD(3) [OF ok map_of_is_SomeI [OF conn_okD(1) [OF ok] this]] show ?thesis .
  qed
  have "conn_ok (cl_nsps ?c) [] (cl_chans ?c) (cl_nchans ?c)"
  proof (rule conn_okI)
    fix ch assume "cl_nchans ?c \<le> ch"
    then have "cl_nchans c \<le> ch"
      by (simp add: fail_connecting_state disconnect_nsps_def)
    then show "cl_chans ?c ch = None"
      using lt [of ch] conn_okD(6) [OF ok, of ch] by (auto simp: fail_connecting_state disconnect_nsps_def)
  qed simp_all
  then have "cl_inv ?c"
    using assms by (simp add: cl_inv_def fail_connecting_state disconnect_nsps_def inv_simps)
  then show ?thesis
    using cl_inv_reconnect by (simp add: onEngineClosed_state)
qed

subsection \<open>Reconnecting\<close>

lemma set_loop_fields [simp]:
  "cl_inv c \<Longrightarrow> loop_ok (cl_opts c) l \<Longrightarrow> cl_inv (set_loop i l c)"
  unfolding cl_inv_def set_loop_def by (auto dest: set_update_subset_insert [THEN subsetD])

lemma end_loop_inv [simp]: "cl_inv c \<Longrightarrow> cl_inv (end_loop i c)"
  unfolding cl_inv_def end_loop_def by (auto dest: in_set_takeD in_set_dropD)

lemma cl_inv_loop: "cl_inv c \<Longrightarrow> i < length (cl_loops c) \<Longrightarrow> loop_ok (cl_opts c) (cl_loops c ! i)"
  by (simp add: cl_inv_def)

lemma reconnect_wait_le: "reconnect_wait o1 d r \<le> op_ReconnectionDelayMax o1"
  by (simp add: reconnect_wait_def Let_def)

lemma giveUp_state:
  "giveUpReconnecting nsps c = (c\<lparr>cl_closed := True, cl_stop := True\<rparr>,
     concat (map (\<lambda>n. map (\<lambda>h. ConnErrCall h (ErrorsNew ''socketio: reconnection failed after maximum attempts''))
       (handlers_of (cl_onConnectError c) n)) nsps))"
  by (simp add: giveUpReconnecting_def run_all_append fire_connect_errors modify_def)

lemma cl_inv_loop_top:
  assumes "cl_inv c" and "i < length (cl_loops c)"
  shows "cl_inv (fst (loop_top i r c))"
proof -
  have "cl_inv (c\<lparr>cl_closed := True, cl_stop := True\<rparr>)" if "cl_inv c" for c
    using that by (simp add: cl_inv_def)
  moreover have "loop_ok (cl_opts c) ((cl_loops c ! i)\<lparr>rl_attempt := rl_attempt (cl_loops c ! i) + 1,
      rl_phase := Waiting (reconnect_wait (cl_opts c) (rl_delay (cl_loops c ! i)) r)\<rparr>)"
    if "\<not> (0 < op_ReconnectionAttempts (cl_opts c) \<and> op_ReconnectionAttempts (cl_opts c) \<le> rl_attempt (cl_loops c ! i))"
    using cl_inv_loop [OF assms] that by (auto simp: loop_ok_def reconnect_wait_le)
  ultimately show ?thesis
    using assms by (simp add: loop_top_def Let_def giveUp_state)
qed

lemma cl_inv_loop_timer: "cl_inv c \<Longrightarrow> i < length (cl_loops c) \<Longrightarrow> cl_inv (loop_timer i c)"
  using cl_inv_loop [of c i] by (simp add: loop_timer_def loop_ok_def)

lemma cl_inv_attempt_failed:
  assumes "cl_inv c" and "i < length (cl_loops c)"
  shows "cl_inv (fst (attempt_failed i c))"
proof -
  have "cl_inv (c\<lparr>cl_engine := None\<rparr>)"
    using assms(1) by (simp add: cl_inv_def)
  then show ?thesis
    using cl_inv_loop [OF assms] by (simp add: attempt_failed_def Let_def loop_ok_def)
qed

lemma connecting_state_loops [simp]:
  "cl_loops (connecting_state nsp data c) = cl_loops c" "cl_opts (connecting_state nsp data c) = cl_opts c"
  by (simp_all add: connecting_state_def)

lemma cl_inv_connect_next:
  assumes "cl_inv c" and "i < length (cl_loops c)"
  shows "cl_inv (fst (connect_next i nsps c))"
proof (cases nsps)
  case (Cons nsp rest)
  let ?auth = "case map_of (cl_nsps c) nsp of None \<Rightarrow> None | Some nc \<Rightarrow> nc_auth nc"
  obtain h es where "connect_start nsp ?auth c = (cl_nchans c, (connecting_state nsp ?auth c)\<lparr>cl_readers := h\<rparr>, es)"
    using connect_start_state by blast
  moreover have "cl_inv ((connecting_state nsp ?auth c)\<lparr>cl_readers := h\<rparr>)"
    using cl_inv_connecting [OF assms(1)] by simp
  ultimately show ?thesis
    using Cons cl_inv_loop [OF assms] by (simp add: connect_next_def loop_ok_def)
qed (simp add: connect_next_def assms)

lemma cl_inv_loop_dial:
  assumes "cl_inv c" and "i < length (cl_loops c)"
  shows "cl_inv (fst (loop_dial i dialed c))"
proof -
  have "cl_inv (c\<lparr>cl_engine := e, cl_started := b\<rparr>)" for e b
    using assms(1) by (simp add: cl_inv_def)
  then show ?thesis
    using assms cl_inv_attempt_failed cl_inv_connect_next
    by (simp add: loop_dial_def dialEngine_def split: sum.splits)
qed

lemma cl_inv_loop_result:
  assumes "cl_inv c" and "i < length (cl_loops c)"
  shows "cl_inv (fst (loop_result i c))"
proof -
  have "cl_inv c' \<and> i < length (cl_loops c')" if "connect_result ch c = Some (e, c')" for ch e c'
    using cl_inv_result [OF assms(1) that] that assms(2) by (auto simp: connect_result_def)
  then show ?thesis
    using assms cl_inv_attempt_failed cl_inv_connect_next
    by (auto simp: loop_result_def split: phase.splits option.splits)
qed

lemma cl_inv_loop_timeout:
  assumes "cl_inv c" and "i < length (cl_loops c)"
  shows "cl_inv (fst (loop_timeout i c))"
  using assms cl_inv_attempt_failed [OF cl_inv_cancelled [OF assms(1)]]
  by (auto simp: loop_timeout_def connect_cancelled_def split: phase.splits)

section \<open>Reachable states\<close>

text \<open>
  The steps of a client after \<open>Dial\<close> has sent its CONNECT: calls of the application, the
  returns of pending \<open>connectNsp\<close> calls, the callbacks of the Engine.IO client, the packet
  processor, handler tasks, and the reconnecting goroutines with every outcome of a dial.
\<close>

inductive cl_step :: "client \<Rightarrow> client_effect list \<Rightarrow> client \<Rightarrow> bool" where
  cs_OnEvent: "cl_step c [] (cl_OnEvent nsp event h c)"
| cs_OnConnect: "cl_step c [] (cl_OnConnect nsp f c)"
| cs_OnDisconnect: "cl_step c [] (cl_OnDisconnect nsp f c)"
| cs_OnConnectError: "cl_step c [] (cl_OnConnectError nsp f c)"
| cs_OnError: "cl_step c [] (cl_OnError nsp f c)"
| cs_Emit: "snd (cl_Emit nsp event args c) = (c', es) \<Longrightarrow> cl_step c es c'"
| cs_EmitWithAck: "at_seq (cl_acks c) < max_int64 \<Longrightarrow> snd (cl_EmitWithAck nsp event cb args c) = (c', es) \<Longrightarrow> cl_step c es c'"
| cs_ConnectNamespace: "ConnectNamespace nsp data c = Inr (ch, c', es) \<Longrightarrow> cl_step c es c'"
| cs_result: "connect_result ch c = Some (e, c') \<Longrightarrow> cl_step c [] c'"
| cs_cancelled: "cl_step c [] (connect_cancelled nsp c)"
| cs_DisconnectNamespace: "DisconnectNamespace nsp c = (c', es) \<Longrightarrow> cl_step c es c'"
| cs_Close: "cl_Close c = (c', es) \<Longrightarrow> cl_step c es c'"
| cs_onData: "cl_step c [] (cl_onData data binary c)"
| cs_process: "\<not> cl_blocked c \<Longrightarrow> cl_processLoop c = (c', es) \<Longrightarrow> cl_step c es c'"
| cs_task: "cl_tasks c = ts1 @ t # ts2 \<Longrightarrow> mset order = mset (ct_handlers t)
    \<Longrightarrow> run_client_task t order (c\<lparr>cl_tasks := ts1 @ ts2\<rparr>) = (c', es) \<Longrightarrow> cl_step c es c'"
| cs_onEngineClosed: "onEngineClosed err c = (c', es) \<Longrightarrow> cl_step c es c'"
| cs_loop_top: "i < length (cl_loops c) \<Longrightarrow> rl_phase (cl_loops c ! i) = AtTop \<Longrightarrow> 0 \<le> r \<Longrightarrow> r < 1
    \<Longrightarrow> loop_top i r c = (c', es) \<Longrightarrow> cl_step c es c'"
| cs_loop_timer: "i < length (cl_loops c) \<Longrightarrow> rl_phase (cl_loops c ! i) = Waiting w \<Longrightarrow> cl_step c [] (loop_timer i c)"
| cs_loop_stop: "i < length (cl_loops c) \<Longrightarrow> rl_phase (cl_loops c ! i) = Waiting w \<Longrightarrow> cl_stop c \<Longrightarrow> cl_step c [] (end_loop i c)"
| cs_loop_dial: "i < length (cl_loops c) \<Longrightarrow> rl_phase (cl_loops c ! i) = Dialing
    \<Longrightarrow> loop_dial i dialed c = (c', es) \<Longrightarrow> cl_step c es c'"
| cs_loop_result: "i < length (cl_loops c) \<Longrightarrow> loop_result i c = (c', es) \<Longrightarrow> cl_step c es c'"
| cs_loop_timeout: "i < length (cl_loops c) \<Longrightarrow> loop_timeout i c = (c', es) \<Longrightarrow> cl_step c es c'"

inductive cl_reach :: "options option \<Rightarrow> client_effect list \<Rightarrow> client \<Rightarrow> bool" for opts where
  init: "Dial opts h (Inr e) = Inr (ch, c, es) \<Longrightarrow> cl_reach opts es c"
| step: "cl_reach opts es c \<Longrightarrow> \<not> cl_crashed c \<Longrightarrow> cl_step c es' c' \<Longrightarrow> cl_reach opts (es @ es') c'"

inductive_cases cl_stepE: "cl_step c es c'"

lemma cl_inv_new: "cl_inv (newClient opts h)"
  by (simp add: cl_inv_def newClient_def conn_ok_def inv_simps)

lemma cl_inv_Dial:
  assumes "Dial opts h (Inr e) = Inr (ch, c, es)"
  shows "cl_inv c"
proof -
  let ?c = "(newClient opts h)\<lparr>cl_engine := Some e, cl_started := True\<rparr>"
  have "cl_inv ?c"
    using cl_inv_new [of opts h] by (simp add: cl_inv_def)
  moreover have "connect_start defaultNamespace (op_Auth (cl_opts ?c)) ?c = (ch, c, es)"
    using assms by (simp add: Dial_def dialEngine_def)
  ultimately show ?thesis
    using cl_inv_connect_start [of ?c] by (metis fst_conv snd_conv)
qed

lemma cl_inv_EmitWithAck:
  assumes "cl_inv c" and "at_seq (cl_acks c) < max_int64"
  shows "cl_inv (fst (snd (cl_EmitWithAck nsp event cb args c)))"
proof -
  obtain i t where n: "ack_next (cl_acks c) = (i, t)"
    by fastforce
  have a: "ack_inv (cl_acks c)"
    using assms(1) by (simp add: cl_inv_def)
  have "ack_inv t"
    using ack_inv_next [OF a assms(2)] n by simp
  moreover have "0 < i" "i \<le> at_seq t"
    using n a assms(2) by (auto simp: ack_next_def inc64_def ack_inv_def)
  ultimately have "cl_inv (c\<lparr>cl_acks := ack_register i (Some f) t\<rparr>)" for f
    using assms(1) by (simp add: cl_inv_def ack_inv_register)
  then show ?thesis
    using assms(1) n cl_inv_send by (simp add: cl_EmitWithAck_def split: option.splits)
qed

lemma cl_step_inv: "cl_step c es c' \<Longrightarrow> cl_inv c \<Longrightarrow> cl_inv c'"
proof (induction rule: cl_step.induct)
  case (cs_Emit nsp event args c c' es)
  then show ?case
    using cl_inv_send [of c "client_packet Event nsp (-1) (VArr (VStr event # args))"]
    by (auto simp: cl_Emit_def split: if_splits)
next
  case (cs_EmitWithAck c nsp event cb args c' es)
  then show ?case
    using cl_inv_EmitWithAck [of c nsp event cb args] by simp
next
  case (cs_ConnectNamespace nsp data c ch c' es)
  then show ?case
    using cl_inv_connect_start [of c nsp data] by (simp add: ConnectNamespace_def split: if_splits)
next
  case (cs_result ch c e c')
  then show ?case
    using cl_inv_result by blast
next
  case (cs_task c ts1 t ts2 order c' es)
  have "cl_inv (c\<lparr>cl_tasks := ts1 @ ts2\<rparr>)"
    using cs_task.prems by (simp add: cl_inv_def)
  with cs_task.hyps show ?case
    using cl_inv_task [of "c\<lparr>cl_tasks := ts1 @ ts2\<rparr>" t order] by simp
next
  case (cs_DisconnectNamespace nsp c c' es)
  then show ?case
    using cl_inv_DisconnectNamespace [of c nsp] by simp
next
  case (cs_Close c c' es)
  then show ?case
    using cl_inv_Close [of c] by simp
next
  case (cs_process c c' es)
  then show ?case
    using cl_inv_processLoop [of c] by simp
next
  case (cs_onEngineClosed err c c' es)
  then show ?case
    using cl_inv_onEngineClosed [of c err] by simp
next
  case (cs_loop_top i c r c' es)
  then show ?case
    using cl_inv_loop_top [of c i r] by simp
next
  case (cs_loop_dial i c dialed c' es)
  then show ?case
    using cl_inv_loop_dial [of c i dialed] by simp
next
  case (cs_loop_result i c c' es)
  then show ?case
    using cl_inv_loop_result [of c i] by simp
next
  case (cs_loop_timeout i c c' es)
  then show ?case
    using cl_inv_loop_timeout [of c i] by simp
qed (simp_all add: cl_inv_registration cl_inv_cancelled cl_inv_loop_timer)

lemma cl_reach_inv: "cl_reach opts es c \<Longrightarrow> cl_inv c"
  by (induction rule: cl_reach.induct) (auto dest: cl_inv_Dial cl_step_inv)

section \<open>Connecting\<close>

text \<open>
  C15. The packet processor of a client never blocks on reporting the outcome of a CONNECT: in
  every reachable state each awaited CONNECT has a channel of its own with a free buffer, and
  its namespace is not connected.\<close>

theorem client_never_blocks:
  assumes "cl_reach opts es c"
  shows "\<not> cl_blocked c
    \<and> (\<forall>nsp ch. map_of (cl_connecting c) nsp = Some ch \<longrightarrow>
         cl_chans c ch = None \<and> \<not> cl_Connected nsp c
         \<and> (\<forall>nsp'. map_of (cl_connecting c) nsp' = Some ch \<longrightarrow> nsp' = nsp))"
proof -
  have inv: "cl_inv c"
    using assms by (rule cl_reach_inv)
  then have ok: "conn_ok (cl_nsps c) (cl_connecting c) (cl_chans c) (cl_nchans c)"
    by (simp add: cl_inv_def)
  have "cl_chans c ch = None \<and> \<not> cl_Connected nsp c
      \<and> (\<forall>nsp'. map_of (cl_connecting c) nsp' = Some ch \<longrightarrow> nsp' = nsp)"
    if "map_of (cl_connecting c) nsp = Some ch" for nsp ch
    using conn_okD(2,4,5) [OF ok that] by (auto simp: cl_Connected_def)
  then show ?thesis
    using inv by (simp add: cl_inv_def)
qed

definition sample_client :: client where
  "sample_client = (case Dial None sample_readers (Inr 1) of Inr (ch, c, es) \<Rightarrow> c | Inl err \<Rightarrow> newClient None sample_readers)"

lemma sample_client_reach: "\<exists>es. cl_reach None es sample_client"
proof -
  obtain ch c es where d: "Dial None sample_readers (Inr 1) = Inr (ch, c, es)"
    by (cases "Dial None sample_readers (Inr 1)") (auto simp: Dial_def dialEngine_def)
  then show ?thesis
    using cl_reach.init [OF d] by (auto simp: sample_client_def)
qed

lemma sample_client_connecting: "map_of (cl_connecting sample_client) ''/'' = Some 0"
proof -
  obtain h es where "connect_start defaultNamespace None ((newClient None sample_readers)\<lparr>cl_engine := Some 1, cl_started := True\<rparr>)
      = (0, (connecting_state defaultNamespace None
          ((newClient None sample_readers)\<lparr>cl_engine := Some 1, cl_started := True\<rparr>))\<lparr>cl_readers := h\<rparr>, es)"
    using connect_start_state [of defaultNamespace None
        "(newClient None sample_readers)\<lparr>cl_engine := Some 1, cl_started := True\<rparr>"]
    by (auto simp: newClient_def)
  then show ?thesis
    by (simp add: sample_client_def Dial_def dialEngine_def newClient_def withDefaults_def zero_options_def
        connecting_state_def defaultNamespace_def)
qed

theorem client_never_blocks_witness:
  "\<not> cl_blocked sample_client \<and> cl_chans sample_client 0 = None"
proof -
  obtain es where r: "cl_reach None es sample_client"
    using sample_client_reach by blast
  show ?thesis
    using client_never_blocks [OF r] sample_client_connecting by auto
qed



section \<open>Losing the session\<close>

lemma reconnect_fields [simp]:
  "cl_nsps (reconnect ns c) = cl_nsps c" "cl_chans (reconnect ns c) = cl_chans c" "cl_engine (reconnect ns c) = cl_engine c"
  "cl_acks (reconnect ns c) = cl_acks c" "cl_connecting (reconnect ns c) = cl_connecting c"
  by (simp_all add: reconnect_def)

lemma session_loss:
  assumes "cl_inv c" and "onEngineClosed err c = (c', es')"
  shows "cl_engine c' = None \<and> at_cbs (cl_acks c') = [] \<and> cl_connecting c' = [] \<and> \<not> cl_Connected nsp c'
    \<and> (map_of (cl_connecting c) nsp = Some ch \<longrightarrow> map_option fst (connect_result ch c') = Some err)"
proof -
  have ok: "conn_ok (cl_nsps c) (cl_connecting c) (cl_chans c) (cl_nchans c)"
    using assms(1) by (simp add: cl_inv_def)
  let ?c = "(disconnect_nsps ((fail_connecting err (map snd (cl_connecting c)) c)\<lparr>cl_connecting := []\<rparr>))
      \<lparr>cl_engine := None, cl_acks := ack_clear (cl_acks c)\<rparr>"
  have c': "c' = (if cl_closed c then id else reconnect (connected_nsps c)) ?c"
    using assms(2) by (simp add: onEngineClosed_state)
  have nsps: "\<not> cl_Connected nsp c'"
    using c' by (auto simp: cl_Connected_def disconnect_nsps_def fail_connecting_state split: option.splits)
  have "cl_chans c' ch = Some err" if "map_of (cl_connecting c) nsp = Some ch"
  proof -
    have "ch \<in> set (map snd (cl_connecting c))"
      using map_of_SomeD [OF that] by force
    then show ?thesis
      using c' conn_okD(2) [OF ok that] by (simp add: disconnect_nsps_def fail_connecting_state)
  qed
  then show ?thesis
    using c' nsps by (simp add: connect_result_def disconnect_nsps_def fail_connecting_state ack_clear_def)
qed

text \<open>
  C13. When the Engine.IO session ends, no namespace stays connected, pending acknowledgements
  are dropped, every awaited CONNECT returns the error of the close, the disconnect handlers
  of the namespaces that were connected run once each with the reason, and a reconnecting
  goroutine for exactly those namespaces starts if reconnection is enabled, the client was not
  closed and there was a connected namespace.\<close>

theorem session_loss_cleans_up:
  assumes "cl_reach opts es c" and "onEngineClosed err c = (c', es')"
  shows "cl_engine c' = None \<and> at_cbs (cl_acks c') = [] \<and> cl_connecting c' = [] \<and> \<not> cl_Connected nsp c'
    \<and> (map_of (cl_connecting c) nsp = Some ch \<longrightarrow> map_option fst (connect_result ch c') = Some err)
    \<and> es' = concat (map (\<lambda>n. map (\<lambda>h. DisconnCall h (mapClientDisconnectReason err)) (handlers_of (cl_onDisconnect c) n))
        (connected_nsps c))
    \<and> map rl_nsps (cl_loops c') = map rl_nsps (cl_loops c)
        @ (if op_Reconnection (cl_opts c) \<and> \<not> cl_closed c \<and> connected_nsps c \<noteq> [] then [connected_nsps c] else [])"
  using session_loss [OF cl_reach_inv [OF assms(1)] assms(2), of nsp ch] assms(2)
  by (auto simp: onEngineClosed_state reconnect_def disconnect_nsps_def fail_connecting_state)

theorem session_loss_cleans_up_witness:
  "\<exists>c' es'. onEngineClosed (Some (ErrorfW ErrHeartbeatTimeout ''ping timeout'')) sample_client = (c', es')
    \<and> map_option fst (connect_result 0 c') = Some (Some (ErrorfW ErrHeartbeatTimeout ''ping timeout''))"
proof -
  obtain es where r: "cl_reach None es sample_client"
    using sample_client_reach by blast
  obtain c' es' where d: "onEngineClosed (Some (ErrorfW ErrHeartbeatTimeout ''ping timeout'')) sample_client = (c', es')"
    by fastforce
  show ?thesis
    using session_loss_cleans_up [OF r d, of "''/''" 0] sample_client_connecting d by auto
qed

text \<open>
  C39. A session that the server closes in an orderly way (the error is nil then) while
  \<^verbatim>\<open>Dial\<close> waits for its CONNECT makes \<^verbatim>\<open>Dial\<close> return success: the caller gets a client that
  is not connected and has no session.\<close>

theorem dial_succeeds_on_orderly_close:
  assumes "Dial opts h (Inr e) = Inr (ch, c, es)" and "onEngineClosed None c = (c1, es1)"
  shows "\<exists>res c2. connect_result ch c1 = Some (res, c2) \<and> Dial_return res c2 = (None, c2, [])
    \<and> \<not> cl_Connected ''/'' c2 \<and> cl_engine c2 = None"
proof -
  have "map_of (cl_connecting c) ''/'' = Some ch"
    using assms(1) connect_start_state [of defaultNamespace "op_Auth (cl_opts (newClient opts h))"
        "(newClient opts h)\<lparr>cl_engine := Some e, cl_started := True\<rparr>"]
    by (auto simp: Dial_def dialEngine_def newClient_def connecting_state_def defaultNamespace_def)
  with session_loss [OF cl_inv_Dial [OF assms(1)] assms(2), of "''/''" ch]
  have "cl_chans c1 ch = Some None" "\<not> cl_Connected ''/'' c1" "cl_engine c1 = None"
    by (auto simp: connect_result_def)
  then show ?thesis
    by (simp add: connect_result_def Dial_return_def cl_Connected_def)
qed

theorem dial_succeeds_on_orderly_close_witness:
  "\<exists>c c1 c2 ch es es1. Dial None sample_readers (Inr 1) = Inr (ch, c, es) \<and> onEngineClosed None c = (c1, es1)
    \<and> connect_result ch c1 = Some (None, c2) \<and> \<not> cl_Connected ''/'' c2"
proof -
  obtain ch c es where d: "Dial None sample_readers (Inr 1) = Inr (ch, c, es)"
    by (cases "Dial None sample_readers (Inr 1)") (auto simp: Dial_def dialEngine_def)
  obtain c1 es1 where l: "onEngineClosed None c = (c1, es1)"
    by fastforce
  from dial_succeeds_on_orderly_close [OF d l] obtain res c2
    where "connect_result ch c1 = Some (res, c2)" "Dial_return res c2 = (None, c2, [])" "\<not> cl_Connected ''/'' c2"
    by blast
  then show ?thesis
    using d l by (cases res) (auto simp: Dial_return_def)
qed

section \<open>Reconnecting\<close>

lemma double64_exact: "0 \<le> d \<Longrightarrow> d \<le> 4611686018427387903 \<Longrightarrow> double64 d = 2 * d"
  by (simp add: double64_def min_int64_def)

lemma next_delay_iterated:
  assumes "0 < d" and "d \<le> m" and "m = op_ReconnectionDelayMax o1" and "m \<le> 4611686018427387903"
  shows "(next_delay o1 ^^ k) d = min m (d * 2 ^ k)"
proof (induction k)
  case (Suc k)
  have "0 \<le> min m (d * 2 ^ k)" "min m (d * 2 ^ k) \<le> 4611686018427387903"
    using assms by simp_all
  then show ?case
    using assms Suc by (auto simp: next_delay_def double64_exact min_def)
qed (use assms in simp)

lemma trunc_mono: "0 \<le> a \<Longrightarrow> a \<le> b \<Longrightarrow> trunc_rat a \<le> trunc_rat b"
  by (simp add: trunc_rat_def floor_mono)



text \<open>
  In every reachable state a reconnecting goroutine has made at most the configured number
  of attempts, when one is configured, and does not wait longer than the maximal delay.\<close>

lemma reconnect_attempts_bounded:
  assumes "cl_reach opts es c" and "l \<in> set (cl_loops c)"
  shows "0 \<le> rl_attempt l
    \<and> (0 < op_ReconnectionAttempts (cl_opts c) \<longrightarrow> rl_attempt l \<le> op_ReconnectionAttempts (cl_opts c))
    \<and> (\<forall>w. rl_phase l = Waiting w \<longrightarrow> w \<le> op_ReconnectionDelayMax (cl_opts c))"
  using cl_reach_inv [OF assms(1)] assms(2) by (simp add: cl_inv_def loop_ok_def)

text \<open>
  A run of a client with two namespaces and one reconnection attempt: both connect, the
  session is lost, the attempt dials again and reconnects the root namespace, and the CONNECT
  of the other one times out.
\<close>

definition sample_options :: options where
  "sample_options = zero_options\<lparr>op_Reconnection := True, op_ReconnectionAttempts := 1\<rparr>"

definition answer :: "string \<Rightarrow> client \<Rightarrow> client" where
  "answer data c = fst (cl_processLoop (cl_onData data False c))"

definition dialed_client :: client where
  "dialed_client =
     (case Dial (Some sample_options) sample_readers (Inr 1) of
        Inr (ch, c, es) \<Rightarrow> c | Inl err \<Rightarrow> newClient None sample_readers)"

definition chat_client :: client where
  "chat_client =
     (case ConnectNamespace ''/chat'' None (answer ''0'' dialed_client) of
        Inr (ch, c, es) \<Rightarrow> c | Inl err \<Rightarrow> dialed_client)"

definition lost_client :: client where
  "lost_client = fst (onEngineClosed (Some ErrHeartbeatTimeout) (answer ''0/chat,'' chat_client))"

definition waiting_client :: client where
  "waiting_client = fst (loop_top 0 0 lost_client)"

definition redialed_client :: client where
  "redialed_client = fst (loop_dial 0 (Inr 2) (loop_timer 0 waiting_client))"

definition half_client :: client where
  "half_client = fst (loop_result 0 (answer ''0'' redialed_client))"

definition failed_client :: client where
  "failed_client = fst (loop_timeout 0 half_client)"

definition ended_client :: client where
  "ended_client = fst (loop_top 0 0 failed_client)"

lemma reach_step:
  assumes "\<exists>es. cl_reach opts es c" and "\<not> cl_crashed c" and "cl_step c es' c'"
  shows "\<exists>es. cl_reach opts es c'"
  using assms cl_reach.step by blast

lemma reach_answer:
  assumes "\<exists>es. cl_reach opts es c" and "\<not> cl_crashed c"
  shows "\<exists>es. cl_reach opts es (answer data c)"
proof -
  have d: "\<exists>es. cl_reach opts es (cl_onData data False c)"
    by (rule reach_step [OF assms]) (rule cs_onData)
  then have b: "\<not> cl_blocked (cl_onData data False c)"
    using cl_reach_inv by (auto simp: cl_inv_def)
  have "\<not> cl_crashed (cl_onData data False c)"
    using assms(2) by (simp add: cl_onData_def)
  then show ?thesis
    unfolding answer_def by (rule reach_step [OF d _ cs_process [OF b]]) (rule prod.collapse [symmetric])
qed

lemma lost_client_reach: "\<exists>es. cl_reach (Some sample_options) es lost_client"
proof -
  obtain ch c es where d: "Dial (Some sample_options) sample_readers (Inr 1) = Inr (ch, c, es)"
    by (cases "Dial (Some sample_options) sample_readers (Inr 1)") (auto simp: Dial_def dialEngine_def)
  then have "\<exists>es. cl_reach (Some sample_options) es dialed_client"
    using cl_reach.init [OF d] by (auto simp: dialed_client_def)
  moreover have "\<not> cl_crashed dialed_client"
    by code_simp
  ultimately have 1: "\<exists>es. cl_reach (Some sample_options) es (answer ''0'' dialed_client)"
    by (rule reach_answer)
  have c1: "\<not> cl_crashed (answer ''0'' dialed_client)"
    by code_simp
  obtain ch1 es1 where "ConnectNamespace ''/chat'' None (answer ''0'' dialed_client) = Inr (ch1, chat_client, es1)"
    by (cases "ConnectNamespace ''/chat'' None (answer ''0'' dialed_client)")
      (auto simp: chat_client_def ConnectNamespace_def defaultNamespace_def)
  from reach_step [OF 1 c1 cs_ConnectNamespace [OF this]]
  have 2: "\<exists>es. cl_reach (Some sample_options) es chat_client" .
  have "\<not> cl_crashed chat_client"
    by code_simp
  from reach_answer [OF 2 this] have 3: "\<exists>es. cl_reach (Some sample_options) es (answer ''0/chat,'' chat_client)" .
  have "\<not> cl_crashed (answer ''0/chat,'' chat_client)"
    by code_simp
  then show ?thesis
    unfolding lost_client_def
    by (rule reach_step [OF 3 _ cs_onEngineClosed]) (rule prod.collapse [symmetric])
qed

lemma waiting_client_reach: "\<exists>es. cl_reach (Some sample_options) es waiting_client"
proof -
  have "\<not> cl_crashed lost_client" and l: "0 < length (cl_loops lost_client)" "rl_phase (cl_loops lost_client ! 0) = AtTop"
    by code_simp+
  then show ?thesis
    unfolding waiting_client_def
    by - (rule reach_step [OF lost_client_reach _ cs_loop_top [OF l, of 0]], simp, simp, simp, rule prod.collapse [symmetric])
qed

text \<open>A round of the loop whose dial fails.\<close>

definition failing_attempt :: "go_error \<Rightarrow> rat \<Rightarrow> client \<Rightarrow> client" where
  "failing_attempt err r c = fst (loop_dial 0 (Inl err) (loop_timer 0 (fst (loop_top 0 r c))))"

primrec failing_attempts :: "(nat \<Rightarrow> go_error) \<Rightarrow> (nat \<Rightarrow> rat) \<Rightarrow> nat \<Rightarrow> client \<Rightarrow> client" where
  "failing_attempts errs rs 0 c = c"
| "failing_attempts errs rs (Suc k) c = failing_attempt (errs k) (rs k) (failing_attempts errs rs k c)"

lemma failing_attempts_state:
  assumes "cl_loops c = [l]" and "rl_attempt l = 0" and "rl_phase l = AtTop" and "\<not> cl_stop c"
    and "op_ReconnectionAttempts (cl_opts c) = int n" and "k \<le> n" and "c' = failing_attempts errs rs k c"
  shows "(\<exists>l'. cl_loops c' = [l'] \<and> rl_attempt l' = int k \<and> rl_nsps l' = rl_nsps l)
    \<and> \<not> cl_stop c' \<and> cl_opts c' = cl_opts c \<and> cl_onConnectError c' = cl_onConnectError c"
  using assms(6,7)
proof (induction k arbitrary: c')
  case (Suc k)
  let ?c = "failing_attempts errs rs k c"
  obtain l' where "cl_loops ?c = [l']" "rl_attempt l' = int k" "rl_nsps l' = rl_nsps l" "\<not> cl_stop ?c"
    "cl_opts ?c = cl_opts c" "cl_onConnectError ?c = cl_onConnectError c"
    using Suc.IH [of ?c] Suc.prems(1) by auto
  then show ?case
    using Suc.prems assms(5)
    by (simp add: failing_attempt_def loop_top_def loop_timer_def loop_dial_def dialEngine_def attempt_failed_def
        set_loop_def Let_def)
qed (use assms in simp)

text \<open>
  C27. With a limit of \<open>n > 0\<close> attempts a reconnecting goroutine ends after exactly \<open>n\<close> failed
  dials: it is still running before that, and then it gives up, which closes the client and
  reports an error to the connect-error handlers of each of its namespaces.\<close>

theorem reconnecting_terminates:
  assumes "cl_loops c = [l]" and "rl_attempt l = 0" and "rl_phase l = AtTop" and "\<not> cl_stop c"
    and "op_ReconnectionAttempts (cl_opts c) = int n" and "0 < n"
  shows "(\<forall>k<n. cl_loops (fst (loop_top 0 (rs k) (failing_attempts errs rs k c))) \<noteq> [])
    \<and> (\<exists>c' es. loop_top 0 r (failing_attempts errs rs n c) = (c', es) \<and> cl_loops c' = [] \<and> cl_closed c' \<and> cl_stop c'
        \<and> es = concat (map (\<lambda>nsp. map (\<lambda>h. ConnErrCall h (ErrorsNew ''socketio: reconnection failed after maximum attempts''))
              (handlers_of (cl_onConnectError c) nsp)) (rl_nsps l)))"
proof -
  have "cl_loops (fst (loop_top 0 (rs k) (failing_attempts errs rs k c))) \<noteq> []" if k: "k < n" for k
  proof -
    obtain l' where "cl_loops (failing_attempts errs rs k c) = [l']" "rl_attempt l' = int k"
      "\<not> cl_stop (failing_attempts errs rs k c)" "cl_opts (failing_attempts errs rs k c) = cl_opts c"
      using failing_attempts_state [OF assms(1-5) less_imp_le [OF k] refl, of errs rs] by blast
    then show ?thesis
      using k assms(5) by (simp add: loop_top_def set_loop_def Let_def)
  qed
  moreover obtain l' where "cl_loops (failing_attempts errs rs n c) = [l']" "rl_attempt l' = int n" "rl_nsps l' = rl_nsps l"
    "\<not> cl_stop (failing_attempts errs rs n c)" "cl_opts (failing_attempts errs rs n c) = cl_opts c"
    "cl_onConnectError (failing_attempts errs rs n c) = cl_onConnectError c"
    using failing_attempts_state [OF assms(1-5) order_refl refl, of errs rs] by blast
  then have "\<exists>c' es. loop_top 0 r (failing_attempts errs rs n c) = (c', es) \<and> cl_loops c' = [] \<and> cl_closed c' \<and> cl_stop c'
        \<and> es = concat (map (\<lambda>nsp. map (\<lambda>h. ConnErrCall h (ErrorsNew ''socketio: reconnection failed after maximum attempts''))
              (handlers_of (cl_onConnectError c) nsp)) (rl_nsps l))"
    using assms(5,6) by (simp add: loop_top_def Let_def giveUp_state end_loop_def)
  ultimately show ?thesis
    by blast
qed

theorem reconnecting_terminates_witness:
  "\<exists>c' es. loop_top 0 0 (failing_attempts (\<lambda>_. ErrPollClosed) (\<lambda>_. 0) 1 lost_client) = (c', es) \<and> cl_closed c'"
proof -
  have len: "map rl_attempt (cl_loops lost_client) = [0]" and ph: "map rl_phase (cl_loops lost_client) = [AtTop]"
    and st: "\<not> cl_stop lost_client" and at: "op_ReconnectionAttempts (cl_opts lost_client) = int 1"
    by code_simp+
  obtain l where l: "cl_loops lost_client = [l]" "rl_attempt l = 0" "rl_phase l = AtTop"
    using len ph by auto
  show ?thesis
    using reconnecting_terminates [OF l st at zero_less_one, of "\<lambda>_. 0" "\<lambda>_. ErrPollClosed" 0] by blast
qed

text \<open>
  C40. Giving up leaves a namespace connected that the last attempt had reconnected: the client
  is closed and has no session, but \<^verbatim>\<open>Connected\<close> reports true and \<^verbatim>\<open>Emit\<close> returns nil without
  sending anything. The state is reached by a client whose only attempt reconnects the root
  namespace and not the other one.\<close>

theorem give_up_leaves_connected:
  "\<exists>es. cl_reach (Some sample_options) es ended_client \<and> cl_closed ended_client \<and> cl_engine ended_client = None
    \<and> cl_loops ended_client = [] \<and> cl_Connected ''/'' ended_client
    \<and> cl_Emit ''/'' event args ended_client = (None, ended_client, [])"
proof -
  let ?reach = "\<lambda>c. \<exists>es. cl_reach (Some sample_options) es c"
  have w: "\<not> cl_crashed waiting_client" "0 < length (cl_loops waiting_client)"
    "rl_phase (cl_loops waiting_client ! 0) = Waiting 500000000"
    by code_simp+
  from reach_step [OF waiting_client_reach w(1) cs_loop_timer [OF w(2,3)]]
  have t: "?reach (loop_timer 0 waiting_client)" .
  have d: "\<not> cl_crashed (loop_timer 0 waiting_client)" "0 < length (cl_loops (loop_timer 0 waiting_client))"
    "rl_phase (cl_loops (loop_timer 0 waiting_client) ! 0) = Dialing"
    by code_simp+
  have r: "?reach redialed_client"
    unfolding redialed_client_def
    by (rule reach_step [OF t d(1) cs_loop_dial [OF d(2,3)]]) (rule prod.collapse [symmetric])
  have c: "\<not> cl_crashed redialed_client" "\<not> cl_crashed (answer ''0'' redialed_client)"
    "0 < length (cl_loops (answer ''0'' redialed_client))" "\<not> cl_crashed half_client" "0 < length (cl_loops half_client)"
    "\<not> cl_crashed failed_client" "0 < length (cl_loops failed_client)" "rl_phase (cl_loops failed_client ! 0) = AtTop"
    by code_simp+
  have h: "?reach half_client"
    unfolding half_client_def
    by (rule reach_step [OF reach_answer [OF r c(1)] c(2) cs_loop_result [OF c(3)]]) (rule prod.collapse [symmetric])
  have f: "?reach failed_client"
    unfolding failed_client_def
    by (rule reach_step [OF h c(4) cs_loop_timeout [OF c(5)]]) (rule prod.collapse [symmetric])
  have e: "?reach ended_client"
    unfolding ended_client_def
    by (rule reach_step [OF f c(6) cs_loop_top [OF c(7,8), of 0]]) (simp, simp, rule prod.collapse [symmetric])
  have "cl_closed ended_client" "cl_engine ended_client = None" "cl_loops ended_client = []" "cl_Connected ''/'' ended_client"
    by code_simp+
  with e show ?thesis
    by (auto simp: cl_Emit_def cl_sendPacket_def)
qed

end
