(* ===== verification/EioPacket.thy ===== *)
theory EioPacket
  imports Prelude Base64 Errors
begin

text \<open>
  The Engine.IO packet and polling payload codec of
  \<^verbatim>\<open>src/engineio/transport/packet.go\<close>: packet types, single packets in their text
  and binary forms, and payloads of packets joined by the record separator, with the
  size limit of \<^verbatim>\<open>DecodePayloadWithLimit\<close>.
\<close>

section \<open>Packets\<close>

datatype Type = Open | Close | Ping | Pong | Message | Upgrade | Noop

fun type_byte :: "Type \<Rightarrow> char" where
  "type_byte Open = CHR ''0''"
| "type_byte Close = CHR ''1''"
| "type_byte Ping = CHR ''2''"
| "type_byte Pong = CHR ''3''"
| "type_byte Message = CHR ''4''"
| "type_byte Upgrade = CHR ''5''"
| "type_byte Noop = CHR ''6''"

text \<open>
  The conversion \<^verbatim>\<open>Type(c)\<close> together with the range test \<^verbatim>\<open>t < Open || t > Noop\<close>:
  \<open>None\<close> is a byte outside the range.
\<close>

definition type_of_byte :: "char \<Rightarrow> Type option" where
  "type_of_byte c =
     (if c = CHR ''0'' then Some Open
      else if c = CHR ''1'' then Some Close
      else if c = CHR ''2'' then Some Ping
      else if c = CHR ''3'' then Some Pong
      else if c = CHR ''4'' then Some Message
      else if c = CHR ''5'' then Some Upgrade
      else if c = CHR ''6'' then Some Noop
      else None)"

fun Type_String :: "Type \<Rightarrow> string" where
  "Type_String Open = ''open''"
| "Type_String Close = ''close''"
| "Type_String Ping = ''ping''"
| "Type_String Pong = ''pong''"
| "Type_String Message = ''message''"
| "Type_String Upgrade = ''upgrade''"
| "Type_String Noop = ''noop''"

record Packet =
  pkt_Type :: Type
  pkt_Data :: bytes
  pkt_IsBinary :: bool

abbreviation text_packet :: "Type \<Rightarrow> bytes \<Rightarrow> Packet" where
  "text_packet t d \<equiv> \<lparr>pkt_Type = t, pkt_Data = d, pkt_IsBinary = False\<rparr>"

abbreviation binary_packet :: "bytes \<Rightarrow> Packet" where
  "binary_packet d \<equiv> \<lparr>pkt_Type = Message, pkt_Data = d, pkt_IsBinary = True\<rparr>"

section \<open>Single packets\<close>

definition EncodePacket :: "Packet \<Rightarrow> bool \<Rightarrow> bytes" where
  "EncodePacket p supportsBinary =
     (if pkt_IsBinary p then
        (if supportsBinary then pkt_Data p else CHR ''b'' # b64_encode (pkt_Data p))
      else type_byte (pkt_Type p) # pkt_Data p)"

definition DecodePacket :: "bytes \<Rightarrow> bool \<Rightarrow> go_error + Packet" where
  "DecodePacket b isBinary =
     (if isBinary then Inr (binary_packet b)
      else
        (case b of
           [] \<Rightarrow> Inl ErrInvalidPacket
         | c # rest \<Rightarrow>
             if c = CHR ''b'' then
               (case b64_decode rest of
                  None \<Rightarrow> Inl (ErrorfW ErrInvalidPacket ''illegal base64 data'')
                | Some d \<Rightarrow> Inr (binary_packet d))
             else
               (case type_of_byte c of
                  None \<Rightarrow> Inl (ErrorfW ErrInvalidPacket ''unknown type'')
                | Some t \<Rightarrow> Inr (text_packet t rest))))"

section \<open>Payloads\<close>

definition separator :: char where
  "separator = CHR 0x1E"

definition EncodePayload :: "Packet list \<Rightarrow> bytes" where
  "EncodePayload pkts = join_with separator (map (\<lambda>p. EncodePacket p False) pkts)"

text \<open>
  The loop of \<^verbatim>\<open>DecodePayloadWithLimit\<close> over the parts of the payload. The state is
  the byte count \<open>decoded\<close> and the packets \<open>out\<close> so far; the result is the returned
  slice, the returned error, and the number of tail packets dropped with a warning. The
  byte count never exceeds the length of the payload, so the \<^verbatim>\<open>int64\<close> sum of the
  source does not wrap around.
\<close>

fun decode_parts ::
  "int \<Rightarrow> bytes list \<Rightarrow> int \<Rightarrow> Packet list \<Rightarrow> Packet list \<times> go_error option \<times> nat" where
  "decode_parts maxPayload [] decoded out = (out, None, 0)"
| "decode_parts maxPayload (part # parts) decoded out =
     (let size = int (length part) in
      if 0 < maxPayload \<and> maxPayload < size then
        (out, Some (ErrorfW ErrPayloadTooLarge ''packet exceeds maxPayload''), 0)
      else if 0 < maxPayload \<and> maxPayload < decoded + size then
        (out, None, Suc (length parts))
      else
        (case DecodePacket part False of
           Inl err \<Rightarrow> (out, Some (ErrorfW ErrInvalidPayload (error_text err)), 0)
         | Inr p \<Rightarrow>
             decode_parts maxPayload parts
               (if 0 < maxPayload then decoded + size else decoded) (out @ [p])))"

definition DecodePayloadWithLimit ::
  "bytes \<Rightarrow> int \<Rightarrow> Packet list \<times> go_error option \<times> nat" where
  "DecodePayloadWithLimit b maxPayload =
     (if b = [] then ([], None, 0)
      else decode_parts maxPayload (split_on separator b) 0 [])"

definition DecodePayload :: "bytes \<Rightarrow> Packet list \<times> go_error option \<times> nat" where
  "DecodePayload b = DecodePayloadWithLimit b 0"

section \<open>Well-formed packets and the packet round trip\<close>

text \<open>
  A packet is well formed when a binary packet is a message: the wire carries no type
  for binary data.
\<close>

definition wf_packet :: "Packet \<Rightarrow> bool" where
  "wf_packet p \<longleftrightarrow> (pkt_IsBinary p \<longrightarrow> pkt_Type p = Message)"

lemma type_of_byte_type_byte [simp]: "type_of_byte (type_byte t) = Some t"
  by (cases t) (simp_all add: type_of_byte_def)

lemma type_byte_not_b [simp]: "type_byte t \<noteq> CHR ''b''"
  by (cases t) simp_all

lemma type_byte_type_of_byte: "type_of_byte c = Some t \<Longrightarrow> type_byte t = c"
  by (auto simp: type_of_byte_def split: if_splits)

lemma separator_not_type_byte [simp]: "type_byte t \<noteq> separator" "separator \<noteq> type_byte t"
  by (cases t; simp add: separator_def)+

lemma decode_encode_packet:
  "wf_packet p \<Longrightarrow> DecodePacket (EncodePacket p False) False = Inr p"
  by (auto simp: wf_packet_def DecodePacket_def EncodePacket_def)

lemma decode_encode_frame:
  "wf_packet p \<Longrightarrow> DecodePacket (EncodePacket p True) (pkt_IsBinary p) = Inr p"
  by (auto simp: wf_packet_def DecodePacket_def EncodePacket_def)

lemma DecodePacket_wf: "DecodePacket b isB = Inr p \<Longrightarrow> wf_packet p"
  by (auto simp: DecodePacket_def wf_packet_def split: list.splits if_splits option.splits)

lemma DecodePacket_error_Is:
  "DecodePacket b isB = Inl e \<Longrightarrow> errors_Is e ErrInvalidPacket"
  by (auto simp: DecodePacket_def split: list.splits if_splits option.splits)

lemma EncodePacket_nonempty [simp]: "EncodePacket p False \<noteq> []"
  by (simp add: EncodePacket_def)

lemma EncodePacket_no_separator:
  assumes "pkt_IsBinary p \<or> separator \<notin> set (pkt_Data p)"
  shows "separator \<notin> set (EncodePacket p False)"
proof (cases "pkt_IsBinary p")
  case True
  have "separator \<notin> set (b64_encode (pkt_Data p))"
    using b64_encode_gt_32 [of separator "pkt_Data p"] by (auto simp: separator_def)
  then show ?thesis
    using True by (simp add: EncodePacket_def separator_def)
next
  case False
  then show ?thesis
    using assms by (simp add: EncodePacket_def)
qed

section \<open>The payload round trip\<close>

lemma decode_parts_unlimited_encode:
  "\<forall>p\<in>set pkts. wf_packet p \<Longrightarrow>
   decode_parts 0 (map (\<lambda>p. EncodePacket p False) pkts) d out = (out @ pkts, None, 0)"
  by (induction pkts arbitrary: out) (auto simp: decode_encode_packet)

text \<open>A packet that a payload can carry: no record separator in its text.\<close>

definition payload_safe :: "Packet \<Rightarrow> bool" where
  "payload_safe p \<longleftrightarrow> wf_packet p \<and> (pkt_IsBinary p \<or> separator \<notin> set (pkt_Data p))"

lemma split_EncodePayload:
  assumes "pkts \<noteq> []" and "\<forall>p\<in>set pkts. payload_safe p"
  shows "split_on separator (EncodePayload pkts) = map (\<lambda>p. EncodePacket p False) pkts"
proof -
  have "separator \<notin> set (EncodePacket p False)" if "p \<in> set pkts" for p
    using assms(2) that by (intro EncodePacket_no_separator) (auto simp: payload_safe_def)
  then show ?thesis
    using assms(1) unfolding EncodePayload_def by (intro split_on_join_with) auto
qed

lemma EncodePayload_nonempty: "pkts \<noteq> [] \<Longrightarrow> EncodePayload pkts \<noteq> []"
  by (cases pkts; cases "tl pkts") (auto simp: EncodePayload_def)

section \<open>The size limit\<close>

abbreviation parts_size :: "bytes list \<Rightarrow> int" where
  "parts_size ps \<equiv> (\<Sum>p\<leftarrow>ps. int (length p))"

lemma parts_size_nonneg [simp]: "0 \<le> parts_size ps"
  by (induction ps) auto

lemma decode_parts_ok:
  assumes "decode_parts m parts d out = (out', None, dropped)" and "0 < m" and "d \<le> m"
  shows "\<exists>ps. out' = out @ ps \<and> length parts = length ps + dropped
    \<and> map Inr ps = map (\<lambda>b. DecodePacket b False) (take (length ps) parts)
    \<and> d + parts_size (take (length ps) parts) \<le> m
    \<and> (0 < dropped \<longrightarrow> m < d + parts_size (take (Suc (length ps)) parts)
         \<and> int (length (parts ! length ps)) \<le> m)"
  using assms
proof (induction m parts d out rule: decode_parts.induct)
  case (1 m d out)
  then show ?case by simp
next
  case (2 m part parts d out)
  show ?case
  proof (cases "m < int (length part) \<or> m < d + int (length part)")
    case True
    then have "out' = out" "dropped = Suc (length parts)"
      "m < d + int (length part)" "int (length part) \<le> m"
      using "2.prems" by (auto simp: Let_def split: if_splits)
    then show ?thesis
      using "2.prems" by (intro exI [of _ "[]"]) auto
  next
    case False
    then obtain p where p: "DecodePacket part False = Inr p"
      and step: "decode_parts m parts (d + int (length part)) (out @ [p]) = (out', None, dropped)"
      using "2.prems" by (auto simp: Let_def split: if_splits sum.splits)
    have ih: "\<exists>ps. out' = (out @ [p]) @ ps \<and> length parts = length ps + dropped
      \<and> map Inr ps = map (\<lambda>b. DecodePacket b False) (take (length ps) parts)
      \<and> d + int (length part) + parts_size (take (length ps) parts) \<le> m
      \<and> (0 < dropped \<longrightarrow> m < d + int (length part) + parts_size (take (Suc (length ps)) parts)
           \<and> int (length (parts ! length ps)) \<le> m)"
      using "2.IH" [OF refl _ _ p] step False "2.prems" by simp
    then obtain ps where ps: "out' = (out @ [p]) @ ps" "length parts = length ps + dropped"
      "map Inr ps = map (\<lambda>b. DecodePacket b False) (take (length ps) parts)"
      "d + int (length part) + parts_size (take (length ps) parts) \<le> m"
      "0 < dropped \<longrightarrow> m < d + int (length part) + parts_size (take (Suc (length ps)) parts)
           \<and> int (length (parts ! length ps)) \<le> m"
      by blast
    show ?thesis
      by (rule exI [of _ "p # ps"]) (use ps p in \<open>simp add: add.assoc\<close>)
  qed
qed

lemma decode_parts_err:
  assumes "decode_parts m parts d out = (out', Some err, dropped)" and "d \<le> m \<or> m \<le> 0"
  shows "\<exists>ps. out' = out @ ps \<and> length ps < length parts \<and> dropped = 0
    \<and> map Inr ps = map (\<lambda>b. DecodePacket b False) (take (length ps) parts)
    \<and> (errors_Is err ErrPayloadTooLarge \<and> 0 < m \<and> m < int (length (parts ! length ps))
       \<or> errors_Is err ErrInvalidPayload
         \<and> (\<exists>e. DecodePacket (parts ! length ps) False = Inl e))"
  using assms
proof (induction m parts d out rule: decode_parts.induct)
  case (1 m d out)
  then show ?case by simp
next
  case (2 m part parts d out)
  let ?over = "0 < m \<and> (m < int (length part) \<or> m < d + int (length part))"
  show ?case
  proof (cases "?over \<or> (\<exists>e. DecodePacket part False = Inl e)")
    case True
    then have "out' = out" "dropped = 0"
      "errors_Is err ErrPayloadTooLarge \<and> 0 < m \<and> m < int (length part)
       \<or> errors_Is err ErrInvalidPayload \<and> (\<exists>e. DecodePacket part False = Inl e)"
      using "2.prems" by (auto simp: Let_def split: if_splits sum.splits)
    then show ?thesis
      by (intro exI [of _ "[]"]) simp
  next
    case False
    let ?d = "if 0 < m then d + int (length part) else d"
    obtain p where p: "DecodePacket part False = Inr p"
      using False by (cases "DecodePacket part False") auto
    have step: "decode_parts m parts ?d (out @ [p]) = (out', Some err, dropped)"
      using False "2.prems" p by (auto simp: Let_def)
    have "?d \<le> m \<or> m \<le> 0"
      using False by auto
    then have "\<exists>ps. out' = (out @ [p]) @ ps \<and> length ps < length parts \<and> dropped = 0
      \<and> map Inr ps = map (\<lambda>b. DecodePacket b False) (take (length ps) parts)
      \<and> (errors_Is err ErrPayloadTooLarge \<and> 0 < m \<and> m < int (length (parts ! length ps))
         \<or> errors_Is err ErrInvalidPayload
           \<and> (\<exists>e. DecodePacket (parts ! length ps) False = Inl e))"
      using "2.IH" [OF refl _ _ p] step False by auto
    then obtain ps where ps: "out' = (out @ [p]) @ ps" "length ps < length parts" "dropped = 0"
      "map Inr ps = map (\<lambda>b. DecodePacket b False) (take (length ps) parts)"
      "errors_Is err ErrPayloadTooLarge \<and> 0 < m \<and> m < int (length (parts ! length ps))
         \<or> errors_Is err ErrInvalidPayload
           \<and> (\<exists>e. DecodePacket (parts ! length ps) False = Inl e)"
      by blast
    show ?thesis
      by (rule exI [of _ "p # ps"]) (use ps p in simp)
  qed
qed

lemma decode_parts_within_limit:
  "d + parts_size parts \<le> m \<Longrightarrow> 0 \<le> d \<Longrightarrow>
   decode_parts m parts d out = decode_parts 0 parts d' out"
proof (induction m parts d out arbitrary: d' rule: decode_parts.induct)
  case (1 m d out)
  then show ?case by simp
next
  case (2 m part parts d out)
  have "int (length part) \<le> m" "d + int (length part) \<le> m"
    using "2.prems" parts_size_nonneg [of parts] unfolding list.map sum_list.Cons by linarith+
  then show ?case
    using "2.IH" [OF refl] "2.prems" by (auto simp: Let_def split: sum.splits)
qed

lemma parts_size_split_on: "parts_size (split_on s b) \<le> int (length b)"
proof -
  have "parts_size ps = int (\<Sum>p\<leftarrow>ps. length p)" for ps :: "bytes list"
    by (induction ps) auto
  moreover have "(\<Sum>p\<leftarrow>split_on s b. length p) \<le> length b"
    using length_split_on_parts [of s b] by linarith
  ultimately show ?thesis by simp
qed

section \<open>Properties\<close>

text \<open>
  Encoding a well-formed packet for a text transport (binary data in base64 behind
  the letter b) and decoding the result as text gives the packet back, and so does
  encoding it for a websocket frame and decoding the frame with its frame kind.
\<close>

lemma packet_roundtrip:
  assumes "wf_packet p"
  shows "DecodePacket (EncodePacket p False) False = Inr p
    \<and> DecodePacket (EncodePacket p True) (pkt_IsBinary p) = Inr p"
  using assms by (simp add: decode_encode_packet decode_encode_frame)

lemma DecodePayload_EncodePayload:
  assumes "\<forall>p\<in>set pkts. payload_safe p"
  shows "DecodePayload (EncodePayload pkts) = (pkts, None, 0)"
proof (cases "pkts = []")
  case True
  then show ?thesis
    by (simp add: EncodePayload_def DecodePayload_def DecodePayloadWithLimit_def)
next
  case False
  have "\<forall>p\<in>set pkts. wf_packet p"
    using assms by (simp add: payload_safe_def)
  then show ?thesis
    using False assms
    by (simp add: DecodePayload_def DecodePayloadWithLimit_def split_EncodePayload
        EncodePayload_nonempty decode_parts_unlimited_encode)
qed

text \<open>
  C18. Decoding an encoded polling payload gives the packets back, in order and
  without an error, for every list of packets whose text data holds no record separator.
\<close>

theorem payload_roundtrip:
  assumes "\<forall>p\<in>set pkts. payload_safe p"
  shows "DecodePayload (EncodePayload pkts) = (pkts, None, 0)"
  by (rule DecodePayload_EncodePayload [OF assms])

theorem payload_roundtrip_witness:
  "DecodePayload (EncodePayload [text_packet Message ''a'', binary_packet [separator]])
   = ([text_packet Message ''a'', binary_packet [separator]], None, 0)"
proof -
  have "\<forall>p\<in>set [text_packet Message ''a'', binary_packet [separator]]. payload_safe p"
    by (simp add: payload_safe_def wf_packet_def separator_def)
  from payload_roundtrip [OF this] show ?thesis .
qed



text \<open>
  When decoding fails, the packets returned with the error are the decodings of
  the parts before the offending one, and the error names the cause: too large exactly for
  a part that alone exceeds a positive limit, invalid payload for a part that is no packet.
\<close>

lemma decode_limit_error_cause:
  assumes "DecodePayloadWithLimit b m = (out, Some err, dropped)"
  shows "length out < length (split_on separator b)
    \<and> map Inr out = map (\<lambda>part. DecodePacket part False) (take (length out) (split_on separator b))
    \<and> (errors_Is err ErrPayloadTooLarge \<and> 0 < m
         \<and> m < int (length (split_on separator b ! length out))
       \<or> errors_Is err ErrInvalidPayload
         \<and> (\<exists>e. DecodePacket (split_on separator b ! length out) False = Inl e))"
proof -
  have "decode_parts m (split_on separator b) 0 [] = (out, Some err, dropped)"
    using assms by (auto simp: DecodePayloadWithLimit_def split: if_splits)
  from decode_parts_err [OF this linear] show ?thesis
    by auto
qed

text \<open>
  A payload no longer than the limit decodes exactly as without a limit: no packet
  is dropped and no packet is too large. The polling transport rejects longer bodies before
  it decodes, with the same bound, so its truncation branch never runs.
\<close>

lemma decode_limit_inactive_below_bound:
  assumes "int (length b) \<le> m"
  shows "DecodePayloadWithLimit b m = DecodePayload b"
  using assms parts_size_split_on [of separator b]
  by (simp add: DecodePayload_def DecodePayloadWithLimit_def decode_parts_within_limit)

end
