(* ===== verification/EioPolling.thy ===== *)
theory EioPolling
  imports EioPacket EioOptions Steps
begin

text \<open>
  The HTTP long-polling transport of the server (\<^verbatim>\<open>engineio/transport/polling.go\<close>). An
  operation returns the transport and, in order, what it does to its surroundings: the
  responses it writes, the poll requests it lets go, and the calls it makes to its handler.
  \<^verbatim>\<open>OnDrain\<close> is left out, since it does nothing in every handler.
\<close>

section \<open>State\<close>

text \<open>
  Requests are named by numbers. The fields \<^verbatim>\<open>req\<close>, \<^verbatim>\<open>res\<close> and \<^verbatim>\<open>pollDone\<close> of the source are
  set and cleared together, they are the one field \<open>pl_poll\<close>.
\<close>

record polling =
  pl_poll :: "nat option"
  pl_dataReq :: "nat option"
  pl_writable :: bool
  pl_sendBuffer :: "Packet list"
  pl_discarded :: bool
  pl_closed :: bool
  pl_pendingClose :: bool
  pl_closeTimer :: bool
  pl_maxBufferSize :: int

text \<open>
  \<open>PollReply r pkts\<close> answers a poll with status 200 and the encoded packets; \<open>Release r\<close> ends
  a poll without writing anything.
\<close>

datatype act =
    Reply nat nat bytes
  | PollReply nat "Packet list"
  | Release nat
  | HPacket Packet
  | HError go_error
  | HClose
  | HReady

definition NewPolling :: polling where
  "NewPolling =
     \<lparr>pl_poll = None, pl_dataReq = None, pl_writable = False, pl_sendBuffer = [], pl_discarded = False,
      pl_closed = False, pl_pendingClose = False, pl_closeTimer = False, pl_maxBufferSize = 1048576\<rparr>"

definition SetMaxBufferSize :: "int \<Rightarrow> polling \<Rightarrow> polling" where
  "SetMaxBufferSize n p = p\<lparr>pl_maxBufferSize := n\<rparr>"

definition pl_SetWritable :: "bool \<Rightarrow> polling \<Rightarrow> polling" where
  "pl_SetWritable v p = p\<lparr>pl_writable := v\<rparr>"

section \<open>Closing and sending\<close>

definition closeLocked :: "polling \<Rightarrow> polling" where
  "closeLocked p =
     p\<lparr>pl_closed := True, pl_writable := False, pl_pendingClose := False, pl_poll := None,
       pl_dataReq := None, pl_sendBuffer := [], pl_closeTimer := False\<rparr>"

definition notifyClose :: "polling \<Rightarrow> polling \<times> act list" where
  "notifyClose p =
     (if pl_closed p then (p, [])
      else (closeLocked p, (case pl_poll p of None \<Rightarrow> [] | Some r \<Rightarrow> [Release r]) @ [HClose]))"

definition pl_Send :: "Packet list \<Rightarrow> polling \<Rightarrow> polling \<times> act list" where
  "pl_Send pkts p =
     (if pl_closed p then (p, [])
      else
        (let pkts' = (if pl_pendingClose p then pkts @ [text_packet Close []] else pkts);
             p1 = p\<lparr>pl_writable := False\<rparr>
         in case pl_poll p of
              None \<Rightarrow> (p1\<lparr>pl_sendBuffer := pl_sendBuffer p @ pkts'\<rparr>, [])
            | Some r \<Rightarrow>
                (let p2 = p1\<lparr>pl_poll := None\<rparr>
                 in if pl_pendingClose p
                    then (case notifyClose p2 of (p3, as) \<Rightarrow> (p3, PollReply r pkts' # as))
                    else (p2, [PollReply r pkts']))))"

definition DrainBuffered :: "polling \<Rightarrow> Packet list \<times> polling" where
  "DrainBuffered p = (pl_sendBuffer p, p\<lparr>pl_sendBuffer := []\<rparr>)"

definition pl_Discard :: "polling \<Rightarrow> polling" where
  "pl_Discard p = p\<lparr>pl_discarded := True\<rparr>"

definition pl_Close :: "polling \<Rightarrow> polling \<times> act list" where
  "pl_Close p =
     (if pl_closed p then (p, [])
      else if pl_discarded p then notifyClose p
      else if pl_writable p then run_all [pl_Send [text_packet Close []], notifyClose] p
      else (p\<lparr>pl_pendingClose := True, pl_closeTimer := True\<rparr>, []))"

text \<open>The timer that \<open>pl_Close\<close> starts, when it fires.\<close>

definition close_timeout :: "polling \<Rightarrow> polling \<times> act list" where
  "close_timeout p = (if pl_closeTimer p then notifyClose p else (p, []))"

section \<open>Poll requests\<close>

text \<open>
  \<^verbatim>\<open>onPollRequest\<close> up to the call of \<^verbatim>\<open>OnReady\<close>: a second poll is refused, otherwise the
  packets that were waiting for a poll are taken out; and the rest after that call.
\<close>

definition poll_begin :: "nat \<Rightarrow> polling \<Rightarrow> act list + polling \<times> Packet list" where
  "poll_begin r p =
     (if pl_poll p \<noteq> None then Inl [HError ErrRequestOverlap, Reply r 400 []]
      else
        (let p1 = p\<lparr>pl_poll := Some r, pl_writable := True\<rparr>
         in Inr (if \<not> pl_closed p \<and> pl_sendBuffer p \<noteq> []
                 then (p1\<lparr>pl_sendBuffer := []\<rparr>, pl_sendBuffer p) else (p1, []))))"

definition poll_end :: "Packet list \<Rightarrow> polling \<Rightarrow> polling \<times> act list" where
  "poll_end buffered p =
     (if buffered \<noteq> [] then pl_Send buffered p
      else if pl_pendingClose p \<and> \<not> pl_closed p then pl_Send [text_packet Noop []] p
      else (p, []))"

text \<open>The goroutine that watches the context of a poll, when the client has gone away.\<close>

definition poll_aborted :: "nat \<Rightarrow> polling \<Rightarrow> polling \<times> act list" where
  "poll_aborted r p =
     (if pl_poll p = Some r
      then (p\<lparr>pl_poll := None, pl_writable := False\<rparr>, [Release r, HError ErrPollClosed])
      else (p, []))"

section \<open>Data requests\<close>

text \<open>
  \<^verbatim>\<open>onDataRequest\<close>: entering it, and what it does once the body is read. The reader is
  limited to one byte more than the maximum; a read error is one before that limit.
\<close>

definition data_begin :: "nat \<Rightarrow> polling \<Rightarrow> polling \<times> act list" where
  "data_begin r p =
     (if pl_dataReq p \<noteq> None then (p, [HError ErrDataRequestActive, Reply r 400 []])
      else (p\<lparr>pl_dataReq := Some r\<rparr>, []))"

definition data_acts :: "nat \<Rightarrow> request \<Rightarrow> int \<Rightarrow> act list" where
  "data_acts r rq maxBufferSize =
     (if hasPrefix (get_first (rq_Header rq) ''Content-Type'') ''application/octet-stream''
      then [HError (ErrorsNew ''engineio: invalid content type for polling payload''), Reply r 400 []]
      else
        (case rq_Body rq of
           Inl err \<Rightarrow> [HError err, Reply r 400 []]
         | Inr b \<Rightarrow>
             (let body = take (nat (maxBufferSize + 1)) b
              in if maxBufferSize < int (length body) then [Reply r 413 []]
                 else
                   (case DecodePayloadWithLimit body maxBufferSize of
                      (pkts, Some err, _) \<Rightarrow> [HError err, Reply r 400 []]
                    | (pkts, None, _) \<Rightarrow> map HPacket pkts @ [Reply r 200 ''ok'']))))"

definition data_end :: "polling \<Rightarrow> polling" where
  "data_end p = p\<lparr>pl_dataReq := None\<rparr>"

text \<open>\<^verbatim>\<open>Polling.ServeHTTP\<close> with another method.\<close>

definition bad_method :: "nat \<Rightarrow> act list" where
  "bad_method r = [Reply r 500 (''method not allowed'' @ [CHR 0x0A])]"

section \<open>Lemmas\<close>

text \<open>Everything a transport still holds.\<close>

lemma notifyClose_closed [simp]: "pl_closed (fst (notifyClose p))"
  by (simp add: notifyClose_def closeLocked_def)

lemma pl_Send_unclosed:
  assumes "\<not> pl_closed p" and "\<not> pl_pendingClose p"
  shows "pl_Send pkts p =
    (case pl_poll p of
       None \<Rightarrow> (p\<lparr>pl_writable := False, pl_sendBuffer := pl_sendBuffer p @ pkts\<rparr>, [])
     | Some r \<Rightarrow> (p\<lparr>pl_writable := False, pl_poll := None\<rparr>, [PollReply r pkts]))"
  using assms by (simp add: pl_Send_def Let_def split: option.split)

end
