(* ===== verification/EioSession.thy ===== *)
theory EioSession
  imports EioPolling Json
begin

text \<open>
  A session of the Engine.IO server (\<^verbatim>\<open>engineio/socket.go\<close>) with its transports: the polling
  transport of \<open>EioPolling\<close> and the WebSocket transports (\<^verbatim>\<open>engineio/transport/websocket.go\<close>).
  A method is one step where it runs through; it is cut in two where it lets other goroutines
  in at a point that matters: \<^verbatim>\<open>flush\<close> between taking the write buffer and handing it to the
  transport, \<^verbatim>\<open>pingHandler\<close> between sending the ping and starting the timeout, and the
  \<^verbatim>\<open>onUpgrade\<close> callback between switching the transport and draining the old one.
\<close>

section \<open>State\<close>

datatype readyState = StateOpening | StateOpen | StateClosing | StateClosed

datatype tport = TPolling | TWebsocket nat

text \<open>The handler attached to a WebSocket transport: the session, or an upgrade in progress.\<close>

datatype whandler = NoHandler | Bound | Upgrading

record wsock =
  ws_handler :: whandler
  ws_writable :: bool
  ws_discarded :: bool
  ws_closed :: bool

datatype timer_kind = IntervalTimer | TimeoutTimer | UpgradeTimer nat

text \<open>
  Timers are named by numbers: \<open>ss_timers\<close> are those that are running, \<open>ss_interval\<close> and
  \<open>ss_timeout\<close> the two the session refers to (the others cannot be stopped any more).
  \<open>ss_flight\<close> is a batch taken by \<^verbatim>\<open>flush\<close> that was not handed to the transport yet,
  \<open>ss_pinging\<close> the number of ping handlers about to start their timeout, \<open>ss_switching\<close> the
  upgrades that have switched to a WebSocket, each with the transport it is leaving, and
  \<open>ss_ticking\<close> the upgrades whose loop keeps polls cycling.
\<close>

record session =
  ss_id :: string
  ss_opts :: eio_options
  ss_readyState :: readyState
  ss_transport :: "tport option"
  ss_polling :: "polling option"
  ss_ws :: "nat \<Rightarrow> wsock option"
  ss_writeBuffer :: "Packet list"
  ss_upgrading :: bool
  ss_upgraded :: bool
  ss_sending :: bool
  ss_flight :: "(tport \<times> Packet list) option"
  ss_timers :: "(nat \<times> timer_kind) list"
  ss_ntimers :: nat
  ss_interval :: "nat option"
  ss_timeout :: "nat option"
  ss_pinging :: nat
  ss_switching :: "(nat \<times> tport option) list"
  ss_ticking :: "nat list"

text \<open>
  What a session does to its surroundings. \<open>Queued\<close> records the packets it accepted for
  sending; \<open>Frame\<close> is a frame written to a WebSocket, \<open>WsClose\<close> the close of one.
\<close>

datatype eio_effect =
    Queued Packet
  | HttpReply nat nat bytes
  | PollAnswer nat "Packet list"
  | PollReleased nat
  | Frame nat Packet
  | WsClose nat
  | DataCb bytes bool
  | CloseCb string "go_error option"

text \<open>The effects that are calls to the application.\<close>

fun is_CloseCb :: "eio_effect \<Rightarrow> bool" where
  "is_CloseCb (CloseCb r e) = True"
| "is_CloseCb _ = False"

fun is_cb :: "eio_effect \<Rightarrow> bool" where
  "is_cb (CloseCb r e) = True"
| "is_cb (DataCb d b) = True"
| "is_cb _ = False"

type_synonym eio_step = "session \<Rightarrow> session \<times> eio_effect list"

text \<open>
  The outcome of a sequence of writes to a WebSocket: all succeed, or the first \<open>k\<close> do and the
  next one fails with an error.
\<close>

type_synonym writes = "(nat \<times> go_error) option"

section \<open>Transports seen from the session\<close>

definition t_Name :: "tport \<Rightarrow> string" where
  "t_Name t = (case t of TPolling \<Rightarrow> ''polling'' | TWebsocket n \<Rightarrow> ''websocket'')"

definition t_Writable :: "tport \<Rightarrow> session \<Rightarrow> bool" where
  "t_Writable t s =
     (case t of
        TPolling \<Rightarrow> (case ss_polling s of None \<Rightarrow> False | Some p \<Rightarrow> pl_writable p)
      | TWebsocket n \<Rightarrow> (case ss_ws s n of None \<Rightarrow> False | Some w \<Rightarrow> ws_writable w))"

definition map_ws :: "nat \<Rightarrow> (wsock \<Rightarrow> wsock) \<Rightarrow> session \<Rightarrow> session" where
  "map_ws n f s = s\<lparr>ss_ws := (ss_ws s)(n := map_option f (ss_ws s n))\<rparr>"

definition map_polling :: "(polling \<Rightarrow> polling) \<Rightarrow> session \<Rightarrow> session" where
  "map_polling f s = s\<lparr>ss_polling := map_option f (ss_polling s)\<rparr>"

text \<open>\<^verbatim>\<open>NewWebsocket\<close>.\<close>

definition NewWebsocket :: wsock where
  "NewWebsocket = \<lparr>ws_handler = NoHandler, ws_writable = True, ws_discarded = False, ws_closed = False\<rparr>"

definition ws_SetHandler :: "whandler \<Rightarrow> nat \<Rightarrow> session \<Rightarrow> session" where
  "ws_SetHandler h n = map_ws n (\<lambda>w. w\<lparr>ws_handler := h\<rparr>)"

definition ws_Discard :: "nat \<Rightarrow> session \<Rightarrow> session" where
  "ws_Discard n = map_ws n (\<lambda>w. w\<lparr>ws_discarded := True\<rparr>)"

definition ws_Close :: "nat \<Rightarrow> eio_step" where
  "ws_Close n s =
     (case ss_ws s n of
        None \<Rightarrow> (s, [])
      | Some w \<Rightarrow> if ws_closed w then (s, []) else (map_ws n (\<lambda>w. w\<lparr>ws_closed := True\<rparr>) s, [WsClose n]))"

section \<open>Timers\<close>

definition start_timer :: "timer_kind \<Rightarrow> session \<Rightarrow> nat \<times> session" where
  "start_timer k s =
     (ss_ntimers s, s\<lparr>ss_timers := ss_timers s @ [(ss_ntimers s, k)], ss_ntimers := ss_ntimers s + 1\<rparr>)"

definition stop_timer :: "nat option \<Rightarrow> session \<Rightarrow> session" where
  "stop_timer t s =
     (case t of None \<Rightarrow> s | Some i \<Rightarrow> s\<lparr>ss_timers := filter (\<lambda>(j, k). j \<noteq> i) (ss_timers s)\<rparr>)"

definition start_interval :: "session \<Rightarrow> session" where
  "start_interval s = (case start_timer IntervalTimer s of (i, s') \<Rightarrow> s'\<lparr>ss_interval := Some i\<rparr>)"

definition start_timeout :: "session \<Rightarrow> session" where
  "start_timeout s = (case start_timer TimeoutTimer s of (i, s') \<Rightarrow> s'\<lparr>ss_timeout := Some i\<rparr>)"

section \<open>Closing\<close>

text \<open>
  Effects of a polling operation other than the calls to its handler, which come back to the
  session: in \<open>closeWithReason\<close> they find it closed and return at once.
\<close>

fun act_effects :: "act \<Rightarrow> eio_effect list" where
  "act_effects (Reply r status body) = [HttpReply r status body]"
| "act_effects (PollReply r pkts) = [PollAnswer r pkts]"
| "act_effects (Release r) = [PollReleased r]"
| "act_effects _ = []"

definition t_Discard :: "tport \<Rightarrow> session \<Rightarrow> session" where
  "t_Discard t = (case t of TPolling \<Rightarrow> map_polling pl_Discard | TWebsocket n \<Rightarrow> ws_Discard n)"

definition run_polling :: "(polling \<Rightarrow> polling \<times> act list) \<Rightarrow> session \<Rightarrow> session \<times> act list" where
  "run_polling f s =
     (case ss_polling s of
        None \<Rightarrow> (s, [])
      | Some p \<Rightarrow> (case f p of (p', as) \<Rightarrow> (s\<lparr>ss_polling := Some p'\<rparr>, as)))"

definition close_discarded :: "tport \<Rightarrow> eio_step" where
  "close_discarded t s =
     (case t of
        TPolling \<Rightarrow> (case run_polling pl_Close s of (s', as) \<Rightarrow> (s', concat (map act_effects as)))
      | TWebsocket n \<Rightarrow> ws_Close n s)"

definition discard_transport :: eio_step where
  "discard_transport s =
     (case ss_transport s of
        None \<Rightarrow> (s, [])
      | Some t \<Rightarrow> run_all [modify (t_Discard t), close_discarded t] s)"

definition closeWithReason :: "string \<Rightarrow> go_error option \<Rightarrow> eio_step" where
  "closeWithReason reason err s =
     (if ss_readyState s = StateClosed then (s, [])
      else
        run_all
          [modify (\<lambda>s. s\<lparr>ss_readyState := StateClosed\<rparr>),
           modify (\<lambda>s. stop_timer (ss_timeout s) (stop_timer (ss_interval s) s)),
           discard_transport,
           perform [CloseCb reason err]] s)"

definition onErrorFrom :: "tport \<Rightarrow> go_error \<Rightarrow> eio_step" where
  "onErrorFrom t err s =
     (if ss_transport s \<noteq> Some t \<or> ss_upgrading s then (s, [])
      else closeWithReason ''transport error'' (Some (wrapInvalidPacket err)) s)"

definition onCloseFrom :: "tport \<Rightarrow> eio_step" where
  "onCloseFrom t s =
     (if ss_transport s \<noteq> Some t \<or> ss_upgrading s then (s, [])
      else closeWithReason ''transport close'' None s)"

section \<open>Receiving\<close>

definition onPacket :: "Packet \<Rightarrow> eio_step" where
  "onPacket p s =
     (if ss_readyState s \<noteq> StateOpen then (s, [])
      else
        (case pkt_Type p of
           Pong \<Rightarrow> (start_interval (stop_timer (ss_interval s) (stop_timer (ss_timeout s) s)), [])
         | Ping \<Rightarrow> closeWithReason ''invalid heartbeat direction'' None s
         | Message \<Rightarrow> (s, [DataCb (pkt_Data p) (pkt_IsBinary p)])
         | Close \<Rightarrow> closeWithReason ''client close'' None s
         | _ \<Rightarrow> (s, [])))"

section \<open>Sending\<close>

text \<open>\<^verbatim>\<open>flush\<close> up to the point where the batch is handed to the transport.\<close>

definition flush_begin :: "session \<Rightarrow> session" where
  "flush_begin s =
     (if ss_readyState s = StateClosed \<or> ss_sending s \<or> ss_upgrading s then s
      else
        (case ss_transport s of
           None \<Rightarrow> s
         | Some t \<Rightarrow>
             if ss_writeBuffer s = [] \<or> \<not> t_Writable t s then s
             else s\<lparr>ss_flight := Some (t, ss_writeBuffer s), ss_writeBuffer := [], ss_sending := True\<rparr>))"

text \<open>
  The calls a polling transport makes to the session: \<open>HReady\<close> is a \<^verbatim>\<open>flush\<close> and handled where
  a poll request is served.
\<close>

definition dispatch :: "act \<Rightarrow> eio_step" where
  "dispatch a =
     (case a of
        HPacket p \<Rightarrow> onPacket p
      | HError err \<Rightarrow> onErrorFrom TPolling err
      | HClose \<Rightarrow> onCloseFrom TPolling
      | HReady \<Rightarrow> perform []
      | _ \<Rightarrow> perform (act_effects a))"

definition polling_call :: "(polling \<Rightarrow> polling \<times> act list) \<Rightarrow> eio_step" where
  "polling_call f s = (case run_polling f s of (s', as) \<Rightarrow> run_all (map dispatch as) s')"

text \<open>
  \<^verbatim>\<open>Websocket.Send\<close>: the frames that are written, and the error of the first write that
  fails.
\<close>

definition ws_frames :: "nat \<Rightarrow> Packet list \<Rightarrow> writes \<Rightarrow> eio_effect list \<times> go_error option" where
  "ws_frames n pkts w =
     (case w of
        None \<Rightarrow> (map (Frame n) pkts, None)
      | Some (k, err) \<Rightarrow>
          if k < length pkts then (map (Frame n) (take k pkts), Some err) else (map (Frame n) pkts, None))"

text \<open>
  The \<^verbatim>\<open>onAbort\<close> callback of an upgrade but for its last call, which is \<^verbatim>\<open>flush\<close>.
\<close>

definition stop_upgrade_timer :: "nat \<Rightarrow> session \<Rightarrow> session" where
  "stop_upgrade_timer n s = s\<lparr>ss_timers := filter (\<lambda>(j, k). k \<noteq> UpgradeTimer n) (ss_timers s)\<rparr>"

definition abort_upgrade :: "nat \<Rightarrow> eio_step" where
  "abort_upgrade n =
     run_all
       [modify (stop_upgrade_timer n),
        modify (\<lambda>s. s\<lparr>ss_ticking := removeAll n (ss_ticking s)\<rparr>),
        ws_Close n,
        modify (\<lambda>s. s\<lparr>ss_upgrading := False\<rparr>),
        modify (\<lambda>s. if ss_readyState s = StateOpen then start_interval s else s)]"

text \<open>
  \<^verbatim>\<open>Send\<close> of the transport a batch was taken for, with \<^verbatim>\<open>notifyError\<close> of a WebSocket when a write
  fails. The \<^verbatim>\<open>flush\<close> calls it leads to (by \<^verbatim>\<open>OnReady\<close>, or at the end of \<^verbatim>\<open>onAbort\<close>) return at
  their guard, since the batch is still being sent.
\<close>

definition send_failed :: "nat \<Rightarrow> go_error \<Rightarrow> eio_step" where
  "send_failed n err s =
     (case map_option ws_handler (ss_ws s n) of
        Some Bound \<Rightarrow> onErrorFrom (TWebsocket n) err s
      | Some Upgrading \<Rightarrow> run_all [abort_upgrade n, modify flush_begin] s
      | _ \<Rightarrow> (s, []))"

definition t_Send :: "tport \<Rightarrow> Packet list \<Rightarrow> writes \<Rightarrow> eio_step" where
  "t_Send t pkts w =
     (case t of
        TPolling \<Rightarrow> polling_call (pl_Send pkts)
      | TWebsocket n \<Rightarrow>
          if pkts = [] then perform []
          else
            (case ws_frames n pkts w of
               (fs, None) \<Rightarrow>
                 run_all [perform fs, modify (map_ws n (\<lambda>w. w\<lparr>ws_writable := True\<rparr>)), modify flush_begin]
             | (fs, Some err) \<Rightarrow> run_all [perform fs, send_failed n err]))"

definition reflush :: "session \<Rightarrow> bool" where
  "reflush s \<longleftrightarrow>
     ss_readyState s \<noteq> StateClosed \<and> ss_writeBuffer s \<noteq> []
     \<and> (case ss_transport s of None \<Rightarrow> False | Some t \<Rightarrow> t_Writable t s)"

text \<open>The rest of \<^verbatim>\<open>flush\<close>, and \<^verbatim>\<open>flush\<close> where it is not interrupted.\<close>

definition flush_end :: "writes \<Rightarrow> eio_step" where
  "flush_end w s =
     (case ss_flight s of
        None \<Rightarrow> (s, [])
      | Some (t, buf) \<Rightarrow>
          run_all
            [modify (\<lambda>s. s\<lparr>ss_flight := None\<rparr>),
             t_Send t buf w,
             modify (\<lambda>s. s\<lparr>ss_sending := False\<rparr>),
             modify (\<lambda>s. if reflush s then flush_begin s else s)] s)"

definition flush :: "writes \<Rightarrow> eio_step" where
  "flush w s = (if ss_sending s then (s, []) else flush_end w (flush_begin s))"

definition eio_sendPacket :: "Packet \<Rightarrow> eio_step" where
  "eio_sendPacket p s =
     (if ss_readyState s = StateClosing \<or> ss_readyState s = StateClosed then (s, [])
      else
        (let s1 = s\<lparr>ss_writeBuffer := ss_writeBuffer s @ [p]\<rparr>
         in (case ss_transport s1 of
               None \<Rightarrow> s1
             | Some t \<Rightarrow> if t_Writable t s1 then flush_begin s1 else s1,
             [Queued p])))"

definition SendMessage :: "bytes \<Rightarrow> bool \<Rightarrow> eio_step" where
  "SendMessage data binary = eio_sendPacket \<lparr>pkt_Type = Message, pkt_Data = data, pkt_IsBinary = binary\<rparr>"

section \<open>Opening\<close>

text \<open>\<^verbatim>\<open>upgradesFor\<close> of the server, on the options the session shares with it.\<close>

definition upgradesFor :: "eio_options \<Rightarrow> string \<Rightarrow> string list" where
  "upgradesFor o1 transportName =
     (if \<not> eo_AllowUpgrades o1 then []
      else if transportName = ''polling'' \<and> ''websocket'' \<in> set (transportsEnabled o1) then [''websocket'']
      else [])"

definition transportName :: "session \<Rightarrow> string" where
  "transportName s = (case ss_transport s of None \<Rightarrow> [] | Some t \<Rightarrow> t_Name t)"

definition dec_of_int :: "int \<Rightarrow> decimal" where
  "dec_of_int i = mk_decimal (i < 0) (nat \<bar>i\<bar>) 0"

text \<open>The handshake data: the fields of the struct in their order.\<close>

definition open_fields :: "string \<Rightarrow> string list \<Rightarrow> int \<Rightarrow> int \<Rightarrow> int \<Rightarrow> (string \<times> val) list" where
  "open_fields sid upgrades pingInterval pingTimeout maxPayload =
     [(''sid'', VStr sid), (''upgrades'', VArr (map VStr upgrades)),
      (''pingInterval'', VNum (dec_of_int pingInterval)), (''pingTimeout'', VNum (dec_of_int pingTimeout)),
      (''maxPayload'', VNum (dec_of_int maxPayload))]"

definition struct_toks :: "(string \<times> val) list \<Rightarrow> tok list" where
  "struct_toks ms = TLBrace # join_with TComma (map (\<lambda>(k, v). member_toks k (toks v)) ms) @ [TRBrace]"

definition openPacketData :: "session \<Rightarrow> bytes" where
  "openPacketData s =
     concat (map tok_text (struct_toks (open_fields (ss_id s) (upgradesFor (ss_opts s) (transportName s))
       (milliseconds (eo_PingInterval (ss_opts s))) (milliseconds (eo_PingTimeout (ss_opts s)))
       (eo_MaxHTTPBufferSize (ss_opts s)))))"

definition newSession :: "string \<Rightarrow> eio_options \<Rightarrow> session" where
  "newSession sid o1 =
     \<lparr>ss_id = sid, ss_opts = o1, ss_readyState = StateOpening, ss_transport = None, ss_polling = None,
      ss_ws = \<lambda>_. None, ss_writeBuffer = [], ss_upgrading = False, ss_upgraded = False, ss_sending = False,
      ss_flight = None, ss_timers = [], ss_ntimers = 0, ss_interval = None, ss_timeout = None,
      ss_pinging = 0, ss_switching = [], ss_ticking = []\<rparr>"

definition attach_polling :: "polling \<Rightarrow> session \<Rightarrow> session" where
  "attach_polling p s = s\<lparr>ss_transport := Some TPolling, ss_polling := Some p\<rparr>"

definition attach_websocket :: "nat \<Rightarrow> session \<Rightarrow> session" where
  "attach_websocket n s =
     ws_SetHandler Bound n (s\<lparr>ss_transport := Some (TWebsocket n), ss_ws := (ss_ws s)(n \<mapsto> NewWebsocket)\<rparr>)"

definition ss_open :: "writes \<Rightarrow> eio_step" where
  "ss_open w =
     run_all
       [modify (\<lambda>s. s\<lparr>ss_readyState := StateOpen\<rparr>),
        (\<lambda>s. eio_sendPacket (text_packet Open (openPacketData s)) s),
        flush_end w,
        modify start_interval]"

section \<open>Heartbeat\<close>

definition ping_begin :: "eio_step" where
  "ping_begin s =
     (if ss_readyState s = StateClosed then (s, [])
      else if ss_upgrading s then (start_interval s, [])
      else run_all [eio_sendPacket (text_packet Ping []), modify (\<lambda>s. s\<lparr>ss_pinging := ss_pinging s + 1\<rparr>)] s)"

definition ping_end :: "session \<Rightarrow> session" where
  "ping_end s = (if ss_pinging s = 0 then s else start_timeout (s\<lparr>ss_pinging := ss_pinging s - 1\<rparr>))"

definition pingTimeoutHandler :: "eio_step" where
  "pingTimeoutHandler s =
     (if ss_readyState s = StateClosed then (s, []) else closeWithReason ''ping timeout'' (Some ErrHeartbeatTimeout) s)"

text \<open>A running timer fires.\<close>

definition fire_timer :: "nat \<Rightarrow> eio_step" where
  "fire_timer i s =
     (let s1 = s\<lparr>ss_timers := filter (\<lambda>(j, k). j \<noteq> i) (ss_timers s)\<rparr>
      in case map_of (ss_timers s) i of
           None \<Rightarrow> (s, [])
         | Some IntervalTimer \<Rightarrow> ping_begin s1
         | Some TimeoutTimer \<Rightarrow> pingTimeoutHandler s1
         | Some (UpgradeTimer n) \<Rightarrow> ws_Close n s1)"

section \<open>Closing by the application\<close>

definition closeTransport :: "eio_step" where
  "closeTransport s =
     (case ss_transport s of
        None \<Rightarrow> (s, [])
      | Some TPolling \<Rightarrow> polling_call pl_Close s
      | Some (TWebsocket n) \<Rightarrow> ws_Close n s)"

definition ss_Close :: "writes \<Rightarrow> eio_step" where
  "ss_Close w s =
     (if ss_readyState s \<noteq> StateOpen then (s, [])
      else run_all [modify (\<lambda>s. s\<lparr>ss_readyState := StateClosing\<rparr>), flush w, closeTransport] s)"

section \<open>Upgrading\<close>

definition MaybeUpgrade :: "nat \<Rightarrow> eio_step" where
  "MaybeUpgrade n s =
     (let s0 = s\<lparr>ss_ws := (ss_ws s)(n \<mapsto> NewWebsocket)\<rparr>
      in if ss_upgrading s0 \<or> ss_upgraded s0 \<or> ss_readyState s0 \<noteq> StateOpen then ws_Close n s0
         else
           (let s1 = stop_timer (ss_timeout s0) (stop_timer (ss_interval s0) (s0\<lparr>ss_upgrading := True\<rparr>));
                s2 = s1\<lparr>ss_interval := None, ss_timeout := None\<rparr>
            in (ws_SetHandler Upgrading n (snd (start_timer (UpgradeTimer n) s2)), [])))"

definition onAbort :: "nat \<Rightarrow> writes \<Rightarrow> eio_step" where
  "onAbort n w = run_all [abort_upgrade n, flush w]"

definition onProbe :: "nat \<Rightarrow> writes \<Rightarrow> writes \<Rightarrow> eio_step" where
  "onProbe n w w' =
     (case ws_frames n [text_packet Pong ''probe''] w of
        (fs, Some err) \<Rightarrow> run_all [perform fs, onAbort n w']
      | (fs, None) \<Rightarrow> run_all [perform fs, modify (\<lambda>s. s\<lparr>ss_ticking := n # ss_ticking s\<rparr>)])"

text \<open>
  \<^verbatim>\<open>onUpgrade\<close> switches the transport, and then, once no batch is being sent to the old one,
  moves the packets that the old one still holds to the front of the write buffer.
\<close>

definition upgrade_switch :: "nat \<Rightarrow> eio_step" where
  "upgrade_switch n s =
     (let s1 = (stop_upgrade_timer n s)\<lparr>ss_ticking := removeAll n (ss_ticking s)\<rparr>
      in if ss_readyState s1 = StateClosed then ws_Close n s1
         else
           (s1\<lparr>ss_upgrading := False, ss_upgraded := True, ss_transport := Some (TWebsocket n),
               ss_switching := (n, ss_transport s1) # ss_switching s1\<rparr>, []))"

definition requeue_drained :: "session \<Rightarrow> session" where
  "requeue_drained s =
     (case ss_polling s of
        None \<Rightarrow> s
      | Some p \<Rightarrow>
          (case DrainBuffered p of
             (drained, p') \<Rightarrow> s\<lparr>ss_polling := Some p', ss_writeBuffer := drained @ ss_writeBuffer s\<rparr>))"

definition leave_transport :: "tport option \<Rightarrow> eio_step" where
  "leave_transport old s =
     (case old of
        None \<Rightarrow> (s, [])
      | Some TPolling \<Rightarrow> run_all [modify requeue_drained, modify (map_polling pl_Discard), polling_call pl_Close] s
      | Some (TWebsocket m) \<Rightarrow> run_all [modify (ws_Discard m), ws_Close m] s)"

definition upgrade_finish :: "nat \<Rightarrow> writes \<Rightarrow> eio_step" where
  "upgrade_finish n w s =
     (case map_of (ss_switching s) n of
        None \<Rightarrow> (s, [])
      | Some old \<Rightarrow>
          if old = Some TPolling \<and> ss_sending s then (s, [])
          else
            run_all
              [modify (\<lambda>s. s\<lparr>ss_switching := filter (\<lambda>(m, t). m \<noteq> n) (ss_switching s)\<rparr>),
               leave_transport old,
               modify (ws_SetHandler Bound n),
               flush w,
               modify (\<lambda>s. if ss_readyState s = StateOpen then start_interval s else s)] s)"

definition pollingWritable :: "session \<Rightarrow> bool" where
  "pollingWritable s \<longleftrightarrow>
     \<not> ss_upgraded s \<and> ss_transport s = Some TPolling \<and> t_Writable TPolling s"

definition pollingNoop :: "writes \<Rightarrow> eio_step" where
  "pollingNoop w s =
     (case ss_transport s of None \<Rightarrow> (s, []) | Some t \<Rightarrow> t_Send t [text_packet Noop []] w s)"

text \<open>One tick of the loop that \<open>onProbe\<close> starts.\<close>

definition upgrade_tick :: "writes \<Rightarrow> eio_step" where
  "upgrade_tick w s = (if ss_ticking s \<noteq> [] \<and> pollingWritable s then pollingNoop w s else (s, []))"

section \<open>Events of a WebSocket\<close>

definition upgrade_OnPacket :: "nat \<Rightarrow> Packet \<Rightarrow> writes \<Rightarrow> writes \<Rightarrow> eio_step" where
  "upgrade_OnPacket n p w w' =
     (if pkt_Type p = Ping \<and> pkt_Data p = ''probe'' then onProbe n w w'
      else if pkt_Type p = Upgrade then upgrade_switch n
      else onAbort n w')"

definition ws_onPacket :: "nat \<Rightarrow> Packet \<Rightarrow> writes \<Rightarrow> writes \<Rightarrow> eio_step" where
  "ws_onPacket n p w w' s =
     (case map_option ws_handler (ss_ws s n) of
        Some Bound \<Rightarrow> onPacket p s
      | Some Upgrading \<Rightarrow> upgrade_OnPacket n p w w' s
      | _ \<Rightarrow> (s, []))"

definition ws_onError :: "nat \<Rightarrow> go_error \<Rightarrow> writes \<Rightarrow> eio_step" where
  "ws_onError n err w s =
     (case map_option ws_handler (ss_ws s n) of
        Some Bound \<Rightarrow> onErrorFrom (TWebsocket n) err s
      | Some Upgrading \<Rightarrow> onAbort n w s
      | _ \<Rightarrow> (s, []))"

definition ws_onClose :: "nat \<Rightarrow> writes \<Rightarrow> eio_step" where
  "ws_onClose n w s =
     (case map_option ws_handler (ss_ws s n) of
        Some Bound \<Rightarrow> onCloseFrom (TWebsocket n) s
      | Some Upgrading \<Rightarrow> onAbort n w s
      | _ \<Rightarrow> (s, []))"

text \<open>One frame read by \<^verbatim>\<open>readLoop\<close>.\<close>

definition ws_onFrame :: "nat \<Rightarrow> bytes \<Rightarrow> bool \<Rightarrow> writes \<Rightarrow> writes \<Rightarrow> eio_step" where
  "ws_onFrame n data binary w w' =
     (if binary then ws_onPacket n (binary_packet data) w w'
      else
        (case DecodePacket data False of
           Inl err \<Rightarrow> ws_onError n err w'
         | Inr p \<Rightarrow> ws_onPacket n p w w'))"

section \<open>Events of a polling transport\<close>

definition onPollRequest :: "nat \<Rightarrow> writes \<Rightarrow> eio_step" where
  "onPollRequest r w s =
     (case ss_polling s of
        None \<Rightarrow> (s, [])
      | Some p \<Rightarrow>
          (case poll_begin r p of
             Inl as \<Rightarrow> run_all (map dispatch as) s
           | Inr (p', buffered) \<Rightarrow>
               run_all
                 [modify (\<lambda>s. s\<lparr>ss_polling := Some p'\<rparr>), flush w, polling_call (poll_end buffered)] s))"

definition onDataRequest :: "nat \<Rightarrow> request \<Rightarrow> eio_step" where
  "onDataRequest r rq s =
     (case ss_polling s of
        None \<Rightarrow> (s, [])
      | Some p \<Rightarrow>
          run_all
            (map dispatch (data_acts r rq (pl_maxBufferSize p)) @ [modify (map_polling data_end)]) s)"

end
