(* ===== verification/EioSessionProps.thy ===== *)
theory EioSessionProps
  imports EioSession
begin

text \<open>
  The steps of an Engine.IO session that started on polling, and what the application hears
  of its end.
\<close>

section \<open>Reachable states\<close>

definition open_polling :: "string \<Rightarrow> eio_options \<Rightarrow> session \<times> eio_effect list" where
  "open_polling sid o1 =
     ss_open None (attach_polling (SetMaxBufferSize (eo_MaxHTTPBufferSize o1) NewPolling) (newSession sid o1))"

text \<open>
  The steps of a session: sending, the end of a batch, polls and data requests, timers, the
  close by the application, and the events of WebSockets. While an upgrade switches to a
  WebSocket its reader is busy, and a closed WebSocket delivers no more frames.
\<close>

inductive ss_step :: "session \<Rightarrow> eio_effect list \<Rightarrow> session \<Rightarrow> bool" where
  ss_send: "SendMessage data binary s = (s', es) \<Longrightarrow> ss_step s es s'"
| ss_flush_end: "flush_end w s = (s', es) \<Longrightarrow> ss_step s es s'"
| ss_poll: "onPollRequest r w s = (s', es) \<Longrightarrow> ss_step s es s'"
| ss_poll_aborted: "polling_call (poll_aborted r) s = (s', es) \<Longrightarrow> ss_step s es s'"
| ss_data_begin: "polling_call (data_begin r) s = (s', es) \<Longrightarrow> ss_step s es s'"
| ss_data: "onDataRequest r rq s = (s', es) \<Longrightarrow> ss_step s es s'"
| ss_close_timeout: "polling_call close_timeout s = (s', es) \<Longrightarrow> ss_step s es s'"
| ss_timer: "fire_timer i s = (s', es) \<Longrightarrow> ss_step s es s'"
| ss_ping_end: "ss_step s [] (ping_end s)"
| ss_close: "ss_Close w s = (s', es) \<Longrightarrow> ss_step s es s'"
| ss_upgrade: "ss_ws s n = None \<Longrightarrow> MaybeUpgrade n s = (s', es) \<Longrightarrow> ss_step s es s'"
| ss_frame: "ss_ws s n = Some ws \<Longrightarrow> \<not> ws_closed ws \<Longrightarrow> n \<notin> fst ` set (ss_switching s)
    \<Longrightarrow> ws_onFrame n data binary w w' s = (s', es) \<Longrightarrow> ss_step s es s'"
| ss_ws_close: "n \<notin> fst ` set (ss_switching s) \<Longrightarrow> ws_onClose n w s = (s', es) \<Longrightarrow> ss_step s es s'"
| ss_upgrade_finish: "upgrade_finish n w s = (s', es) \<Longrightarrow> ss_step s es s'"
| ss_tick: "upgrade_tick w s = (s', es) \<Longrightarrow> ss_step s es s'"

inductive ss_reach :: "string \<Rightarrow> eio_options \<Rightarrow> eio_effect list \<Rightarrow> session \<Rightarrow> bool" for sid o1 where
  init: "open_polling sid o1 = (s, es) \<Longrightarrow> ss_reach sid o1 es s"
| step: "ss_reach sid o1 es s \<Longrightarrow> ss_step s es' s' \<Longrightarrow> ss_reach sid o1 (es @ es') s'"

lemma open_polling_eq:
  "open_polling sid o1 =
     (let s = attach_polling (SetMaxBufferSize (eo_MaxHTTPBufferSize o1) NewPolling) (newSession sid o1);
          p = text_packet Open (openPacketData s)
      in (start_interval (s\<lparr>ss_readyState := StateOpen, ss_writeBuffer := [p]\<rparr>), [Queued p]))"
  by (simp add: open_polling_def ss_open_def modify_def Let_def eio_sendPacket_def attach_polling_def newSession_def
      t_Writable_def SetMaxBufferSize_def NewPolling_def flush_end_def openPacketData_def transportName_def)

section \<open>The close callback\<close>

text \<open>
  A step that closes the session calls the close callback once and nothing after it; one that
  does not, does not call it; and a closed session stays closed and calls nothing.
\<close>

definition closes_once :: "session \<Rightarrow> eio_effect list \<Rightarrow> session \<Rightarrow> bool" where
  "closes_once s es s' \<longleftrightarrow>
     ss_id s' = ss_id s \<and>
     (if ss_readyState s = StateClosed then ss_readyState s' = StateClosed \<and> list_all (\<lambda>e. \<not> is_cb e) es
      else if ss_readyState s' = StateClosed
      then \<exists>es1 r e es2. es = es1 @ CloseCb r e # es2 \<and> list_all (\<lambda>e. \<not> is_CloseCb e) es1 \<and> list_all (\<lambda>e. \<not> is_cb e) es2
      else list_all (\<lambda>e. \<not> is_CloseCb e) es)"

definition co :: "eio_step \<Rightarrow> bool" where
  "co f \<longleftrightarrow> (\<forall>s. closes_once s (snd (f s)) (fst (f s)))"

named_theorems co_intros \<open>steps that close a session at most once\<close>

lemma is_cb_close: "is_CloseCb e \<Longrightarrow> is_cb e"
  by (cases e) auto

lemma no_cb_no_close: "list_all (\<lambda>e. \<not> is_cb e) es \<Longrightarrow> list_all (\<lambda>e. \<not> is_CloseCb e) es"
  using is_cb_close by (auto simp: list_all_iff)

lemma closes_onceI:
  assumes "ss_id s' = ss_id s" and "ss_readyState s \<noteq> StateClosed" and "ss_readyState s' = StateClosed" and "es = es1 @ CloseCb r e # es2"
    and "list_all (\<lambda>e. \<not> is_CloseCb e) es1" and "list_all (\<lambda>e. \<not> is_cb e) es2"
  shows "closes_once s es s'"
  using assms unfolding closes_once_def by auto

lemma closes_once_append:
  assumes "closes_once s es s1" and "closes_once s1 es' s2"
  shows "closes_once s (es @ es') s2"
proof (cases "ss_readyState s = StateClosed")
  case False
  have id: "ss_id s2 = ss_id s"
    using assms by (simp add: closes_once_def)
  show ?thesis
  proof (cases "ss_readyState s1 = StateClosed")
    case True
    with False assms(1) obtain es1 r e es2 where "es = es1 @ CloseCb r e # es2"
      "list_all (\<lambda>e. \<not> is_CloseCb e) es1" "list_all (\<lambda>e. \<not> is_cb e) es2"
      by (auto simp: closes_once_def)
    moreover have "ss_readyState s2 = StateClosed" "list_all (\<lambda>e. \<not> is_cb e) es'"
      using True assms(2) by (auto simp: closes_once_def)
    ultimately have "es @ es' = es1 @ CloseCb r e # (es2 @ es')" "list_all (\<lambda>e. \<not> is_CloseCb e) es1"
      "list_all (\<lambda>e. \<not> is_cb e) (es2 @ es')" "ss_readyState s2 = StateClosed"
      by simp_all
    with id False show ?thesis
      by (auto intro: closes_onceI)
  next
    case s1: False
    then have n: "list_all (\<lambda>e. \<not> is_CloseCb e) es"
      using assms(1) False by (auto simp: closes_once_def)
    show ?thesis
    proof (cases "ss_readyState s2 = StateClosed")
      case True
      with s1 assms(2) obtain es1 r e es2 where "es' = es1 @ CloseCb r e # es2"
        "list_all (\<lambda>e. \<not> is_CloseCb e) es1" "list_all (\<lambda>e. \<not> is_cb e) es2"
        by (auto simp: closes_once_def)
      then have "es @ es' = (es @ es1) @ CloseCb r e # es2" "list_all (\<lambda>e. \<not> is_CloseCb e) (es @ es1)"
        "list_all (\<lambda>e. \<not> is_cb e) es2"
        using n by simp_all
      then show ?thesis
        by (rule closes_onceI [OF id False True])
    qed (use s1 n id assms(2) False in \<open>auto simp: closes_once_def\<close>)
  qed
qed (use assms in \<open>auto simp: closes_once_def\<close>)

lemma co_run_all:
  assumes "\<And>f. f \<in> set fs \<Longrightarrow> co f"
  shows "co (run_all fs)"
  using assms
proof (induction fs)
  case Nil
  then show ?case
    by (simp add: co_def closes_once_def)
next
  case (Cons f fs)
  show ?case
    unfolding co_def
  proof
    fix s
    obtain s1 e1 where f: "f s = (s1, e1)"
      by fastforce
    obtain s2 e2 where r: "run_all fs s1 = (s2, e2)"
      by fastforce
    have "co f" "co (run_all fs)"
      using Cons by auto
    then have "closes_once s e1 s1" "closes_once s1 e2 s2"
      using f r by (auto simp: co_def dest: spec [of _ s] spec [of _ s1])
    then show "closes_once s (snd (run_all (f # fs) s)) (fst (run_all (f # fs) s))"
      using f r closes_once_append by simp
  qed
qed

lemma co_Nil [co_intros]: "co (run_all [])" and co_Cons [co_intros]: "co f \<Longrightarrow> co (run_all fs) \<Longrightarrow> co (run_all (f # fs))"
proof -
  show "co (run_all [])"
    by (rule co_run_all) simp
  assume "co f" and "co (run_all fs)"
  then have "co (run_all [f, run_all fs])"
    by (intro co_run_all) auto
  then show "co (run_all (f # fs))"
    by (simp add: co_def case_prod_beta)
qed

lemma co_quiet:
  assumes "\<And>s. ss_id (fst (f s)) = ss_id s" and "\<And>s. ss_readyState (fst (f s)) = ss_readyState s" and "\<And>s. list_all (\<lambda>e. \<not> is_cb e) (snd (f s))"
  shows "co f"
  using assms no_cb_no_close unfolding co_def closes_once_def by auto

lemma co_modify [co_intros]: "(\<And>s. ss_id (f s) = ss_id s) \<Longrightarrow> (\<And>s. ss_readyState (f s) = ss_readyState s) \<Longrightarrow> co (modify f)"
  by (rule co_quiet) (simp_all add: modify_def)

lemma co_perform [co_intros]: "list_all (\<lambda>e. \<not> is_cb e) es \<Longrightarrow> co (perform es)"
  by (rule co_quiet) (simp_all add: perform_def)

subsection \<open>Fields the helpers leave alone\<close>

lemma stop_timer_fields [simp]:
  "ss_readyState (stop_timer t s) = ss_readyState s" "ss_id (stop_timer t s) = ss_id s" "ss_transport (stop_timer t s) = ss_transport s"
  "ss_polling (stop_timer t s) = ss_polling s" "ss_ws (stop_timer t s) = ss_ws s"
  "ss_writeBuffer (stop_timer t s) = ss_writeBuffer s" "ss_upgrading (stop_timer t s) = ss_upgrading s"
  "ss_upgraded (stop_timer t s) = ss_upgraded s" "ss_sending (stop_timer t s) = ss_sending s"
  "ss_flight (stop_timer t s) = ss_flight s" "ss_switching (stop_timer t s) = ss_switching s"
  by (simp_all add: stop_timer_def split: option.split)

lemma start_timer_fields [simp]:
  "ss_readyState (snd (start_timer k s)) = ss_readyState s" "ss_id (snd (start_timer k s)) = ss_id s" "ss_transport (snd (start_timer k s)) = ss_transport s"
  "ss_polling (snd (start_timer k s)) = ss_polling s" "ss_ws (snd (start_timer k s)) = ss_ws s"
  "ss_writeBuffer (snd (start_timer k s)) = ss_writeBuffer s" "ss_upgrading (snd (start_timer k s)) = ss_upgrading s"
  "ss_upgraded (snd (start_timer k s)) = ss_upgraded s" "ss_sending (snd (start_timer k s)) = ss_sending s"
  "ss_flight (snd (start_timer k s)) = ss_flight s" "ss_switching (snd (start_timer k s)) = ss_switching s"
  by (simp_all add: start_timer_def)

lemma start_interval_fields [simp]:
  "ss_readyState (start_interval s) = ss_readyState s" "ss_id (start_interval s) = ss_id s" "ss_transport (start_interval s) = ss_transport s"
  "ss_polling (start_interval s) = ss_polling s" "ss_ws (start_interval s) = ss_ws s"
  "ss_writeBuffer (start_interval s) = ss_writeBuffer s" "ss_upgrading (start_interval s) = ss_upgrading s"
  "ss_upgraded (start_interval s) = ss_upgraded s" "ss_sending (start_interval s) = ss_sending s"
  "ss_flight (start_interval s) = ss_flight s" "ss_switching (start_interval s) = ss_switching s"
  by (simp_all add: start_interval_def start_timer_def)

lemma start_timeout_fields [simp]:
  "ss_readyState (start_timeout s) = ss_readyState s" "ss_id (start_timeout s) = ss_id s" "ss_transport (start_timeout s) = ss_transport s"
  "ss_polling (start_timeout s) = ss_polling s" "ss_ws (start_timeout s) = ss_ws s"
  "ss_writeBuffer (start_timeout s) = ss_writeBuffer s" "ss_upgrading (start_timeout s) = ss_upgrading s"
  "ss_upgraded (start_timeout s) = ss_upgraded s" "ss_sending (start_timeout s) = ss_sending s"
  "ss_flight (start_timeout s) = ss_flight s" "ss_switching (start_timeout s) = ss_switching s"
  by (simp_all add: start_timeout_def start_timer_def)

lemma map_ws_fields [simp]:
  "ss_readyState (map_ws n f s) = ss_readyState s" "ss_id (map_ws n f s) = ss_id s" "ss_transport (map_ws n f s) = ss_transport s"
  "ss_polling (map_ws n f s) = ss_polling s" "ss_ws (map_ws n f s) = (ss_ws s)(n := map_option f (ss_ws s n))"
  "ss_writeBuffer (map_ws n f s) = ss_writeBuffer s" "ss_upgrading (map_ws n f s) = ss_upgrading s"
  "ss_upgraded (map_ws n f s) = ss_upgraded s" "ss_sending (map_ws n f s) = ss_sending s"
  "ss_flight (map_ws n f s) = ss_flight s" "ss_switching (map_ws n f s) = ss_switching s"
  by (simp_all add: map_ws_def)

lemma map_polling_fields [simp]:
  "ss_readyState (map_polling f s) = ss_readyState s" "ss_id (map_polling f s) = ss_id s" "ss_transport (map_polling f s) = ss_transport s"
  "ss_polling (map_polling f s) = map_option f (ss_polling s)" "ss_ws (map_polling f s) = ss_ws s"
  "ss_writeBuffer (map_polling f s) = ss_writeBuffer s" "ss_upgrading (map_polling f s) = ss_upgrading s"
  "ss_upgraded (map_polling f s) = ss_upgraded s" "ss_sending (map_polling f s) = ss_sending s"
  "ss_flight (map_polling f s) = ss_flight s" "ss_switching (map_polling f s) = ss_switching s"
  by (simp_all add: map_polling_def)

lemma run_polling_fields [simp]:
  "ss_readyState (fst (run_polling f s)) = ss_readyState s" "ss_id (fst (run_polling f s)) = ss_id s" "ss_transport (fst (run_polling f s)) = ss_transport s"
  "ss_polling (fst (run_polling f s)) = map_option (\<lambda>p. fst (f p)) (ss_polling s)" "ss_ws (fst (run_polling f s)) = ss_ws s"
  "ss_writeBuffer (fst (run_polling f s)) = ss_writeBuffer s" "ss_upgrading (fst (run_polling f s)) = ss_upgrading s"
  "ss_upgraded (fst (run_polling f s)) = ss_upgraded s" "ss_sending (fst (run_polling f s)) = ss_sending s"
  "ss_flight (fst (run_polling f s)) = ss_flight s" "ss_switching (fst (run_polling f s)) = ss_switching s"
  by (simp_all add: run_polling_def split: option.split prod.split)

lemma stop_upgrade_timer_fields [simp]:
  "ss_readyState (stop_upgrade_timer n s) = ss_readyState s" "ss_id (stop_upgrade_timer n s) = ss_id s" "ss_transport (stop_upgrade_timer n s) = ss_transport s"
  "ss_polling (stop_upgrade_timer n s) = ss_polling s" "ss_ws (stop_upgrade_timer n s) = ss_ws s"
  "ss_writeBuffer (stop_upgrade_timer n s) = ss_writeBuffer s" "ss_upgrading (stop_upgrade_timer n s) = ss_upgrading s"
  "ss_upgraded (stop_upgrade_timer n s) = ss_upgraded s" "ss_sending (stop_upgrade_timer n s) = ss_sending s"
  "ss_flight (stop_upgrade_timer n s) = ss_flight s" "ss_switching (stop_upgrade_timer n s) = ss_switching s"
  by (simp_all add: stop_upgrade_timer_def)

lemma flush_begin_fields [simp]:
  "ss_readyState (flush_begin s) = ss_readyState s" "ss_id (flush_begin s) = ss_id s" "ss_transport (flush_begin s) = ss_transport s"
  "ss_polling (flush_begin s) = ss_polling s" "ss_ws (flush_begin s) = ss_ws s" "ss_upgrading (flush_begin s) = ss_upgrading s"
  "ss_upgraded (flush_begin s) = ss_upgraded s" "ss_switching (flush_begin s) = ss_switching s"
  by (simp_all add: flush_begin_def split: option.split)

lemma ws_Close_fields [simp]:
  "ss_readyState (fst (ws_Close n s)) = ss_readyState s" "ss_id (fst (ws_Close n s)) = ss_id s" "ss_transport (fst (ws_Close n s)) = ss_transport s"
  "ss_polling (fst (ws_Close n s)) = ss_polling s" "ss_writeBuffer (fst (ws_Close n s)) = ss_writeBuffer s"
  "ss_upgrading (fst (ws_Close n s)) = ss_upgrading s" "ss_upgraded (fst (ws_Close n s)) = ss_upgraded s"
  "ss_sending (fst (ws_Close n s)) = ss_sending s" "ss_flight (fst (ws_Close n s)) = ss_flight s"
  "ss_switching (fst (ws_Close n s)) = ss_switching s"
  by (simp_all add: ws_Close_def split: option.split)

lemma requeue_drained_fields [simp]:
  "ss_readyState (requeue_drained s) = ss_readyState s" "ss_id (requeue_drained s) = ss_id s" "ss_transport (requeue_drained s) = ss_transport s"
  "ss_upgrading (requeue_drained s) = ss_upgrading s" "ss_upgraded (requeue_drained s) = ss_upgraded s"
  "ss_sending (requeue_drained s) = ss_sending s" "ss_flight (requeue_drained s) = ss_flight s"
  "ss_switching (requeue_drained s) = ss_switching s" "ss_ws (requeue_drained s) = ss_ws s"
  by (simp_all add: requeue_drained_def DrainBuffered_def split: option.split)

subsection \<open>Every step\<close>

lemma co_if [co_intros]: "co f \<Longrightarrow> co g \<Longrightarrow> co (\<lambda>s. if P s then f s else g s)"
  unfolding co_def by (simp split: if_split)

lemma co_case_option [co_intros]:
  "co f \<Longrightarrow> (\<And>x. co (g x)) \<Longrightarrow> co (\<lambda>s. case h s of None \<Rightarrow> f s | Some x \<Rightarrow> g x s)"
  unfolding co_def by (simp split: option.split)

lemma co_case_whandler [co_intros]:
  "co f \<Longrightarrow> co g \<Longrightarrow> co k \<Longrightarrow> co (\<lambda>s. case h s of NoHandler \<Rightarrow> f s | Bound \<Rightarrow> g s | Upgrading \<Rightarrow> k s)"
  unfolding co_def by (simp split: whandler.split)

lemma co_case_prod [co_intros]: "(\<And>a b. co (f a b)) \<Longrightarrow> co (\<lambda>s. case h s of (a, b) \<Rightarrow> f a b s)"
  unfolding co_def by (simp add: case_prod_beta)

lemma co_case_tport [co_intros]:
  "co f \<Longrightarrow> (\<And>n. co (g n)) \<Longrightarrow> co (\<lambda>s. case h s of TPolling \<Rightarrow> f s | TWebsocket n \<Rightarrow> g n s)"
  unfolding co_def by (simp split: tport.split)

lemma co_self [co_intros]: "co (\<lambda>s. (s, []))"
  by (rule co_quiet) simp_all

lemma co_ws_Close [co_intros]: "co (ws_Close n)"
  by (rule co_quiet) (simp_all add: ws_Close_def split: option.split)

lemma act_effects_no_cb: "list_all (\<lambda>e. \<not> is_cb e) (act_effects a)"
  by (cases a) simp_all

lemma acts_effects_no_cb: "list_all (\<lambda>e. \<not> is_cb e) (concat (map act_effects as))"
  by (induction as) (simp_all add: act_effects_no_cb)

lemma close_discarded_quiet: "list_all (\<lambda>e. \<not> is_cb e) (snd (close_discarded t s))"
  by (simp add: close_discarded_def ws_Close_def acts_effects_no_cb split: tport.split prod.split option.split)

lemma close_discarded_fields [simp]:
  "ss_readyState (fst (close_discarded t s)) = ss_readyState s" "ss_id (fst (close_discarded t s)) = ss_id s" "ss_transport (fst (close_discarded t s)) = ss_transport s"
  "ss_switching (fst (close_discarded t s)) = ss_switching s"
  by (simp_all add: close_discarded_def case_prod_beta split: tport.split)

lemma t_Discard_fields [simp]:
  "ss_readyState (t_Discard t s) = ss_readyState s" "ss_id (t_Discard t s) = ss_id s" "ss_transport (t_Discard t s) = ss_transport s"
  "ss_switching (t_Discard t s) = ss_switching s"
  by (simp_all add: t_Discard_def ws_Discard_def split: tport.split)

lemma discard_transport_quiet: "list_all (\<lambda>e. \<not> is_cb e) (snd (discard_transport s))"
  by (simp add: discard_transport_def modify_def case_prod_beta close_discarded_quiet split: option.split)

lemma discard_transport_readyState [simp]: "ss_readyState (fst (discard_transport s)) = ss_readyState s" "ss_id (fst (discard_transport s)) = ss_id s"
  by (simp_all add: discard_transport_def modify_def case_prod_beta split: option.split)

lemma closeWithReason_effects:
  assumes "ss_readyState s \<noteq> StateClosed"
  shows "\<exists>es. snd (closeWithReason reason err s) = es @ [CloseCb reason err] \<and> list_all (\<lambda>e. \<not> is_cb e) es"
  using assms by (simp add: closeWithReason_def modify_def perform_def case_prod_beta discard_transport_quiet)

lemma closeWithReason_id [simp]: "ss_id (fst (closeWithReason reason err s)) = ss_id s"
  by (simp add: closeWithReason_def modify_def perform_def case_prod_beta)

lemma closeWithReason_readyState [simp]: "ss_readyState (fst (closeWithReason reason err s)) = StateClosed"
  by (simp add: closeWithReason_def modify_def perform_def case_prod_beta)

lemma co_closeWithReason [co_intros]: "co (closeWithReason reason err)"
  unfolding co_def
proof
  fix s
  show "closes_once s (snd (closeWithReason reason err s)) (fst (closeWithReason reason err s))"
  proof (cases "ss_readyState s = StateClosed")
    case True
    then show ?thesis
      by (simp add: closeWithReason_def closes_once_def)
  next
    case False
    obtain es where "snd (closeWithReason reason err s) = es @ [CloseCb reason err]" "list_all (\<lambda>e. \<not> is_cb e) es"
      using closeWithReason_effects [OF False] by blast
    then show ?thesis
      using no_cb_no_close by (intro closes_onceI [OF _ False, of _ _ es reason err "[]"]) simp_all
  qed
qed

lemma co_onErrorFrom [co_intros]: "co (onErrorFrom t err)"
  unfolding onErrorFrom_def by (intro co_intros)

lemma co_onCloseFrom [co_intros]: "co (onCloseFrom t)"
  unfolding onCloseFrom_def by (intro co_intros)

lemma co_onPacket [co_intros]: "co (onPacket p)"
  unfolding co_def
proof
  fix s
  have c: "closes_once s (snd (closeWithReason reason err s)) (fst (closeWithReason reason err s))" for reason err
    using co_closeWithReason unfolding co_def by blast
  then show "closes_once s (snd (onPacket p s)) (fst (onPacket p s))"
    by (cases "pkt_Type p") (simp_all add: onPacket_def closes_once_def [of s "[]"] closes_once_def [of s "[DataCb d b]" for d b])
qed

lemma co_dispatch [co_intros]: "co (dispatch a)"
  by (cases a) (auto simp: dispatch_def intro!: co_intros)

lemma co_polling_call [co_intros]: "co (polling_call f)"
  unfolding co_def
proof
  fix s
  have "co (run_all (map dispatch (snd (run_polling f s))))"
    by (rule co_run_all) (auto intro: co_intros)
  then have "closes_once (fst (run_polling f s)) (snd (polling_call f s)) (fst (polling_call f s))"
    by (simp add: co_def polling_call_def case_prod_beta)
  then show "closes_once s (snd (polling_call f s)) (fst (polling_call f s))"
    by (simp add: closes_once_def)
qed

lemma flush_begin_quiet [co_intros]: "co (modify flush_begin)"
  by (intro co_intros) simp_all

lemma co_abort_upgrade [co_intros]: "co (abort_upgrade n)"
  unfolding abort_upgrade_def by (intro co_intros; simp)

lemma ws_frames_no_cb: "ws_frames n pkts w = (fs, e) \<Longrightarrow> list_all (\<lambda>e. \<not> is_cb e) fs"
  by (auto simp: ws_frames_def list_all_iff split: option.splits if_splits)

lemma co_send_failed [co_intros]: "co (send_failed n err)"
  unfolding send_failed_def by (intro co_intros)

lemma co_t_Send [co_intros]: "co (t_Send t pkts w)"
proof (cases t)
  case (TWebsocket n)
  obtain fs e where f: "ws_frames n pkts w = (fs, e)"
    by fastforce
  then have fs: "co (perform fs)"
    using ws_frames_no_cb by (intro co_intros) blast
  show ?thesis
  proof (cases e)
    case None
    have "co (run_all [perform fs, modify (map_ws n (\<lambda>w. w\<lparr>ws_writable := True\<rparr>)), modify flush_begin])"
      by (intro fs co_intros; simp)
    then show ?thesis
      using TWebsocket f None by (simp add: t_Send_def co_perform)
  next
    case (Some err)
    have "co (run_all [perform fs, send_failed n err])"
      by (intro fs co_intros; simp)
    then show ?thesis
      using TWebsocket f Some by (simp add: t_Send_def co_perform)
  qed
qed (simp add: t_Send_def co_polling_call)

lemma co_flush_end [co_intros]: "co (flush_end w)"
  unfolding flush_end_def by (intro co_intros; simp)

lemma co_flush_begin_end: "co (\<lambda>s. flush_end w (flush_begin s))"
  using co_flush_end [of w] by (simp add: co_def closes_once_def)

lemma co_flush [co_intros]: "co (flush w)"
  unfolding flush_def by (intro co_intros co_flush_begin_end)

lemma co_eio_sendPacket [co_intros]: "co (eio_sendPacket p)"
  by (rule co_quiet) (simp_all add: eio_sendPacket_def Let_def split: option.split)

lemma co_start_interval [co_intros]: "co (\<lambda>s. (start_interval s, []))"
  by (rule co_quiet) simp_all

lemma co_ping_begin [co_intros]: "co ping_begin"
  unfolding ping_begin_def by (intro co_intros; simp)

lemma co_pingTimeoutHandler [co_intros]: "co pingTimeoutHandler"
  unfolding pingTimeoutHandler_def by (intro co_intros)

lemma co_fire_timer: "co (fire_timer i)"
  unfolding co_def
proof
  fix s
  have "closes_once (s\<lparr>ss_timers := ts\<rparr>) (snd (f (s\<lparr>ss_timers := ts\<rparr>))) (fst (f (s\<lparr>ss_timers := ts\<rparr>)))"
    if "co f" for f ts
    using that by (simp add: co_def)
  from this [OF co_ping_begin] this [OF co_pingTimeoutHandler] this [OF co_ws_Close]
  have "closes_once s (snd (f (s\<lparr>ss_timers := ts\<rparr>))) (fst (f (s\<lparr>ss_timers := ts\<rparr>)))"
    if "f = ping_begin \<or> f = pingTimeoutHandler \<or> f = ws_Close n" for f ts n
    using that by (auto simp: closes_once_def)
  then show "closes_once s (snd (fire_timer i s)) (fst (fire_timer i s))"
    by (auto simp: fire_timer_def Let_def closes_once_def [of s "[]"] split: option.split timer_kind.split)
qed

lemma co_closeTransport [co_intros]: "co closeTransport"
  unfolding closeTransport_def by (intro co_intros)

lemma co_ss_Close: "co (ss_Close w)"
proof -
  have 1: "co (run_all [flush w, closeTransport])"
    by (intro co_intros)
  show ?thesis
    unfolding co_def
  proof
    fix s
    show "closes_once s (snd (ss_Close w s)) (fst (ss_Close w s))"
    proof (cases "ss_readyState s = StateOpen")
      case True
      have "closes_once (s\<lparr>ss_readyState := StateClosing\<rparr>) (snd (ss_Close w s)) (fst (ss_Close w s))"
        using 1 True by (simp add: co_def ss_Close_def modify_def case_prod_beta)
      with True show ?thesis
        by (simp add: closes_once_def)
    qed (simp add: ss_Close_def closes_once_def)
  qed
qed

lemma co_MaybeUpgrade: "co (MaybeUpgrade n)"
proof -
  have "co (\<lambda>s. ws_Close n (s\<lparr>ss_ws := (ss_ws s)(n \<mapsto> NewWebsocket)\<rparr>))"
    by (rule co_quiet) (simp_all add: ws_Close_def NewWebsocket_def)
  then show ?thesis
    by (auto simp: co_def MaybeUpgrade_def Let_def closes_once_def ws_SetHandler_def)
qed

lemma co_onAbort [co_intros]: "co (onAbort n w)"
  unfolding onAbort_def by (intro co_intros)

lemma co_onProbe [co_intros]: "co (onProbe n w w')"
proof -
  obtain fs e where f: "ws_frames n [text_packet Pong ''probe''] w = (fs, e)"
    by fastforce
  then have fs: "co (perform fs)"
    using ws_frames_no_cb by (intro co_intros) blast
  show ?thesis
    using f by (cases e) (simp_all add: onProbe_def del: run_all.simps, (intro fs co_intros; simp)+)
qed

lemma co_upgrade_switch [co_intros]: "co (upgrade_switch n)"
  by (rule co_quiet) (simp_all add: upgrade_switch_def Let_def ws_Close_def split: option.split)

lemma co_leave_transport [co_intros]: "co (leave_transport old)"
  unfolding leave_transport_def by (intro co_intros; simp add: ws_Discard_def)

lemma co_upgrade_finish: "co (upgrade_finish n w)"
  unfolding upgrade_finish_def
  by (intro co_intros; simp add: ws_SetHandler_def)

lemma co_upgrade_tick: "co (upgrade_tick w)"
  unfolding upgrade_tick_def pollingNoop_def by (intro co_intros)

lemma co_upgrade_OnPacket [co_intros]: "co (upgrade_OnPacket n p w w')"
  unfolding upgrade_OnPacket_def by (simp add: co_onProbe co_upgrade_switch co_onAbort)

lemma co_ws_onPacket: "co (ws_onPacket n p w w')"
  unfolding ws_onPacket_def by (intro co_intros)

lemma co_ws_onError: "co (ws_onError n err w)"
  unfolding ws_onError_def by (intro co_intros)

lemma co_ws_onClose: "co (ws_onClose n w)"
  unfolding ws_onClose_def by (intro co_intros)

lemma co_ws_onFrame: "co (ws_onFrame n data binary w w')"
  by (simp add: ws_onFrame_def co_ws_onPacket co_ws_onError split: sum.split)

lemma co_onPollRequest: "co (onPollRequest r w)"
  unfolding co_def
proof
  fix s
  have "co (run_all (map dispatch as))" for as
    by (rule co_run_all) (auto intro: co_intros)
  moreover have "co (run_all [modify (\<lambda>s. s\<lparr>ss_polling := Some p\<rparr>), flush w, polling_call f])" for p f
    by (intro co_intros) simp_all
  ultimately show "closes_once s (snd (onPollRequest r w s)) (fst (onPollRequest r w s))"
    unfolding co_def onPollRequest_def
    by (auto simp: closes_once_def [of s "[]"] simp del: run_all.simps split: option.split sum.split)
qed

lemma co_onDataRequest: "co (onDataRequest r rq)"
proof -
  have "co (run_all (map dispatch as @ [modify (map_polling data_end)]))" for as
    by (rule co_run_all) (auto intro!: co_intros)
  then show ?thesis
    unfolding onDataRequest_def by (intro co_intros)
qed

lemmas co_steps = co_eio_sendPacket co_flush_end co_onPollRequest co_polling_call co_onDataRequest co_fire_timer
  co_ss_Close co_MaybeUpgrade co_ws_onFrame co_ws_onClose co_upgrade_finish co_upgrade_tick

lemma coD: "co f \<Longrightarrow> f s = (s', es) \<Longrightarrow> closes_once s es s'"
  unfolding co_def by (metis fst_conv snd_conv)

lemma ss_step_closes_once: "ss_step s es s' \<Longrightarrow> closes_once s es s'"
proof (induction rule: ss_step.induct)
  case (ss_ping_end s)
  then show ?case
    by (simp add: closes_once_def ping_end_def)
qed (auto simp: SendMessage_def intro: co_steps [THEN coD])

text \<open>What a whole execution has reported, once it has reached a state.\<close>

lemma ss_reach_closes:
  assumes "ss_reach sid o1 es s"
  shows "if ss_readyState s = StateClosed
         then \<exists>es1 r e es2. es = es1 @ CloseCb r e # es2 \<and> list_all (\<lambda>e. \<not> is_CloseCb e) es1 \<and> list_all (\<lambda>e. \<not> is_cb e) es2
         else list_all (\<lambda>e. \<not> is_CloseCb e) es"
proof -
  have "closes_once (newSession sid o1) es s"
    using assms
  proof induction
    case (init s es)
    then show ?case
      by (auto simp: open_polling_eq Let_def closes_once_def newSession_def attach_polling_def)
  next
    case (step es s es' s')
    then show ?case
      using closes_once_append ss_step_closes_once by blast
  qed
  then show ?thesis
    by (simp add: closes_once_def newSession_def)
qed

lemma filter_CloseCb_none: "list_all (\<lambda>e. \<not> is_CloseCb e) es \<Longrightarrow> filter is_CloseCb es = []"
  by (simp add: list_all_iff)

lemma split_at_close:
  assumes "es1 @ CloseCb r e # es2 = es1' @ CloseCb r' e' # es2'"
    and "list_all (\<lambda>e. \<not> is_CloseCb e) es1" and "list_all (\<lambda>e. \<not> is_CloseCb e) es2"
  shows "es2' = es2"
  using assms
proof (induction es1 arbitrary: es1')
  case Nil
  show ?case
  proof (cases es1')
    case (Cons x xs)
    then have "CloseCb r' e' \<in> set es2"
      using Nil by simp
    then show ?thesis
      using Nil(3) by (auto simp: list_all_iff)
  qed (use Nil in simp)
next
  case (Cons a es1)
  then show ?case
    by (cases es1') auto
qed


text \<open>A session that is polled, closed by the application, and polled again.\<close>

definition sample_options :: eio_options where
  "sample_options =
     eio_withDefaults (zero_eio_options\<lparr>eo_PingInterval := 25000000, eo_PingTimeout := 20000000, eo_MaxHTTPBufferSize := 64\<rparr>)"

definition sample_open :: "session \<times> eio_effect list" where
  "sample_open = open_polling ''a'' sample_options"

definition sample_polled :: "session \<times> eio_effect list" where
  "sample_polled = onPollRequest 0 None (fst sample_open)"

definition sample_closing :: "session \<times> eio_effect list" where
  "sample_closing = ss_Close None (fst sample_polled)"

definition sample_closed :: "session \<times> eio_effect list" where
  "sample_closed = onPollRequest 1 None (fst sample_closing)"

definition sample_effects :: "eio_effect list" where
  "sample_effects = ((snd sample_open @ snd sample_polled) @ snd sample_closing) @ snd sample_closed"

lemma sample_open_reach: "ss_reach ''a'' sample_options (snd sample_open) (fst sample_open)"
  by (rule ss_reach.init) (simp add: sample_open_def)

lemma sample_polled_reach: "ss_reach ''a'' sample_options (snd sample_open @ snd sample_polled) (fst sample_polled)"
  by (rule ss_reach.step [OF sample_open_reach ss_poll [of 0 None]]) (simp add: sample_polled_def)

lemma sample_closed_reach: "ss_reach ''a'' sample_options sample_effects (fst sample_closed)"
proof -
  have "ss_reach ''a'' sample_options ((snd sample_open @ snd sample_polled) @ snd sample_closing) (fst sample_closing)"
    by (rule ss_reach.step [OF sample_polled_reach ss_close [of None]]) (simp add: sample_closing_def)
  then show ?thesis
    unfolding sample_effects_def
    by (rule ss_reach.step [OF _ ss_poll [of 1 None]]) (simp add: sample_closed_def)
qed

lemma sample_closed_state: "ss_readyState (fst sample_closed) = StateClosed"
  by code_simp


end
