(* ===== verification/EioDelivery.thy ===== *)
theory EioDelivery
  imports EioSessionProps "HOL-Library.Multiset"
begin

text \<open>
  Delivery by an Engine.IO session that started on polling: every packet it accepts for
  sending is delivered exactly once or still waiting, across polls and the upgrade to
  WebSocket, as long as the session is healthy.
\<close>

section \<open>What is waiting and what was delivered\<close>

text \<open>The packets a session sends on behalf of the application and the heartbeat.\<close>

definition carried :: "Packet \<Rightarrow> bool" where
  "carried p \<longleftrightarrow> pkt_Type p \<in> {Open, Ping, Message}"

definition bag :: "Packet list \<Rightarrow> Packet multiset" where
  "bag ps = mset (filter carried ps)"

fun accepted1 :: "eio_effect \<Rightarrow> Packet list" where
  "accepted1 (Queued p) = [p]"
| "accepted1 _ = []"

fun delivered1 :: "eio_effect \<Rightarrow> Packet list" where
  "delivered1 (PollAnswer r ps) = ps"
| "delivered1 (Frame n p) = [p]"
| "delivered1 _ = []"

definition accepted :: "eio_effect list \<Rightarrow> Packet multiset" where
  "accepted es = bag (concat (map accepted1 es))"

definition delivered :: "eio_effect list \<Rightarrow> Packet multiset" where
  "delivered es = bag (concat (map delivered1 es))"

text \<open>Packets in the write buffer, in the batch being handed over, and waiting for a poll.\<close>

definition waiting :: "session \<Rightarrow> Packet multiset" where
  "waiting s =
     bag (ss_writeBuffer s) + (case ss_flight s of None \<Rightarrow> {#} | Some (t, ps) \<Rightarrow> bag ps)
     + (case ss_polling s of None \<Rightarrow> {#} | Some p \<Rightarrow> bag (pl_sendBuffer p))"

lemma bag_simps [simp]: "bag [] = {#}" "bag (ps @ qs) = bag ps + bag qs"
  "bag (p # ps) = (if carried p then {#p#} else {#}) + bag ps"
  by (simp_all add: bag_def)

lemma accepted_append [simp]: "accepted (es @ es') = accepted es + accepted es'" "accepted [] = {#}"
  "accepted (e # es) = bag (accepted1 e) + accepted es"
  by (simp_all add: accepted_def)

lemma delivered_append [simp]: "delivered (es @ es') = delivered es + delivered es'" "delivered [] = {#}"
  "delivered (e # es) = bag (delivered1 e) + delivered es"
  by (simp_all add: delivered_def)

section \<open>Healthy sessions\<close>

definition handlers :: "session \<Rightarrow> nat \<Rightarrow> whandler option" where
  "handlers s n = map_option ws_handler (ss_ws s n)"

text \<open>A WebSocket has taken a session over from the moment the upgrade switches to it.\<close>

definition took_over :: "session \<Rightarrow> nat \<Rightarrow> bool" where
  "took_over s n \<longleftrightarrow> n \<in> fst ` set (ss_switching s) \<or> handlers s n = Some Bound"

definition ws_dead :: "session \<Rightarrow> nat \<Rightarrow> bool" where
  "ws_dead s n \<longleftrightarrow> (case ss_ws s n of None \<Rightarrow> False | Some w \<Rightarrow> ws_closed w)"

definition healthy :: "session \<Rightarrow> bool" where
  "healthy s \<longleftrightarrow>
     ss_readyState s = StateOpen \<and> (\<forall>n. took_over s n \<longrightarrow> \<not> ws_dead s n)
     \<and> (\<forall>m n. took_over s m \<longrightarrow> took_over s n \<longrightarrow> m = n)"

text \<open>The shape of every session, and of one that is healthy.\<close>

definition shape :: "session \<Rightarrow> bool" where
  "shape s \<longleftrightarrow>
     (\<forall>n\<in>fst ` set (ss_switching s). handlers s n = Some Upgrading) \<and> (ss_sending s \<or> ss_flight s = None)"

definition before_switch :: "session \<Rightarrow> polling \<Rightarrow> bool" where
  "before_switch s p \<longleftrightarrow>
     ss_transport s = Some TPolling \<and> \<not> ss_upgraded s \<and> ss_switching s = [] \<and> \<not> pl_closed p
     \<and> (\<forall>n. \<not> took_over s n) \<and> (\<forall>t ps. ss_flight s = Some (t, ps) \<longrightarrow> t = TPolling)"

definition in_switch :: "session \<Rightarrow> polling \<Rightarrow> nat \<Rightarrow> bool" where
  "in_switch s p n \<longleftrightarrow>
     ss_transport s = Some (TWebsocket n) \<and> ss_upgraded s \<and> \<not> ss_upgrading s \<and> ss_switching s = [(n, Some TPolling)]
     \<and> \<not> pl_closed p \<and> (\<forall>t ps. ss_flight s = Some (t, ps) \<longrightarrow> t = TPolling \<or> t = TWebsocket n)"

definition after_switch :: "session \<Rightarrow> nat \<Rightarrow> bool" where
  "after_switch s n \<longleftrightarrow>
     ss_transport s = Some (TWebsocket n) \<and> ss_upgraded s \<and> \<not> ss_upgrading s \<and> ss_switching s = []
     \<and> handlers s n = Some Bound \<and> (\<forall>t ps. ss_flight s = Some (t, ps) \<longrightarrow> t = TWebsocket n)"

definition routed :: "session \<Rightarrow> bool" where
  "routed s \<longleftrightarrow>
     (\<exists>p. ss_polling s = Some p \<and> \<not> pl_pendingClose p \<and> \<not> pl_closeTimer p
        \<and> (before_switch s p \<or> (\<exists>n. in_switch s p n) \<or> (\<exists>n. after_switch s n)))"

text \<open>
  Steps that keep the shape, and that neither lose nor repeat a packet when the session is
  healthy afterwards.
\<close>

definition ss_inv :: "session \<Rightarrow> bool" where
  "ss_inv s \<longleftrightarrow> shape s \<and> (healthy s \<longrightarrow> routed s)"

definition balanced :: "session \<Rightarrow> eio_effect list \<Rightarrow> session \<Rightarrow> bool" where
  "balanced s es s' \<longleftrightarrow> healthy s \<and> waiting s' + delivered es = waiting s + accepted es"

definition keeps_at :: "eio_step \<Rightarrow> session \<Rightarrow> bool" where
  "keeps_at f s \<longleftrightarrow>
     (ss_inv s \<longrightarrow> ss_inv (fst (f s)) \<and> (healthy (fst (f s)) \<longrightarrow> balanced s (snd (f s)) (fst (f s))))"

definition keeps :: "eio_step \<Rightarrow> bool" where
  "keeps f \<longleftrightarrow> (\<forall>s. keeps_at f s)"

named_theorems keeps_intros \<open>steps that neither lose nor repeat packets\<close>

lemma keeps_Nil [keeps_intros]: "keeps (run_all [])"
  by (simp add: keeps_def keeps_at_def balanced_def)

lemma keeps_at_Cons:
  assumes "keeps_at f s" and "keeps_at (run_all fs) (fst (f s))"
  shows "keeps_at (run_all (f # fs)) s"
  using assms by (auto simp: keeps_at_def balanced_def case_prod_beta ac_simps)

lemma keeps_Cons [keeps_intros]: "keeps f \<Longrightarrow> keeps (run_all fs) \<Longrightarrow> keeps (run_all (f # fs))"
  using keeps_at_Cons unfolding keeps_def by blast

section \<open>Steps that touch none of this\<close>

definition pview :: "polling \<Rightarrow> bool \<times> bool \<times> bool \<times> Packet list" where
  "pview p = (pl_closed p, pl_pendingClose p, pl_closeTimer p, pl_sendBuffer p)"

definition view where
  "view s = (ss_transport s, handlers s, ss_switching s, ss_upgraded s, ss_writeBuffer s, ss_flight s, ss_sending s,
     map_option pview (ss_polling s))"

lemma view_simps:
  assumes "view s' = view s"
  shows "shape s' = shape s" "took_over s' = took_over s" "waiting s' = waiting s"
    "(ss_upgrading s' \<Longrightarrow> ss_upgrading s) \<Longrightarrow> routed s \<Longrightarrow> routed s'"
proof -
  have f: "ss_transport s' = ss_transport s" "handlers s' = handlers s" "ss_switching s' = ss_switching s"
    "ss_upgraded s' = ss_upgraded s" "ss_writeBuffer s' = ss_writeBuffer s" "ss_flight s' = ss_flight s"
    "ss_sending s' = ss_sending s" "map_option pview (ss_polling s') = map_option pview (ss_polling s)"
    using assms by (simp_all add: view_def)
  show t: "took_over s' = took_over s"
    by (simp add: took_over_def f fun_eq_iff)
  show "shape s' = shape s"
    by (simp add: shape_def f)
  show "waiting s' = waiting s"
    using f(8) by (cases "ss_polling s"; cases "ss_polling s'") (auto simp: waiting_def f(5,6) pview_def)
  assume u: "ss_upgrading s' \<Longrightarrow> ss_upgrading s" and "routed s"
  then obtain p where p: "ss_polling s = Some p" "\<not> pl_pendingClose p" "\<not> pl_closeTimer p"
    "before_switch s p \<or> (\<exists>n. in_switch s p n) \<or> (\<exists>n. after_switch s n)"
    unfolding routed_def by blast
  obtain p' where p': "ss_polling s' = Some p'" "pview p' = pview p"
    using f(8) p(1) by auto
  have "before_switch s p \<Longrightarrow> before_switch s' p'" "in_switch s p n \<Longrightarrow> in_switch s' p' n"
    "after_switch s n \<Longrightarrow> after_switch s' n" for n
    using p'(2) u by (auto simp: before_switch_def in_switch_def after_switch_def f t pview_def)
  then show "routed s'"
    using p p' unfolding routed_def by (auto simp: pview_def)
qed

lemma keeps_at_quiet:
  assumes "view (fst (f s)) = view s" and "\<And>n. ws_dead s n \<Longrightarrow> ws_dead (fst (f s)) n"
    and "ss_readyState (fst (f s)) = StateOpen \<Longrightarrow> ss_readyState s = StateOpen"
    and "ss_upgrading (fst (f s)) \<Longrightarrow> ss_upgrading s"
    and "accepted (snd (f s)) = {#}" and "delivered (snd (f s)) = {#}"
  shows "keeps_at f s"
proof -
  have "healthy (fst (f s)) \<Longrightarrow> healthy s"
    unfolding healthy_def view_simps(2) [OF assms(1)] using assms(2,3) by blast
  then show ?thesis
    using view_simps [OF assms(1)] assms(4-6) by (simp add: keeps_at_def ss_inv_def balanced_def)
qed

lemma handlers_simps [simp]:
  "handlers (s\<lparr>ss_readyState := a\<rparr>) = handlers s" "handlers (s\<lparr>ss_ticking := b\<rparr>) = handlers s"
  "handlers (s\<lparr>ss_upgrading := c\<rparr>) = handlers s" "handlers (s\<lparr>ss_pinging := d\<rparr>) = handlers s"
  "handlers (s\<lparr>ss_timers := e\<rparr>) = handlers s" "handlers (s\<lparr>ss_polling := f\<rparr>) = handlers s"
  "handlers (s\<lparr>ss_flight := g\<rparr>) = handlers s" "handlers (s\<lparr>ss_sending := h\<rparr>) = handlers s"
  "handlers (s\<lparr>ss_writeBuffer := i\<rparr>) = handlers s" "handlers (s\<lparr>ss_switching := j\<rparr>) = handlers s"
  "handlers (stop_timer t s) = handlers s" "handlers (start_interval s) = handlers s"
  "handlers (start_timeout s) = handlers s" "handlers (stop_upgrade_timer n s) = handlers s"
  "handlers (map_polling q s) = handlers s" "handlers (flush_begin s) = handlers s"
  "handlers (ws_Discard n s) = handlers s" "handlers (fst (ws_Close n s)) = handlers s"
  "handlers (map_ws n (\<lambda>w. w\<lparr>ws_writable := v\<rparr>) s) = handlers s"
  by (auto simp: handlers_def fun_eq_iff ws_Discard_def ws_Close_def option.map_comp comp_def split: option.split)

lemma ws_dead_simps [simp]:
  "ws_dead (s\<lparr>ss_readyState := a\<rparr>) = ws_dead s" "ws_dead (s\<lparr>ss_ticking := b\<rparr>) = ws_dead s"
  "ws_dead (s\<lparr>ss_upgrading := c\<rparr>) = ws_dead s" "ws_dead (s\<lparr>ss_pinging := d\<rparr>) = ws_dead s"
  "ws_dead (s\<lparr>ss_timers := e\<rparr>) = ws_dead s" "ws_dead (s\<lparr>ss_polling := f\<rparr>) = ws_dead s"
  "ws_dead (s\<lparr>ss_flight := g\<rparr>) = ws_dead s" "ws_dead (s\<lparr>ss_sending := h\<rparr>) = ws_dead s"
  "ws_dead (s\<lparr>ss_writeBuffer := i\<rparr>) = ws_dead s" "ws_dead (s\<lparr>ss_switching := j\<rparr>) = ws_dead s"
  "ws_dead (stop_timer t s) = ws_dead s" "ws_dead (start_interval s) = ws_dead s"
  "ws_dead (start_timeout s) = ws_dead s" "ws_dead (stop_upgrade_timer n s) = ws_dead s"
  "ws_dead (map_polling q s) = ws_dead s" "ws_dead (flush_begin s) = ws_dead s"
  "ws_dead (ws_Discard n s) = ws_dead s"
  "ws_dead (map_ws n (\<lambda>w. w\<lparr>ws_writable := v\<rparr>) s) = ws_dead s"
  by (auto simp: ws_dead_def fun_eq_iff ws_Discard_def split: option.split)

lemma ws_dead_Close: "ws_dead (fst (ws_Close n s)) m \<longleftrightarrow> ws_dead s m \<or> m = n \<and> ss_ws s n \<noteq> None"
  by (auto simp: ws_dead_def ws_Close_def split: option.split)

lemma view_polling: "view (s\<lparr>ss_polling := q\<rparr>) = view s \<longleftrightarrow> map_option pview q = map_option pview (ss_polling s)"
  by (simp add: view_def)

section \<open>Closing\<close>

text \<open>A step after which the session is not open has nothing to show but the shape.\<close>

definition hshape :: "session \<Rightarrow> (nat \<Rightarrow> whandler option) \<times> (nat \<times> tport option) list \<times> bool \<times> bool" where
  "hshape s = (handlers s, ss_switching s, ss_flight s = None, ss_sending s)"

lemma hshape_shape: "hshape s' = hshape s \<Longrightarrow> shape s' = shape s"
  by (auto simp: hshape_def shape_def)

lemma keeps_at_close:
  assumes "hshape (fst (f s)) = hshape s" and "ss_readyState (fst (f s)) \<noteq> StateOpen"
  shows "keeps_at f s"
  using assms(2) by (simp add: keeps_at_def ss_inv_def healthy_def hshape_shape [OF assms(1)])

lemma ws_Discard_fields [simp]: "ss_switching (ws_Discard n s) = ss_switching s" "ss_flight (ws_Discard n s) = ss_flight s"
  "ss_sending (ws_Discard n s) = ss_sending s" "ss_polling (ws_Discard n s) = ss_polling s"
  "ss_readyState (ws_Discard n s) = ss_readyState s"
  by (simp_all add: ws_Discard_def)

lemma hshape_simps [simp]:
  "hshape (s\<lparr>ss_readyState := a\<rparr>) = hshape s" "hshape (stop_timer t s) = hshape s"
  "hshape (fst (ws_Close n s)) = hshape s" "hshape (t_Discard tp s) = hshape s"
  "hshape (fst (close_discarded tp s)) = hshape s"
  by (simp_all add: hshape_def t_Discard_def close_discarded_def run_polling_def case_prod_beta
      split: tport.split option.split)

lemma keeps_if [keeps_intros]: "keeps f \<Longrightarrow> keeps g \<Longrightarrow> keeps (\<lambda>s. if P s then f s else g s)"
  unfolding keeps_def keeps_at_def by (simp split: if_split)

lemma keeps_case_option [keeps_intros]:
  "keeps f \<Longrightarrow> (\<And>x. keeps (g x)) \<Longrightarrow> keeps (\<lambda>s. case h s of None \<Rightarrow> f s | Some x \<Rightarrow> g x s)"
  unfolding keeps_def keeps_at_def by (simp split: option.split)

lemma keeps_case_whandler [keeps_intros]:
  "keeps f \<Longrightarrow> keeps g \<Longrightarrow> keeps k \<Longrightarrow> keeps (\<lambda>s. case h s of NoHandler \<Rightarrow> f s | Bound \<Rightarrow> g s | Upgrading \<Rightarrow> k s)"
  unfolding keeps_def keeps_at_def by (simp split: whandler.split)

lemma keeps_append: "keeps (run_all fs) \<Longrightarrow> keeps (run_all gs) \<Longrightarrow> keeps (run_all (fs @ gs))"
  using keeps_Cons [of "run_all fs" "[run_all gs]"] keeps_Cons [of "run_all gs" "[]"] keeps_Nil
  by (simp add: run_all_append case_prod_beta keeps_def keeps_at_def)

lemma keeps_self [keeps_intros]: "keeps (\<lambda>s. (s, []))"
  unfolding keeps_def by (intro allI keeps_at_quiet) simp_all

lemma keeps_perform: "accepted es = {#} \<Longrightarrow> delivered es = {#} \<Longrightarrow> keeps (perform es)"
  unfolding keeps_def by (intro allI keeps_at_quiet) (simp_all add: perform_def)

lemma keeps_closeWithReason [keeps_intros]: "keeps (closeWithReason reason err)"
  unfolding keeps_def
  by (intro allI keeps_at_close) (simp_all add: closeWithReason_def discard_transport_def modify_def perform_def
      case_prod_beta split: option.split)

lemma keeps_onErrorFrom [keeps_intros]: "keeps (onErrorFrom t err)"
  unfolding onErrorFrom_def by (intro keeps_intros)

lemma keeps_onCloseFrom [keeps_intros]: "keeps (onCloseFrom t)"
  unfolding onCloseFrom_def by (intro keeps_intros)

lemma keeps_ws_Close [keeps_intros]: "keeps (ws_Close n)"
  unfolding keeps_def
proof (intro allI keeps_at_quiet)
  fix s
  show "view (fst (ws_Close n s)) = view s"
    by (simp add: view_def)
  show "accepted (snd (ws_Close n s)) = {#}" "delivered (snd (ws_Close n s)) = {#}"
    by (simp_all add: ws_Close_def split: option.split)
qed (simp_all add: ws_dead_Close)

section \<open>Receiving\<close>

lemma keeps_timers [keeps_intros]: "(\<And>s. view (f s) = view s) \<Longrightarrow> (\<And>s. ws_dead (f s) = ws_dead s)
    \<Longrightarrow> (\<And>s. ss_readyState (f s) = ss_readyState s) \<Longrightarrow> (\<And>s. ss_upgrading (f s) \<Longrightarrow> ss_upgrading s)
    \<Longrightarrow> keeps (\<lambda>s. (f s, []))"
  unfolding keeps_def by (intro allI keeps_at_quiet) simp_all

lemma keeps_modify: "keeps (\<lambda>s. (f s, [])) \<Longrightarrow> keeps (modify f)"
  by (simp add: modify_def [abs_def])

lemma view_timers [simp]: "view (stop_timer t s) = view s" "view (start_interval s) = view s" "view (start_timeout s) = view s"
  "view (stop_upgrade_timer n s) = view s" "view (s\<lparr>ss_ticking := b\<rparr>) = view s" "view (s\<lparr>ss_upgrading := c\<rparr>) = view s"
  "view (s\<lparr>ss_pinging := d\<rparr>) = view s" "view (s\<lparr>ss_timers := e\<rparr>) = view s"
  "view (map_ws n (\<lambda>w. w\<lparr>ws_writable := v\<rparr>) s) = view s"
  by (simp_all add: view_def)

lemma keeps_onPacket [keeps_intros]: "keeps (onPacket p)"
proof -
  have "keeps (\<lambda>s. (start_interval (stop_timer (ss_interval s) (stop_timer (ss_timeout s) s)), []))"
    by (rule keeps_timers) simp_all
  moreover have "keeps (\<lambda>s. (s, [DataCb d b]))" for d b
    unfolding keeps_def by (intro allI keeps_at_quiet) simp_all
  moreover note keeps_self keeps_closeWithReason
  ultimately show ?thesis
    unfolding keeps_def keeps_at_def by (cases "pkt_Type p") (simp_all add: onPacket_def)
qed

fun answers :: "act \<Rightarrow> bool" where
  "answers (PollReply r ps) = True"
| "answers _ = False"

lemma keeps_dispatch: "\<not> answers a \<Longrightarrow> keeps (dispatch a)"
  by (cases a) (auto simp: dispatch_def intro!: keeps_intros keeps_perform)

lemma keeps_acts: "list_all (\<lambda>a. \<not> answers a) as \<Longrightarrow> keeps (run_all (map dispatch as))"
  by (induction as) (auto simp del: run_all.simps intro: keeps_intros keeps_dispatch)

lemma keeps_polling_call:
  assumes "\<And>p. pview (fst (f p)) = pview p" and "\<And>p. list_all (\<lambda>a. \<not> answers a) (snd (f p))"
  shows "keeps (polling_call f)"
  unfolding keeps_def
proof
  fix s
  show "keeps_at (polling_call f) s"
  proof (cases "ss_polling s")
    case (Some p)
    have "keeps_at (modify (\<lambda>s. s\<lparr>ss_polling := Some (fst (f p))\<rparr>)) s"
      by (rule keeps_at_quiet) (use Some assms(1) in \<open>simp_all add: modify_def view_polling\<close>)
    moreover have "keeps (run_all (map dispatch (snd (f p))))"
      using assms(2) by (rule keeps_acts)
    ultimately have "keeps_at (run_all (modify (\<lambda>s. s\<lparr>ss_polling := Some (fst (f p))\<rparr>) # map dispatch (snd (f p)))) s"
      using keeps_at_Cons unfolding keeps_def by blast
    then show ?thesis
      using Some by (simp add: keeps_at_def polling_call_def run_polling_def case_prod_beta modify_def)
  qed (simp add: polling_call_def run_polling_def keeps_at_def balanced_def)
qed

lemma keeps_poll_aborted: "keeps (polling_call (poll_aborted r))"
  by (rule keeps_polling_call) (simp_all add: poll_aborted_def pview_def)

lemma keeps_data_begin: "keeps (polling_call (data_begin r))"
  by (rule keeps_polling_call) (simp_all add: data_begin_def pview_def)

lemma data_acts_no_answer: "list_all (\<lambda>a. \<not> answers a) (data_acts r rq mx)"
  by (auto simp: data_acts_def Let_def list_all_iff split: sum.split prod.split option.split)

lemma keeps_onDataRequest: "keeps (onDataRequest r rq)"
proof -
  have "keeps (run_all (map dispatch (data_acts r rq mx) @ [modify (map_polling data_end)]))" for mx
    by (intro keeps_append keeps_acts data_acts_no_answer keeps_intros keeps_modify keeps_timers)
      (simp_all add: view_def map_polling_def option.map_comp comp_def data_end_def pview_def [abs_def])
  then show ?thesis
    unfolding onDataRequest_def by (intro keeps_intros)
qed

section \<open>Steps that can only make a session less healthy\<close>

definition less_healthy :: "session \<Rightarrow> session \<Rightarrow> bool" where
  "less_healthy s' s \<longleftrightarrow>
     hshape s' = hshape s \<and> (ss_readyState s' = StateOpen \<longrightarrow> ss_readyState s = StateOpen)
     \<and> (\<forall>n. ws_dead s n \<longrightarrow> ws_dead s' n)"

definition calm :: "eio_step \<Rightarrow> bool" where
  "calm f \<longleftrightarrow> (\<forall>s. less_healthy (fst (f s)) s)"

lemma less_healthy_refl [simp]: "less_healthy s s"
  by (simp add: less_healthy_def)

lemma less_healthy_trans: "less_healthy s'' s' \<Longrightarrow> less_healthy s' s \<Longrightarrow> less_healthy s'' s"
  unfolding less_healthy_def by metis

named_theorems calm_intros \<open>steps that can only make a session less healthy\<close>

lemma less_healthyD:
  assumes "less_healthy s' s"
  shows "shape s' = shape s" "healthy s' \<Longrightarrow> healthy s" "ss_flight s' = None \<longleftrightarrow> ss_flight s = None"
    "ss_sending s' = ss_sending s" "took_over s' = took_over s"
proof -
  have c: "hshape s' = hshape s" "ss_readyState s' = StateOpen \<Longrightarrow> ss_readyState s = StateOpen"
    "\<And>n. ws_dead s n \<Longrightarrow> ws_dead s' n"
    using assms unfolding less_healthy_def by blast+
  show "shape s' = shape s"
    by (rule hshape_shape [OF c(1)])
  show t: "took_over s' = took_over s"
    using c(1) by (simp add: hshape_def took_over_def [abs_def])
  show "healthy s' \<Longrightarrow> healthy s"
    unfolding healthy_def t using c(2,3) by blast
  show "ss_flight s' = None \<longleftrightarrow> ss_flight s = None" "ss_sending s' = ss_sending s"
    using c(1) by (simp_all add: hshape_def)
qed

lemma calmD: "calm f \<Longrightarrow> less_healthy (fst (f s)) s"
  by (simp add: calm_def)

lemma calm_Nil [calm_intros]: "calm (run_all [])"
  by (simp add: calm_def)

lemma calm_Cons [calm_intros]: "calm f \<Longrightarrow> calm (run_all fs) \<Longrightarrow> calm (run_all (f # fs))"
  unfolding calm_def by (auto simp: case_prod_beta intro: less_healthy_trans)

lemma calm_if [calm_intros]: "calm f \<Longrightarrow> calm g \<Longrightarrow> calm (\<lambda>s. if P s then f s else g s)"
  unfolding calm_def by (simp split: if_split)

lemma calm_self [calm_intros]: "calm (\<lambda>s. (s, []))"
  by (simp add: calm_def)

lemma calm_perform [calm_intros]: "calm (perform es)"
  by (simp add: calm_def perform_def)

lemma calm_case_option [calm_intros]:
  "calm f \<Longrightarrow> (\<And>x. calm (g x)) \<Longrightarrow> calm (\<lambda>s. case h s of None \<Rightarrow> f s | Some x \<Rightarrow> g x s)"
  unfolding calm_def by (simp split: option.split)

lemma calm_modify [calm_intros]:
  "(\<And>s. hshape (f s) = hshape s) \<Longrightarrow> (\<And>s. ss_readyState (f s) = StateOpen \<Longrightarrow> ss_readyState s = StateOpen)
    \<Longrightarrow> (\<And>s. ws_dead (f s) = ws_dead s) \<Longrightarrow> calm (modify f)"
  by (simp add: calm_def modify_def less_healthy_def)

lemma hshape_timers [simp]: "hshape (start_interval s) = hshape s" "hshape (stop_upgrade_timer n s) = hshape s"
  "hshape (s\<lparr>ss_ticking := b\<rparr>) = hshape s" "hshape (s\<lparr>ss_upgrading := c\<rparr>) = hshape s" "hshape (s\<lparr>ss_polling := d\<rparr>) = hshape s"
  by (simp_all add: hshape_def)

lemma ws_dead_t_Discard [simp]: "ws_dead (t_Discard t s) = ws_dead s"
  by (simp add: t_Discard_def split: tport.split)

lemma calm_close_discarded [calm_intros]: "calm (close_discarded t)"
  by (simp add: calm_def less_healthy_def close_discarded_def case_prod_beta ws_dead_Close run_polling_def split: tport.split option.split)

lemma calm_closeWithReason [calm_intros]: "calm (closeWithReason reason err)"
  unfolding closeWithReason_def discard_transport_def
  by (intro calm_intros; simp)

lemma calm_onErrorFrom [calm_intros]: "calm (onErrorFrom t err)"
  unfolding onErrorFrom_def by (intro calm_intros)

lemma calm_onCloseFrom [calm_intros]: "calm (onCloseFrom t)"
  unfolding onCloseFrom_def by (intro calm_intros)

lemma calm_onPacket [calm_intros]: "calm (onPacket p)"
proof -
  have "calm (\<lambda>s. (start_interval (stop_timer (ss_interval s) (stop_timer (ss_timeout s) s)), []))"
    "calm (\<lambda>s. (s, [DataCb d b]))" for d b
    by (simp_all add: calm_def less_healthy_def)
  then have "calm (\<lambda>s. case pkt_Type p of
      Pong \<Rightarrow> (start_interval (stop_timer (ss_interval s) (stop_timer (ss_timeout s) s)), [])
    | Ping \<Rightarrow> closeWithReason ''invalid heartbeat direction'' None s
    | Message \<Rightarrow> (s, [DataCb (pkt_Data p) (pkt_IsBinary p)])
    | Close \<Rightarrow> closeWithReason ''client close'' None s
    | _ \<Rightarrow> (s, []))"
    by (cases "pkt_Type p") (simp_all add: calm_closeWithReason calm_self)
  then show ?thesis
    unfolding onPacket_def by (intro calm_if calm_self)
qed

lemma calm_dispatch: "calm (dispatch a)"
  by (cases a) (auto simp: dispatch_def intro: calm_intros)

lemma calm_acts: "calm (run_all (map dispatch as))"
  by (induction as) (auto simp del: run_all.simps intro: calm_intros calm_dispatch)

lemma calm_polling_call [calm_intros]: "calm (polling_call f)"
  unfolding calm_def
proof
  fix s
  let ?s = "fst (run_polling f s)"
  have "less_healthy ?s s"
    by (simp add: less_healthy_def run_polling_def case_prod_beta split: option.split)
  moreover have "less_healthy (fst (polling_call f s)) ?s"
    using calm_acts [of "snd (run_polling f s)"] by (simp add: calm_def polling_call_def case_prod_beta)
  ultimately show "less_healthy (fst (polling_call f s)) s"
    using less_healthy_trans by blast
qed

lemma calm_abort_upgrade [calm_intros]: "calm (abort_upgrade n)"
  by (simp add: calm_def less_healthy_def abort_upgrade_def modify_def case_prod_beta ws_dead_Close)

lemma abort_upgrade_dead: "ss_ws s n \<noteq> None \<Longrightarrow> ws_dead (fst (abort_upgrade n s)) n"
  by (simp add: abort_upgrade_def modify_def case_prod_beta ws_dead_Close stop_upgrade_timer_def)

section \<open>Sending\<close>

lemma keeps_flush_begin [keeps_intros]: "keeps (\<lambda>s. (flush_begin s, []))"
  unfolding keeps_def
proof
  fix s
  show "keeps_at (\<lambda>s. (flush_begin s, [])) s"
  proof (cases "flush_begin s = s")
    case False
    then obtain t where t: "ss_transport s = Some t" "\<not> ss_sending s"
      "flush_begin s = s\<lparr>ss_flight := Some (t, ss_writeBuffer s), ss_writeBuffer := [], ss_sending := True\<rparr>"
      by (auto simp: flush_begin_def split: if_splits option.splits)
    have h: "took_over (flush_begin s) = took_over s" "healthy (flush_begin s) = healthy s"
      by (simp_all add: took_over_def [abs_def] healthy_def)
    have fb: "ss_flight (flush_begin s) = Some (t, ss_writeBuffer s)"
      by (simp add: t(3))
    have fl: "ss_flight s = None" if "shape s"
      using that t(2) by (simp add: shape_def)
    have "shape (flush_begin s)" if "shape s"
      using that by (simp add: shape_def t(3))
    moreover have "waiting (flush_begin s) = waiting s" if "shape s"
      using fl [OF that] by (simp add: t(3) waiting_def)
    moreover have "routed (flush_begin s)" if "routed s"
    proof -
      from that obtain p where p: "ss_polling s = Some p" "\<not> pl_pendingClose p" "\<not> pl_closeTimer p"
        "before_switch s p \<or> (\<exists>n. in_switch s p n) \<or> (\<exists>n. after_switch s n)"
        unfolding routed_def by blast
      have "before_switch s p \<Longrightarrow> before_switch (flush_begin s) p" "in_switch s p n \<Longrightarrow> in_switch (flush_begin s) p n"
        "after_switch s n \<Longrightarrow> after_switch (flush_begin s) n" for n
        using t(1) fb by (simp_all add: before_switch_def in_switch_def after_switch_def h)
      then show ?thesis
        using p unfolding routed_def by (auto simp: flush_begin_fields)
    qed
    ultimately show ?thesis
      by (simp add: keeps_at_def ss_inv_def h balanced_def)
  qed (simp add: keeps_at_def balanced_def)
qed

text \<open>A batch for this transport will not be lost.\<close>

definition can_carry :: "tport \<Rightarrow> session \<Rightarrow> bool" where
  "can_carry t s \<longleftrightarrow>
     (case t of
        TPolling \<Rightarrow> (case ss_polling s of None \<Rightarrow> False | Some p \<Rightarrow> \<not> pl_closed p)
      | TWebsocket n \<Rightarrow> took_over s n)"

lemma routed_can_carry: "routed s \<Longrightarrow> ss_flight s = Some (t, ps) \<Longrightarrow> can_carry t s"
  by (auto simp: routed_def can_carry_def before_switch_def in_switch_def after_switch_def took_over_def)

lemma routed_polling:
  assumes "routed s" and "ss_polling s = Some p" and "pl_closed p' = pl_closed p"
    "pl_pendingClose p' = pl_pendingClose p" "pl_closeTimer p' = pl_closeTimer p"
  shows "routed (s\<lparr>ss_polling := Some p'\<rparr>)"
proof -
  have "took_over (s\<lparr>ss_polling := Some p'\<rparr>) = took_over s"
    by (simp add: took_over_def [abs_def])
  then show ?thesis
    using assms by (auto simp: routed_def before_switch_def in_switch_def after_switch_def)
qed

lemma healthy_polling [simp]: "healthy (s\<lparr>ss_polling := q\<rparr>) = healthy s"
  by (simp add: healthy_def took_over_def)

text \<open>The polling transport answers a poll, or holds the packets for the next one.\<close>

lemma polling_Send_ok:
  assumes "healthy s" and "routed s" and "can_carry TPolling s" and "polling_call (pl_Send pkts) s = (s', es)"
  shows "routed s'" "waiting s' + delivered es = waiting s + bag pkts" "accepted es = {#}" "can_carry TPolling s'"
proof -
  obtain p where p: "ss_polling s = Some p" "\<not> pl_closed p" "\<not> pl_pendingClose p"
    using assms(2,3) by (auto simp: routed_def can_carry_def)
  obtain p' as where s: "pl_Send pkts p = (p', as)" "s' = s\<lparr>ss_polling := Some p'\<rparr>" "es = concat (map act_effects as)"
    and a: "(as = [] \<and> pl_sendBuffer p' = pl_sendBuffer p @ pkts) \<or> (\<exists>r. as = [PollReply r pkts] \<and> pl_sendBuffer p' = pl_sendBuffer p)"
    and p': "pl_closed p' = pl_closed p" "pl_pendingClose p' = pl_pendingClose p" "pl_closeTimer p' = pl_closeTimer p"
    using assms(4) p(1) pl_Send_unclosed [OF p(2,3), of pkts]
    by (cases "pl_poll p") (auto simp: polling_call_def run_polling_def dispatch_def perform_def)
  show "routed s'"
    unfolding s(2) by (rule routed_polling [OF assms(2) p(1) p'])
  show "waiting s' + delivered es = waiting s + bag pkts" "accepted es = {#}"
    using a p(1) by (auto simp: s waiting_def)
  show "can_carry TPolling s'"
    using p p' by (simp add: s can_carry_def)
qed

lemma took_over_handler:
  assumes "shape s" and "took_over s n"
  shows "handlers s n = Some Upgrading \<or> handlers s n = Some Bound"
  using assms by (auto simp: shape_def took_over_def)

lemma routedE:
  assumes "routed s"
  obtains (before) p where "ss_polling s = Some p" "\<not> pl_pendingClose p" "\<not> pl_closeTimer p" "before_switch s p"
    | (during) p n where "ss_polling s = Some p" "\<not> pl_pendingClose p" "\<not> pl_closeTimer p" "in_switch s p n"
    | (after) p n where "ss_polling s = Some p" "\<not> pl_pendingClose p" "\<not> pl_closeTimer p" "after_switch s n"
  using assms unfolding routed_def by blast

lemma same_took_over: "healthy s \<Longrightarrow> took_over s m \<Longrightarrow> took_over s n \<Longrightarrow> m = n"
  unfolding healthy_def by blast

lemma routed_active:
  assumes "healthy s" and "routed s" and "took_over s n"
  shows "ss_transport s = Some (TWebsocket n) \<and> \<not> ss_upgrading s"
  using assms(2)
proof (cases rule: routedE)
  case (before p)
  then show ?thesis
    using assms(3) by (simp add: before_switch_def)
next
  case (during p m)
  then have "took_over s m"
    by (simp add: in_switch_def took_over_def)
  then have "m = n"
    using same_took_over assms(1,3) by blast
  then show ?thesis
    using during by (simp add: in_switch_def)
next
  case (after p m)
  then have "took_over s m"
    by (simp add: after_switch_def took_over_def)
  then have "m = n"
    using same_took_over assms(1,3) by blast
  then show ?thesis
    using after by (simp add: after_switch_def)
qed

text \<open>A write that fails leaves the session closed or the WebSocket dead.\<close>

lemma flush_begin_sending [simp]: "ss_sending s \<Longrightarrow> flush_begin s = s"
  by (simp add: flush_begin_def)

lemma send_failed_calm:
  assumes "ss_sending s"
  shows "less_healthy (fst (send_failed n err s)) s"
proof -
  have "less_healthy (fst (onErrorFrom (TWebsocket n) err s)) s" "less_healthy (fst (abort_upgrade n s)) s"
    using calm_onErrorFrom calm_abort_upgrade by (auto simp: calm_def)
  moreover have "ss_sending (fst (abort_upgrade n s))"
    using less_healthyD(4) [OF calmD [OF calm_abort_upgrade]] assms by simp
  ultimately show ?thesis
    by (auto simp: send_failed_def modify_def case_prod_beta split: option.split whandler.split)
qed

lemma send_failed_cases:
  "send_failed n err s =
     (case handlers s n of
        Some Bound \<Rightarrow> onErrorFrom (TWebsocket n) err s
      | Some Upgrading \<Rightarrow> run_all [abort_upgrade n, modify flush_begin] s
      | _ \<Rightarrow> (s, []))"
  by (simp add: send_failed_def handlers_def)

lemma send_failed_unhealthy:
  assumes "ss_inv s" and "ss_sending s" and "healthy s" and "took_over s n"
  shows "\<not> healthy (fst (send_failed n err s))"
proof -
  have r: "routed s" "shape s"
    using assms by (simp_all add: ss_inv_def)
  note a = routed_active [OF assms(3) r(1) assms(4)]
  have "handlers s n = Some Upgrading \<or> handlers s n = Some Bound"
    by (rule took_over_handler [OF r(2) assms(4)])
  then show ?thesis
  proof
    assume h: "handlers s n = Some Upgrading"
    have "ws_dead (fst (abort_upgrade n s)) n"
      using h by (intro abort_upgrade_dead) (auto simp: handlers_def)
    moreover have "took_over (fst (abort_upgrade n s)) n" "ss_sending (fst (abort_upgrade n s))"
      using less_healthyD(4,5) [OF calmD [OF calm_abort_upgrade]] assms(2,4) by simp_all
    ultimately show ?thesis
      using h by (auto simp: send_failed_cases modify_def case_prod_beta healthy_def)
  next
    assume "handlers s n = Some Bound"
    then show ?thesis
      using a by (simp add: send_failed_cases onErrorFrom_def healthy_def)
  qed
qed

lemma view_less_healthy:
  assumes "view s' = view s" and "ss_readyState s' = ss_readyState s" and "ws_dead s' = ws_dead s"
  shows "less_healthy s' s"
  using assms by (simp add: less_healthy_def view_def hshape_def)

lemma Frame_bags [simp]: "delivered (map (Frame n) ps) = bag ps" "accepted (map (Frame n) ps) = {#}"
  by (induction ps) simp_all

definition carries :: "Packet list \<Rightarrow> session \<Rightarrow> eio_effect list \<Rightarrow> session \<Rightarrow> bool" where
  "carries pkts s es s' \<longleftrightarrow>
     less_healthy s' s
     \<and> (healthy s' \<longrightarrow> routed s' \<and> waiting s' + delivered es = waiting s + bag pkts \<and> accepted es = {#}
          \<and> (can_carry TPolling s \<longrightarrow> can_carry TPolling s'))"

lemma ws_Send_ok:
  assumes "ss_inv s" and "ss_sending s" and "healthy s \<Longrightarrow> took_over s n" and "t_Send (TWebsocket n) pkts w s = (s', es)"
  shows "carries pkts s es s'"
proof -
  obtain fs e where f: "ws_frames n pkts w = (fs, e)"
    by fastforce
  consider "pkts = []" | "pkts \<noteq> []" "e = None" | err where "pkts \<noteq> []" "e = Some err"
    by (cases e) auto
  then show ?thesis
  proof cases
    case 1
    then show ?thesis
      using assms by (simp add: t_Send_def perform_def carries_def ss_inv_def)
  next
    case 2
    let ?s = "map_ws n (\<lambda>w. w\<lparr>ws_writable := True\<rparr>) s"
    have v: "view ?s = view s" and u: "ss_upgrading ?s = ss_upgrading s"
      by simp_all
    have l: "less_healthy ?s s"
      by (rule view_less_healthy [OF v]) simp_all
    have fs: "fs = map (Frame n) pkts"
      using f 2 by (auto simp: ws_frames_def split: option.splits if_splits)
    have "s' = ?s" "es = fs"
      using assms(2,4) f 2 by (simp_all add: t_Send_def perform_def modify_def)
    then show ?thesis
      using l less_healthyD(2) [OF l] view_simps(3,4) [OF v] u assms(1) by (simp add: carries_def fs ss_inv_def can_carry_def)
  next
    case 3
    have s': "s' = fst (send_failed n err s)"
      using assms(4) f 3 by (simp add: t_Send_def perform_def case_prod_beta)
    have l: "less_healthy s' s"
      unfolding s' by (rule send_failed_calm [OF assms(2)])
    have "\<not> healthy s'"
      using send_failed_unhealthy [OF assms(1,2) _ assms(3)] less_healthyD(2) [OF l] s' by blast
    then show ?thesis
      using l by (simp add: carries_def)
  qed
qed

lemma t_Send_ok:
  assumes "ss_inv s" and "ss_sending s" and "healthy s \<Longrightarrow> can_carry t s" and "t_Send t pkts w s = (s', es)"
  shows "carries pkts s es s'"
proof (cases t)
  case TPolling
  have c: "polling_call (pl_Send pkts) s = (s', es)"
    using assms(4) TPolling by (simp add: t_Send_def)
  have l: "less_healthy s' s"
    using calmD [OF calm_polling_call, of "pl_Send pkts" s] c by simp
  have "routed s' \<and> waiting s' + delivered es = waiting s + bag pkts \<and> accepted es = {#} \<and> can_carry TPolling s'"
    if "healthy s'"
  proof -
    have h: "healthy s"
      using less_healthyD(2) [OF l] that by blast
    then have "routed s" "can_carry TPolling s"
      using assms(1,3) TPolling by (simp_all add: ss_inv_def)
    from polling_Send_ok [OF h this c] show ?thesis
      by blast
  qed
  with l show ?thesis
    by (simp add: carries_def)
next
  case (TWebsocket n)
  then show ?thesis
    using assms(3,4) by (intro ws_Send_ok [OF assms(1,2), of n]) (simp_all add: can_carry_def)
qed

lemma healthy_sending [simp]:
  "healthy (s\<lparr>ss_flight := f\<rparr>) = healthy s" "healthy (s\<lparr>ss_sending := b\<rparr>) = healthy s"
  "healthy (s\<lparr>ss_writeBuffer := ps\<rparr>) = healthy s"
  by (simp_all add: healthy_def took_over_def)

lemma routed_mono:
  assumes "routed s" and "ss_polling s' = ss_polling s" and "\<And>p. before_switch s p \<Longrightarrow> before_switch s' p"
    and "\<And>p n. in_switch s p n \<Longrightarrow> in_switch s' p n" and "\<And>n. after_switch s n \<Longrightarrow> after_switch s' n"
  shows "routed s'"
  using assms(1,3-5) unfolding routed_def assms(2) by blast

lemma routed_flight: "routed s \<Longrightarrow> routed (s\<lparr>ss_flight := None\<rparr>)"
  by (rule routed_mono) (auto simp: before_switch_def in_switch_def after_switch_def took_over_def)

lemma routed_sending [simp]: "routed (s\<lparr>ss_sending := b\<rparr>) = routed s" "routed (s\<lparr>ss_writeBuffer := ps\<rparr>) = routed s"
  by (simp_all add: routed_def before_switch_def in_switch_def after_switch_def took_over_def)

lemma shape_flight: "ss_flight s \<noteq> None \<Longrightarrow> shape s \<Longrightarrow> ss_sending s \<and> shape (s\<lparr>ss_flight := None\<rparr>)"
  by (auto simp: shape_def)

text \<open>The part of \<open>flush_end\<close> that hands the batch over.\<close>

definition hand_over :: "writes \<Rightarrow> tport \<Rightarrow> Packet list \<Rightarrow> eio_step" where
  "hand_over w t buf =
     run_all [modify (\<lambda>s. s\<lparr>ss_flight := None\<rparr>), t_Send t buf w, modify (\<lambda>s. s\<lparr>ss_sending := False\<rparr>)]"

lemma hand_over_ok:
  assumes "ss_inv s" and "ss_flight s = Some (t, buf)" and "hand_over w t buf s = (s', es)"
  shows "ss_inv s'" "healthy s' \<Longrightarrow> balanced s es s'" "healthy s' \<Longrightarrow> can_carry TPolling s \<Longrightarrow> can_carry TPolling s'"
    "healthy s' \<Longrightarrow> healthy s"
proof -
  let ?s = "s\<lparr>ss_flight := None\<rparr>"
  obtain s2 where t: "t_Send t buf w ?s = (s2, es)" and s': "s' = s2\<lparr>ss_sending := False\<rparr>"
    using assms(3) by (auto simp: hand_over_def modify_def split: prod.splits)
  have sh: "ss_sending s" "shape ?s"
    using shape_flight [of s] assms(1,2) by (simp_all add: ss_inv_def)
  have inv: "ss_inv ?s"
    using assms(1) sh routed_flight by (simp add: ss_inv_def)
  have cc: "can_carry u ?s = can_carry u s" for u
    by (simp add: can_carry_def took_over_def split: tport.split)
  have c: "carries buf ?s es s2"
    by (rule t_Send_ok [OF inv _ _ t])
      (use sh(1) assms(1) routed_can_carry [OF _ assms(2)] cc in \<open>simp_all add: ss_inv_def\<close>)
  then have l: "less_healthy s2 ?s"
    by (simp add: carries_def)
  show h: "healthy s' \<Longrightarrow> healthy s"
    using less_healthyD(2) [OF l] by (simp add: s')
  have "shape s'"
    using less_healthyD(1,3) [OF l] sh(2) by (simp add: s' shape_def)
  then show "ss_inv s'"
    using c by (simp add: ss_inv_def s' carries_def)
  have w: "waiting s' = waiting s2" "waiting s = waiting ?s + bag buf"
    using assms(2) by (simp_all add: s' waiting_def ac_simps)
  show "balanced s es s'" if "healthy s'"
    using c that h [OF that] unfolding balanced_def w by (simp add: carries_def s')
  show "can_carry TPolling s'" if "healthy s'" "can_carry TPolling s"
    using c that cc by (simp add: carries_def s' can_carry_def)
qed

lemma keeps_reflush [keeps_intros]: "keeps (modify (\<lambda>s. if reflush s then flush_begin s else s))"
  using keeps_flush_begin keeps_self unfolding keeps_def keeps_at_def modify_def by (simp split: if_split)

lemma flush_end_eq:
  assumes "ss_flight s = Some (t, buf)"
  shows "flush_end w s = run_all [hand_over w t buf, modify (\<lambda>s. if reflush s then flush_begin s else s)] s"
  using assms by (simp add: flush_end_def hand_over_def case_prod_beta)

lemma keeps_flush_end [keeps_intros]: "keeps (flush_end w)"
  unfolding keeps_def
proof
  fix s
  show "keeps_at (flush_end w) s"
  proof (cases "ss_flight s")
    case (Some f)
    obtain t buf where f: "ss_flight s = Some (t, buf)"
      using Some by (cases f) simp
    have "keeps_at (hand_over w t buf) s"
      using hand_over_ok [OF _ f] unfolding keeps_at_def by (metis prod.collapse)
    moreover have "keeps (run_all [modify (\<lambda>s. if reflush s then flush_begin s else s)])"
      by (intro keeps_intros)
    ultimately have "keeps_at (run_all [hand_over w t buf, modify (\<lambda>s. if reflush s then flush_begin s else s)]) s"
      using keeps_at_Cons unfolding keeps_def by blast
    then show ?thesis
      unfolding keeps_at_def flush_end_eq [OF f] .
  qed (simp add: flush_end_def keeps_at_def balanced_def)
qed

lemma keeps_begin_end:
  assumes "keeps f" and "keeps g" and "\<And>s. snd (f s) = []"
  shows "keeps (\<lambda>s. g (fst (f s)))"
proof -
  have "keeps (run_all [f, g])"
    by (intro keeps_intros assms)
  then show ?thesis
    by (simp add: keeps_def keeps_at_def case_prod_beta assms(3))
qed

lemma keeps_flush [keeps_intros]: "keeps (flush w)"
proof -
  have "keeps (\<lambda>s. flush_end w (flush_begin s))"
    using keeps_begin_end [OF keeps_flush_begin keeps_flush_end] by simp
  then show ?thesis
    unfolding flush_def by (intro keeps_if keeps_self)
qed

lemma keeps_modify_if [keeps_intros]:
  "keeps (\<lambda>s. (f s, [])) \<Longrightarrow> keeps (modify (\<lambda>s. if P s then f s else s))"
  using keeps_self unfolding keeps_def keeps_at_def modify_def by (simp split: if_split)

lemma keeps_eio_sendPacket [keeps_intros]: "keeps (eio_sendPacket p)"
  unfolding keeps_def
proof
  fix s
  let ?q = "\<lambda>s. (s\<lparr>ss_writeBuffer := ss_writeBuffer s @ [p]\<rparr>, [Queued p])"
  let ?g = "modify (\<lambda>s. if \<exists>t. ss_transport s = Some t \<and> t_Writable t s then flush_begin s else s)"
  have "keeps_at ?q s"
    by (auto simp: keeps_at_def ss_inv_def balanced_def shape_def waiting_def ac_simps)
  moreover have "keeps (run_all [?g])"
    by (intro keeps_intros)
  ultimately have "keeps_at (run_all [?q, ?g]) s"
    using keeps_at_Cons unfolding keeps_def by blast
  moreover have "eio_sendPacket p s = run_all [?q, ?g] s"
    if "\<not> (ss_readyState s = StateClosing \<or> ss_readyState s = StateClosed)"
    using that by (simp add: eio_sendPacket_def Let_def modify_def split: option.split)
  moreover have "keeps_at (\<lambda>s. (s, [])) s"
    using keeps_self by (simp add: keeps_def)
  ultimately show "keeps_at (eio_sendPacket p) s"
    by (cases "ss_readyState s = StateClosing \<or> ss_readyState s = StateClosed")
      (simp_all add: keeps_at_def eio_sendPacket_def)
qed

section \<open>Timers and closing\<close>

lemma keeps_at_via:
  assumes "keeps f" and "view s1 = view s" and "ss_readyState s1 = ss_readyState s" and "ws_dead s1 = ws_dead s"
    and "ss_upgrading s1 = ss_upgrading s"
  shows "keeps_at (\<lambda>_. f s1) s"
proof -
  have "keeps_at (\<lambda>_. (s1, [])) s"
    by (rule keeps_at_quiet) (simp_all add: assms)
  moreover have "keeps_at f s1"
    using assms(1) by (simp add: keeps_def)
  ultimately show ?thesis
    by (auto simp: keeps_at_def balanced_def)
qed

lemma keeps_ping_begin [keeps_intros]: "keeps ping_begin"
proof -
  have "keeps (modify (\<lambda>s. s\<lparr>ss_pinging := ss_pinging s + 1\<rparr>))" "keeps (\<lambda>s. (start_interval s, []))"
    by (intro keeps_modify keeps_timers; simp)+
  then show ?thesis
    unfolding ping_begin_def by (intro keeps_if keeps_self keeps_Cons keeps_eio_sendPacket keeps_Nil)
qed

lemma keeps_pingTimeoutHandler [keeps_intros]: "keeps pingTimeoutHandler"
  unfolding pingTimeoutHandler_def by (intro keeps_intros)

lemma keeps_fire_timer: "keeps (fire_timer i)"
  unfolding keeps_def
proof
  fix s
  have v: "keeps_at (\<lambda>_. f (s\<lparr>ss_timers := ts\<rparr>)) s" if "keeps f" for f ts
    by (rule keeps_at_via [OF that]) simp_all
  note v [OF keeps_ping_begin] v [OF keeps_pingTimeoutHandler] v [OF keeps_ws_Close]
  moreover have "keeps_at (\<lambda>_. (s, [])) s"
    using keeps_self by (simp add: keeps_def keeps_at_def)
  ultimately show "keeps_at (fire_timer i) s"
    unfolding keeps_at_def fire_timer_def Let_def by (auto split: option.split timer_kind.split)
qed

lemma keeps_ping_end: "keeps (\<lambda>s. (ping_end s, []))"
  by (rule keeps_timers) (simp_all add: ping_end_def split: if_splits)

text \<open>Nothing is required of a session that is not healthy but its shape.\<close>

lemma keeps_at_calm:
  assumes "calm f" and "\<not> healthy s"
  shows "keeps_at f s"
  using less_healthyD(1,2) [OF calmD [OF assms(1), of s]] assms(2) by (auto simp: keeps_at_def ss_inv_def)

lemma keeps_unhealthy: "keeps f \<Longrightarrow> ss_inv s \<Longrightarrow> \<not> healthy s \<Longrightarrow> \<not> healthy (fst (f s))"
  unfolding keeps_def keeps_at_def balanced_def by blast

lemma calm_closeTransport: "calm closeTransport"
proof -
  have "calm (ws_Close n)" for n
    by (simp add: calm_def less_healthy_def ws_dead_Close)
  then have "calm (\<lambda>s. case t of TPolling \<Rightarrow> polling_call pl_Close s | TWebsocket n \<Rightarrow> ws_Close n s)" for t
    using calm_polling_call by (cases t) simp_all
  then show ?thesis
    unfolding closeTransport_def by (intro calm_case_option calm_self)
qed

lemma keeps_ss_Close: "keeps (ss_Close w)"
  unfolding keeps_def
proof
  fix s :: session
  let ?s = "s\<lparr>ss_readyState := StateClosing\<rparr>"
  have 1: "keeps_at (modify (\<lambda>s. s\<lparr>ss_readyState := StateClosing\<rparr>)) s"
    by (rule keeps_at_close) (simp_all add: modify_def)
  have 2: "keeps_at (flush w) ?s"
    using keeps_flush by (simp add: keeps_def)
  have 3: "keeps_at closeTransport (fst (flush w ?s))" if "ss_inv s"
  proof -
    have "\<not> healthy ?s" "ss_inv ?s"
      using that hshape_shape [of ?s s] by (simp_all add: healthy_def ss_inv_def)
    from keeps_unhealthy [OF keeps_flush this(2,1)] show ?thesis
      by (rule keeps_at_calm [OF calm_closeTransport])
  qed
  show "keeps_at (ss_Close w) s"
  proof (cases "ss_readyState s = StateOpen \<and> ss_inv s")
    case True
    have "keeps_at (run_all [modify (\<lambda>s. s\<lparr>ss_readyState := StateClosing\<rparr>), flush w, closeTransport]) s"
      using 1 2 3 True by (intro keeps_at_Cons) (simp_all add: modify_def keeps_at_def balanced_def)
    then show ?thesis
      using True by (simp add: keeps_at_def ss_Close_def)
  next
    case False
    then show ?thesis
      using keeps_self by (auto simp: keeps_def keeps_at_def ss_Close_def balanced_def)
  qed
qed

lemma keeps_close_timeout: "keeps (polling_call close_timeout)"
  unfolding keeps_def
proof
  fix s
  show "keeps_at (polling_call close_timeout) s"
  proof (cases "healthy s \<and> ss_inv s")
    case True
    then obtain p where "ss_polling s = Some p" "\<not> pl_closeTimer p"
      by (auto simp: ss_inv_def routed_def)
    then have "polling_call close_timeout s = (s, [])"
      by (simp add: polling_call_def run_polling_def close_timeout_def)
    then show ?thesis
      by (simp add: keeps_at_def balanced_def)
  next
    case False
    then show ?thesis
      using keeps_at_calm [OF calm_polling_call] by (auto simp: keeps_at_def)
  qed
qed

section \<open>Upgrades\<close>

lemma keeps_at_new_ws:
  assumes "ss_ws s n = None" and "ss_ws (fst (f s)) = (ss_ws s)(n \<mapsto> w)" and "ws_handler w \<noteq> Bound"
    and "ss_transport (fst (f s)) = ss_transport s" "ss_switching (fst (f s)) = ss_switching s"
    "ss_upgraded (fst (f s)) = ss_upgraded s" "ss_writeBuffer (fst (f s)) = ss_writeBuffer s"
    "ss_flight (fst (f s)) = ss_flight s" "ss_sending (fst (f s)) = ss_sending s" "ss_polling (fst (f s)) = ss_polling s"
    "ss_readyState (fst (f s)) = ss_readyState s"
    and "ss_upgraded s \<Longrightarrow> ss_upgrading (fst (f s)) = ss_upgrading s"
    and "accepted (snd (f s)) = {#}" "delivered (snd (f s)) = {#}"
  shows "keeps_at f s"
proof -
  let ?s = "fst (f s)"
  have n: "n \<notin> fst ` set (ss_switching s)" if "shape s"
    using that assms(1) by (auto simp: shape_def handlers_def)
  have h: "handlers ?s m = (if m = n then Some (ws_handler w) else handlers s m)" for m
    by (simp add: handlers_def assms(2))
  have h0: "handlers s n = None"
    by (simp add: handlers_def assms(1))
  have t: "took_over ?s = took_over s"
    using assms(3) h0 by (auto simp: took_over_def fun_eq_iff h assms(5))
  have sh: "shape s \<Longrightarrow> shape ?s"
    using n by (auto simp: shape_def h assms(5,8,9))
  have "ws_dead s m \<Longrightarrow> ws_dead ?s m" for m
    using assms(1) by (cases "m = n") (simp_all add: ws_dead_def assms(2))
  then have hl: "healthy ?s \<Longrightarrow> healthy s"
    unfolding healthy_def t assms(11) by blast
  have "routed s \<Longrightarrow> routed ?s"
    by (erule routed_mono)
      (use h0 assms(12) in \<open>auto simp: before_switch_def in_switch_def after_switch_def t h assms(4-11)\<close>)
  then show ?thesis
    using sh hl by (simp add: keeps_at_def ss_inv_def balanced_def waiting_def assms(7,8,10,13,14))
qed

lemma keeps_at_MaybeUpgrade:
  assumes "ss_ws s n = None"
  shows "keeps_at (MaybeUpgrade n) s"
proof (cases "ss_upgrading s \<or> ss_upgraded s \<or> ss_readyState s \<noteq> StateOpen")
  case True
  then show ?thesis
    by (intro keeps_at_new_ws [OF assms, of _ "NewWebsocket\<lparr>ws_closed := True\<rparr>"])
      (simp_all add: MaybeUpgrade_def Let_def ws_Close_def NewWebsocket_def)
next
  case False
  then show ?thesis
    by (intro keeps_at_new_ws [OF assms, of _ "NewWebsocket\<lparr>ws_handler := Upgrading\<rparr>"])
      (simp_all add: MaybeUpgrade_def Let_def ws_SetHandler_def NewWebsocket_def)
qed

lemma keeps_abort_upgrade [keeps_intros]: "keeps (abort_upgrade n)"
proof -
  have "keeps (modify (stop_upgrade_timer n))" "keeps (modify (\<lambda>s. s\<lparr>ss_ticking := removeAll n (ss_ticking s)\<rparr>))"
    "keeps (modify (\<lambda>s. s\<lparr>ss_upgrading := False\<rparr>))" "keeps (\<lambda>s. (start_interval s, []))"
    by (intro keeps_modify keeps_timers; simp)+
  then show ?thesis
    unfolding abort_upgrade_def by (intro keeps_Cons keeps_Nil keeps_ws_Close keeps_modify_if)
qed

lemma keeps_onAbort [keeps_intros]: "keeps (onAbort n w)"
  unfolding onAbort_def by (intro keeps_intros)

lemma keeps_onProbe: "keeps (onProbe n w w')"
proof -
  obtain fs e where f: "ws_frames n [text_packet Pong ''probe''] w = (fs, e)"
    by fastforce
  have "accepted fs = {#}" "delivered fs = {#}"
    using f by (auto simp: ws_frames_def carried_def split: option.splits if_splits)
  then have fs: "keeps (perform fs)"
    by (rule keeps_perform)
  have "keeps (run_all [perform fs, modify (\<lambda>s. s\<lparr>ss_ticking := n # ss_ticking s\<rparr>)])"
    by (intro fs keeps_Cons keeps_Nil keeps_modify keeps_timers) simp_all
  moreover have "keeps (run_all [perform fs, onAbort n w'])"
    by (intro fs keeps_intros)
  ultimately show ?thesis
    using f by (cases e) (simp_all add: onProbe_def)
qed

lemma keeps_at_upgrade_switch:
  assumes "handlers s n = Some Upgrading" and "n \<notin> fst ` set (ss_switching s)"
  shows "keeps_at (upgrade_switch n) s"
proof (cases "ss_readyState s = StateClosed")
  case True
  then show ?thesis
    by (intro keeps_at_close) (simp_all add: upgrade_switch_def Let_def)
next
  case False
  let ?s = "fst (upgrade_switch n s)"
  have f: "ss_transport ?s = Some (TWebsocket n)" "ss_switching ?s = (n, ss_transport s) # ss_switching s"
    "ss_upgraded ?s" "\<not> ss_upgrading ?s" "ss_flight ?s = ss_flight s" "ss_sending ?s = ss_sending s"
    "ss_polling ?s = ss_polling s" "ss_writeBuffer ?s = ss_writeBuffer s" "ss_readyState ?s = ss_readyState s"
    "ss_ws ?s = ss_ws s" "snd (upgrade_switch n s) = []"
    using False by (simp_all add: upgrade_switch_def Let_def)
  have h: "handlers ?s = handlers s" "ws_dead ?s = ws_dead s"
    by (simp_all add: handlers_def [abs_def] ws_dead_def [abs_def] f)
  have n: "\<not> took_over s n"
    using assms by (simp add: took_over_def)
  have t: "took_over ?s m \<longleftrightarrow> took_over s m \<or> m = n" for m
    by (auto simp: took_over_def f h)
  have sh: "shape s \<Longrightarrow> shape ?s"
    using assms(1) by (simp add: shape_def f h)
  have hl: "healthy ?s \<Longrightarrow> healthy s"
    unfolding healthy_def f(9) h(2) t by blast
  have "routed ?s" if "healthy ?s" "routed s"
    using that(2)
  proof (cases rule: routedE)
    case (before p)
    then have "in_switch ?s p n"
      by (simp add: before_switch_def in_switch_def f)
    then show ?thesis
      using before f(7) unfolding routed_def by auto
  next
    case (during p m)
    then have "took_over s m"
      by (simp add: in_switch_def took_over_def)
    then show ?thesis
      using that(1) n unfolding healthy_def t by blast
  next
    case (after p m)
    then have "took_over s m"
      by (simp add: after_switch_def took_over_def)
    then show ?thesis
      using that(1) n unfolding healthy_def t by blast
  qed
  then show ?thesis
    using sh hl by (simp add: keeps_at_def ss_inv_def balanced_def waiting_def f)
qed

subsection \<open>The end of an upgrade\<close>

lemma calm_leave_transport: "calm (leave_transport old)"
proof -
  have r: "ws_dead (requeue_drained s) = ws_dead s" "handlers (requeue_drained s) = handlers s" for s
    by (simp_all add: ws_dead_def [abs_def] handlers_def [abs_def])
  have m: "calm (modify requeue_drained)" "calm (modify (map_polling pl_Discard))" "calm (modify (ws_Discard k))" for k
    by (intro calm_modify; simp add: hshape_def r)+
  have w: "calm (ws_Close k)" for k
    by (simp add: calm_def less_healthy_def ws_dead_Close)
  have "calm (\<lambda>s. case t of
        TPolling \<Rightarrow> run_all [modify requeue_drained, modify (map_polling pl_Discard), polling_call pl_Close] s
      | TWebsocket k \<Rightarrow> run_all [modify (ws_Discard k), ws_Close k] s)" for t
    by (cases t) (simp_all only: tport.case, (intro m w calm_intros)+)
  then show ?thesis
    unfolding leave_transport_def by (intro calm_case_option calm_self)
qed

lemma handlers_SetHandler: "handlers (ws_SetHandler h n s) = (handlers s)(n := map_option (\<lambda>_. h) (handlers s n))"
  by (auto simp: handlers_def ws_SetHandler_def fun_eq_iff option.map_comp comp_def)

text \<open>What \<open>upgrade_finish\<close> does up to its last \<open>flush\<close>.\<close>

definition settle :: "nat \<Rightarrow> tport option \<Rightarrow> eio_step" where
  "settle n old =
     run_all
       [modify (\<lambda>s. s\<lparr>ss_switching := filter (\<lambda>(m, t). m \<noteq> n) (ss_switching s)\<rparr>), leave_transport old,
        modify (ws_SetHandler Bound n)]"

lemma settle_shape:
  assumes "n \<in> fst ` set (ss_switching s)" and "shape s" and "s' = fst (settle n old s)"
  shows "shape s'" "took_over s' = took_over s" "healthy s' \<Longrightarrow> healthy s"
proof -
  let ?s1 = "s\<lparr>ss_switching := filter (\<lambda>(m, t). m \<noteq> n) (ss_switching s)\<rparr>"
  let ?s2 = "fst (leave_transport old ?s1)"
  have l: "less_healthy ?s2 ?s1"
    by (rule calmD [OF calm_leave_transport])
  then have c: "handlers ?s2 = handlers s" "ss_switching ?s2 = filter (\<lambda>(m, t). m \<noteq> n) (ss_switching s)"
    "ss_flight ?s2 = None \<longleftrightarrow> ss_flight s = None" "ss_sending ?s2 = ss_sending s"
    "ss_readyState ?s2 = StateOpen \<Longrightarrow> ss_readyState s = StateOpen" "\<And>m. ws_dead s m \<Longrightarrow> ws_dead ?s2 m"
    by (auto simp: less_healthy_def hshape_def)
  have s': "s' = ws_SetHandler Bound n ?s2"
    by (simp add: assms(3) settle_def modify_def case_prod_beta)
  have u: "handlers s n = Some Upgrading"
    using assms(1,2) by (auto simp: shape_def)
  have h: "handlers s' m = (if m = n then Some Bound else handlers s m)" for m
    unfolding s' handlers_SetHandler c(1) using u by simp
  have f: "ss_switching s' = filter (\<lambda>(m, t). m \<noteq> n) (ss_switching s)" "ss_flight s' = None \<longleftrightarrow> ss_flight s = None"
    "ss_sending s' = ss_sending s" "ss_readyState s' = ss_readyState ?s2"
    using c(2-4) by (simp_all add: s' ws_SetHandler_def)
  have d: "ws_dead s' = ws_dead ?s2"
    by (auto simp: s' ws_SetHandler_def ws_dead_def fun_eq_iff split: option.split)
  show "shape s'"
    using assms(2) by (auto simp: shape_def f h)
  show t: "took_over s' = took_over s"
  proof
    fix m
    have "m \<in> fst ` set (ss_switching s') \<longleftrightarrow> m \<noteq> n \<and> m \<in> fst ` set (ss_switching s)"
      unfolding f(1) by force
    then show "took_over s' m = took_over s m"
      using assms(1) by (auto simp: took_over_def h)
  qed
  show "healthy s' \<Longrightarrow> healthy s"
    unfolding healthy_def t f(4) d using c(5,6) by blast
qed

lemma leave_polling:
  assumes "ss_polling s = Some p" and "\<not> pl_closed p" and "ss_transport s = Some (TWebsocket n)"
    and "leave_transport (Some TPolling) s = (s', es)"
  shows "s' = s\<lparr>ss_polling := Some (closeLocked (pl_Discard (snd (DrainBuffered p)))),
    ss_writeBuffer := pl_sendBuffer p @ ss_writeBuffer s\<rparr>" "accepted es = {#}" "delivered es = {#}"
  using assms
  by (auto simp: leave_transport_def modify_def requeue_drained_def DrainBuffered_def map_polling_def pl_Discard_def
      polling_call_def run_polling_def pl_Close_def notifyClose_def closeLocked_def dispatch_def onCloseFrom_def
      perform_def split: option.splits)

lemma keeps_at_settle:
  assumes "map_of (ss_switching s) n = Some old" and "\<not> (old = Some TPolling \<and> ss_sending s)"
  shows "keeps_at (settle n old) s"
proof -
  let ?s = "fst (settle n old s)" and ?es = "snd (settle n old s)"
  have n: "n \<in> fst ` set (ss_switching s)"
    using map_of_SomeD [OF assms(1)] by force
  note sh = settle_shape [OF n _ refl, of old]
  have "routed ?s \<and> waiting ?s + delivered ?es = waiting s + accepted ?es" if h: "healthy s" and r: "routed s" "shape s"
    using r(1)
  proof (cases rule: routedE)
    case (before p)
    then show ?thesis
      using n by (simp add: before_switch_def)
  next
    case (during p m)
    then have m: "m = n" "old = Some TPolling" and sw: "ss_switching s = [(n, Some TPolling)]"
      using n assms(1) by (auto simp: in_switch_def)
    then have fl: "ss_flight s = None"
      using assms(2) r(2) by (simp add: shape_def)
    let ?s1 = "s\<lparr>ss_switching := []\<rparr>"
    obtain s2 es where l: "leave_transport (Some TPolling) ?s1 = (s2, es)"
      by fastforce
    have tr: "ss_transport s = Some (TWebsocket n)" "ss_upgraded s" "\<not> ss_upgrading s" "\<not> pl_closed p"
      using during m by (simp_all add: in_switch_def)
    note s2 = leave_polling [OF _ tr(4) _ l, of n]
    have st: "settle n old s = (ws_SetHandler Bound n s2, es)"
      using l sw m by (simp add: settle_def modify_def case_prod_beta)
    have p: "ss_polling s2 = Some (closeLocked (pl_Discard (snd (DrainBuffered p))))" "ss_flight s2 = None"
      "ss_writeBuffer s2 = pl_sendBuffer p @ ss_writeBuffer s" "ss_transport s2 = Some (TWebsocket n)" "ss_upgraded s2"
      "\<not> ss_upgrading s2" "ss_switching s2 = []" "accepted es = {#}" "delivered es = {#}"
      "handlers s2 = handlers s"
      using s2 during(1) tr fl by simp_all
    have "handlers s n = Some Upgrading"
      using r(2) sw by (simp add: shape_def)
    then have "handlers (ws_SetHandler Bound n s2) n = Some Bound"
      by (simp add: handlers_SetHandler p(10))
    then have "after_switch (ws_SetHandler Bound n s2) n"
      using p by (simp add: after_switch_def ws_SetHandler_def)
    moreover have "ss_polling (ws_SetHandler Bound n s2) = Some (closeLocked (pl_Discard (snd (DrainBuffered p))))"
      using p by (simp add: ws_SetHandler_def)
    ultimately have "routed ?s"
      unfolding st routed_def using during(3) by (auto simp: closeLocked_def)
    moreover have "waiting ?s + delivered ?es = waiting s + accepted ?es"
      using p fl during(1) by (simp add: st waiting_def ws_SetHandler_def closeLocked_def ac_simps)
    ultimately show ?thesis
      by simp
  next
    case (after p m)
    then show ?thesis
      using n by (simp add: after_switch_def)
  qed
  then show ?thesis
    using sh by (auto simp: keeps_at_def ss_inv_def balanced_def)
qed

lemma keeps_upgrade_finish: "keeps (upgrade_finish n w)"
  unfolding keeps_def
proof
  fix s
  let ?fs = "[flush w, modify (\<lambda>s. if ss_readyState s = StateOpen then start_interval s else s)]"
  show "keeps_at (upgrade_finish n w) s"
  proof (cases "\<exists>old. map_of (ss_switching s) n = Some old \<and> \<not> (old = Some TPolling \<and> ss_sending s)")
    case True
    then obtain old where o: "map_of (ss_switching s) n = Some old" "\<not> (old = Some TPolling \<and> ss_sending s)"
      by blast
    have "keeps (\<lambda>s. (start_interval s, []))"
      by (rule keeps_timers) simp_all
    then have "keeps (run_all ?fs)"
      by (intro keeps_Cons keeps_Nil keeps_flush keeps_modify_if)
    then have "keeps_at (run_all (settle n old # ?fs)) s"
      using keeps_at_Cons [OF keeps_at_settle [OF o]] unfolding keeps_def by blast
    moreover have "upgrade_finish n w s = run_all (settle n old # ?fs) s"
      using o by (auto simp: upgrade_finish_def settle_def case_prod_beta)
    ultimately show ?thesis
      by (simp add: keeps_at_def)
  next
    case False
    then have "upgrade_finish n w s = (s, [])"
      by (auto simp: upgrade_finish_def split: option.split)
    then show ?thesis
      by (simp add: keeps_at_def balanced_def)
  qed
qed

lemma keeps_upgrade_tick: "keeps (upgrade_tick w)"
  unfolding keeps_def
proof
  fix s
  let ?f = "polling_call (pl_Send [text_packet Noop []])"
  have f: "keeps_at ?f s" if tr: "ss_transport s = Some TPolling"
  proof (cases "healthy s \<and> ss_inv s")
    case True
    then have r: "healthy s" "routed s" "shape s"
      by (simp_all add: ss_inv_def)
    from r(2) have c: "can_carry TPolling s"
      by (cases rule: routedE) (use tr in \<open>simp_all add: before_switch_def in_switch_def after_switch_def can_carry_def\<close>)
    note ok = polling_Send_ok [OF r(1,2) c prod.collapse [symmetric], of "[text_packet Noop []]"]
    have "shape (fst (?f s))"
      using less_healthyD(1) [OF calmD [OF calm_polling_call]] r(3) by blast
    then show ?thesis
      using ok(1-3) r(1) by (simp add: keeps_at_def ss_inv_def balanced_def carried_def)
  next
    case False
    then show ?thesis
      using keeps_at_calm [OF calm_polling_call] by (auto simp: keeps_at_def)
  qed
  show "keeps_at (upgrade_tick w) s"
  proof (cases "ss_ticking s \<noteq> [] \<and> pollingWritable s")
    case True
    then have "ss_transport s = Some TPolling"
      by (simp add: pollingWritable_def)
    then show ?thesis
      using f True by (simp add: keeps_at_def upgrade_tick_def pollingNoop_def t_Send_def)
  next
    case False
    then have "upgrade_tick w s = (s, [])"
      by (auto simp: upgrade_tick_def)
    then show ?thesis
      by (simp add: keeps_at_def balanced_def)
  qed
qed

section \<open>Frames and polls\<close>

lemma keeps_ws_onError: "keeps (ws_onError n err w)"
  unfolding ws_onError_def by (intro keeps_intros)

lemma keeps_ws_onClose: "keeps (ws_onClose n w)"
  unfolding ws_onClose_def by (intro keeps_intros)

lemma keeps_at_ws_onPacket:
  assumes "n \<notin> fst ` set (ss_switching s)"
  shows "keeps_at (ws_onPacket n p w w') s"
proof -
  have "keeps_at (onPacket p) s" "keeps_at (onProbe n w w') s" "keeps_at (onAbort n w') s" "keeps_at (\<lambda>s. (s, [])) s"
    using keeps_onPacket keeps_onProbe keeps_onAbort keeps_self unfolding keeps_def by blast+
  moreover have "handlers s n = Some Upgrading \<Longrightarrow> keeps_at (upgrade_switch n) s"
    using keeps_at_upgrade_switch assms by blast
  ultimately show ?thesis
    unfolding keeps_at_def ws_onPacket_def upgrade_OnPacket_def handlers_def
    by (simp split: option.split whandler.split if_split)
qed

lemma keeps_at_ws_onFrame:
  assumes "n \<notin> fst ` set (ss_switching s)"
  shows "keeps_at (ws_onFrame n data binary w w') s"
  using keeps_at_ws_onPacket [OF assms] keeps_ws_onError
  by (simp add: ws_onFrame_def keeps_def split: sum.split)

lemma can_carry_flush:
  assumes "ss_inv s" and "healthy (fst (flush w s))" and "can_carry TPolling s"
  shows "can_carry TPolling (fst (flush w s))"
proof (cases "ss_sending s \<or> ss_flight (flush_begin s) = None")
  case True
  then have "fst (flush w s) = s \<or> fst (flush w s) = flush_begin s"
    by (auto simp: flush_def flush_end_def)
  then show ?thesis
    using assms(3) by (auto simp: can_carry_def)
next
  case False
  then obtain t buf where f: "ss_flight (flush_begin s) = Some (t, buf)"
    by auto
  have inv: "ss_inv (flush_begin s)"
    using keeps_flush_begin assms(1) by (simp add: keeps_def keeps_at_def)
  let ?s = "fst (hand_over w t buf (flush_begin s))"
  have fl: "fst (flush w s) = (if reflush ?s then flush_begin ?s else ?s)"
    using False by (simp add: flush_def flush_end_eq [OF f] modify_def case_prod_beta)
  have "healthy (flush_begin ?s) = healthy ?s"
    by (simp add: healthy_def took_over_def)
  then have "healthy ?s"
    using assms(2) fl by (simp split: if_splits)
  moreover have "can_carry TPolling (flush_begin s)"
    using assms(3) by (simp add: can_carry_def)
  ultimately have "can_carry TPolling ?s"
    using hand_over_ok(3) [OF inv f prod.collapse [symmetric]] by blast
  then show ?thesis
    unfolding fl by (simp add: can_carry_def)
qed

lemma poll_end_ok:
  assumes "ss_inv s" and "healthy s" and "buffered \<noteq> [] \<Longrightarrow> can_carry TPolling s"
    and "polling_call (poll_end buffered) s = (s', es)"
  shows "routed s' \<and> waiting s' + delivered es = waiting s + bag buffered \<and> accepted es = {#}"
proof (cases "buffered = []")
  case True
  have r: "routed s"
    using assms(1,2) by (simp add: ss_inv_def)
  then obtain p where "ss_polling s = Some p" "\<not> pl_pendingClose p"
    by (auto simp: routed_def)
  then have "s' = s" "es = []"
    using assms(4) True by (auto simp: polling_call_def run_polling_def poll_end_def)
  then show ?thesis
    using r True by simp
next
  case False
  then have "polling_call (pl_Send buffered) s = (s', es)"
    using assms(4) by (simp add: poll_end_def [abs_def])
  from polling_Send_ok [OF assms(2) _ _ this] show ?thesis
    using False assms(1-3) by (simp add: ss_inv_def)
qed

lemma add_through:
  fixes a :: "'a::comm_monoid_add"
  assumes "a = b + c" and "w2 + d = b + f" and "w3 + e = w2 + c"
  shows "w3 + (d + e) = a + f"
proof -
  have "w3 + (d + e) = (w3 + e) + d"
    by (simp add: ac_simps)
  also have "\<dots> = (w2 + d) + c"
    unfolding assms(3) by (simp add: ac_simps)
  also have "\<dots> = a + f"
    unfolding assms(1,2) by (simp add: ac_simps)
  finally show ?thesis .
qed

lemma keeps_onPollRequest: "keeps (onPollRequest r w)"
  unfolding keeps_def
proof
  fix s
  show "keeps_at (onPollRequest r w) s"
  proof (cases "ss_polling s = None \<or> (\<exists>p as. ss_polling s = Some p \<and> poll_begin r p = Inl as)")
    case True
    have "keeps (run_all (map dispatch [HError ErrRequestOverlap, Reply r 400 []]))"
      by (rule keeps_acts) simp
    then have "keeps_at (run_all (map dispatch [HError ErrRequestOverlap, Reply r 400 []])) s" "keeps_at (\<lambda>s. (s, [])) s"
      using keeps_self unfolding keeps_def by blast+
    moreover have "onPollRequest r w s = (s, [])
        \<or> onPollRequest r w s = run_all (map dispatch [HError ErrRequestOverlap, Reply r 400 []]) s"
      using True by (auto simp: onPollRequest_def poll_begin_def Let_def simp del: run_all.simps list.map split: if_splits)
    ultimately show ?thesis
      unfolding keeps_at_def by auto
  next
    case False
    then obtain p p' buffered where p: "ss_polling s = Some p" and pb: "poll_begin r p = Inr (p', buffered)"
      by (metis not_None_eq old.prod.exhaust sumE)
    have p': "pl_closed p' = pl_closed p" "pl_pendingClose p' = pl_pendingClose p" "pl_closeTimer p' = pl_closeTimer p"
      "pl_sendBuffer p = buffered @ pl_sendBuffer p'" "buffered \<noteq> [] \<Longrightarrow> \<not> pl_closed p'"
      using pb by (auto simp: poll_begin_def Let_def split: if_splits)
    let ?s1 = "s\<lparr>ss_polling := Some p'\<rparr>"
    let ?s2 = "fst (flush w ?s1)"
    obtain s3 e3 where e: "polling_call (poll_end buffered) ?s2 = (s3, e3)"
      by fastforce
    have o: "onPollRequest r w s = (s3, snd (flush w ?s1) @ e3)"
      using p pb e by (simp add: onPollRequest_def modify_def case_prod_beta)
    have "ss_inv s3 \<and> (healthy s3 \<longrightarrow> balanced s (snd (flush w ?s1) @ e3) s3)" if inv: "ss_inv s"
    proof -
      have inv1: "ss_inv ?s1"
        using inv routed_polling [OF _ p p'(1-3)] by (simp add: ss_inv_def shape_def)
      have fl: "ss_inv ?s2" "healthy ?s2 \<Longrightarrow> balanced ?s1 (snd (flush w ?s1)) ?s2"
        using keeps_flush inv1 by (simp_all add: keeps_def keeps_at_def)
      have l: "less_healthy s3 ?s2"
        using calmD [OF calm_polling_call, of "poll_end buffered" ?s2] e by simp
      have ok: "routed s3 \<and> waiting s3 + delivered e3 = waiting ?s2 + bag buffered \<and> accepted e3 = {#}" if "healthy s3"
      proof (rule poll_end_ok [OF fl(1) _ _ e])
        show h: "healthy ?s2"
          using less_healthyD(2) [OF l] that by blast
        show "can_carry TPolling ?s2" if "buffered \<noteq> []"
          using can_carry_flush [OF inv1 h] p'(5) [OF that] by (simp add: can_carry_def)
      qed
      have "shape s3"
        using less_healthyD(1) [OF l] fl(1) by (simp add: ss_inv_def)
      moreover have "balanced s (snd (flush w ?s1) @ e3) s3" if h: "healthy s3"
      proof -
        have b: "balanced ?s1 (snd (flush w ?s1)) ?s2"
          using fl(2) less_healthyD(2) [OF l] h by blast
        have "waiting s = waiting ?s1 + bag buffered"
          using p p'(4) by (simp add: waiting_def ac_simps)
        moreover have "waiting ?s2 + delivered (snd (flush w ?s1)) = waiting ?s1 + accepted (snd (flush w ?s1))"
          using b by (simp add: balanced_def)
        ultimately have "waiting s3 + (delivered (snd (flush w ?s1)) + delivered e3)
            = waiting s + accepted (snd (flush w ?s1))"
          using add_through ok [OF h] by blast
        then show ?thesis
          using b ok [OF h] by (simp add: balanced_def)
      qed
      ultimately show ?thesis
        using ok by (simp add: ss_inv_def)
    qed
    then show ?thesis
      by (simp add: keeps_at_def o)
  qed
qed

section \<open>Every reachable state\<close>

lemmas keeps_steps = keeps_eio_sendPacket keeps_flush_end keeps_onPollRequest keeps_poll_aborted keeps_data_begin
  keeps_onDataRequest keeps_close_timeout keeps_fire_timer keeps_ss_Close keeps_ws_onClose keeps_upgrade_finish
  keeps_upgrade_tick

lemma keeps_atD: "keeps_at f s \<Longrightarrow> f s = (s', es) \<Longrightarrow> ss_inv s \<Longrightarrow> ss_inv s' \<and> (healthy s' \<longrightarrow> balanced s es s')"
  by (simp add: keeps_at_def)

lemma keepsD: "keeps f \<Longrightarrow> f s = (s', es) \<Longrightarrow> ss_inv s \<Longrightarrow> ss_inv s' \<and> (healthy s' \<longrightarrow> balanced s es s')"
  using keeps_atD unfolding keeps_def by blast

lemma ss_step_keeps:
  assumes "ss_step s es s'" and "ss_inv s"
  shows "ss_inv s' \<and> (healthy s' \<longrightarrow> balanced s es s')"
  using assms(1)
proof cases
  case ss_ping_end
  then show ?thesis
    using keepsD [OF keeps_ping_end refl assms(2)] by simp
next
  case (ss_upgrade n)
  then show ?thesis
    using keeps_atD [OF keeps_at_MaybeUpgrade _ assms(2)] by blast
next
  case (ss_frame n ws data binary w w')
  then show ?thesis
    using keeps_atD [OF keeps_at_ws_onFrame _ assms(2)] by blast
qed (use keeps_steps [THEN keepsD, OF _ assms(2)] in \<open>auto simp: SendMessage_def\<close>)

lemma open_polling_keeps:
  assumes "open_polling sid o1 = (s, es)"
  shows "ss_inv s" "waiting s + delivered es = accepted es"
proof -
  let ?p = "SetMaxBufferSize (eo_MaxHTTPBufferSize o1) NewPolling"
  let ?o = "text_packet Open (openPacketData (attach_polling ?p (newSession sid o1)))"
  have s: "s = start_interval ((attach_polling ?p (newSession sid o1))\<lparr>ss_readyState := StateOpen, ss_writeBuffer := [?o]\<rparr>)"
    "es = [Queued ?o]"
    using assms by (simp_all add: open_polling_eq Let_def)
  have f: "ss_transport s = Some TPolling" "ss_polling s = Some ?p" "ss_switching s = []" "\<not> ss_upgraded s" "ss_flight s = None"
    "ss_writeBuffer s = [?o]" "handlers s = (\<lambda>_. None)"
    by (simp_all add: s attach_polling_def newSession_def handlers_def [abs_def])
  have p: "\<not> pl_closed ?p" "\<not> pl_pendingClose ?p" "\<not> pl_closeTimer ?p" "pl_sendBuffer ?p = []"
    by (simp_all add: SetMaxBufferSize_def NewPolling_def)
  have "before_switch s ?p" "shape s"
    using p by (simp_all add: before_switch_def took_over_def shape_def f)
  then show "ss_inv s"
    using p f(2) unfolding ss_inv_def routed_def by blast
  show "waiting s + delivered es = accepted es"
    using p by (simp add: waiting_def f s(2))
qed

lemma ss_reach_keeps:
  assumes "ss_reach sid o1 es s"
  shows "ss_inv s \<and> (healthy s \<longrightarrow> waiting s + delivered es = accepted es)"
  using assms
proof induction
  case (init s es)
  then show ?case
    using open_polling_keeps by blast
next
  case (step es s es' s')
  then have k: "ss_inv s' \<and> (healthy s' \<longrightarrow> balanced s es' s')"
    using ss_step_keeps by blast
  have "waiting s' + delivered (es @ es') = accepted (es @ es')" if "healthy s'"
  proof -
    have "waiting s' + delivered es' = waiting s + accepted es'" "waiting s + delivered es = accepted es"
      using k that step(3) by (simp_all add: balanced_def)
    then show ?thesis
      using add_through [OF refl, of "waiting s" "delivered es" "accepted es" "{#}" "waiting s'"] by simp
  qed
  then show ?case
    using k by blast
qed


text \<open>
  A session that is polled, sends a message, and is upgraded while the message waits for a
  poll: the message is delivered in a frame.
\<close>

definition sample_sent :: "session \<times> eio_effect list" where
  "sample_sent = SendMessage ''hi'' False (fst sample_polled)"

definition sample_upgrading :: "session \<times> eio_effect list" where
  "sample_upgrading = MaybeUpgrade 7 (fst sample_sent)"

definition sample_switched :: "session \<times> eio_effect list" where
  "sample_switched = ws_onFrame 7 ''5'' False None None (fst sample_upgrading)"

definition sample_upgraded :: "session \<times> eio_effect list" where
  "sample_upgraded = upgrade_finish 7 None (fst sample_switched)"

definition upgraded_effects :: "eio_effect list" where
  "upgraded_effects = ((((snd sample_open @ snd sample_polled) @ snd sample_sent) @ snd sample_upgrading)
     @ snd sample_switched) @ snd sample_upgraded"

text \<open>The states of this run, with the handshake packet left as it is.\<close>

definition sample_polling :: polling where
  "sample_polling = SetMaxBufferSize (eo_MaxHTTPBufferSize sample_options) NewPolling"

definition sample_packet :: Packet where
  "sample_packet = text_packet Open (openPacketData (attach_polling sample_polling (newSession ''a'' sample_options)))"

lemma sample_open_eq:
  "sample_open =
     (start_interval ((attach_polling sample_polling (newSession ''a'' sample_options))
        \<lparr>ss_readyState := StateOpen, ss_writeBuffer := [sample_packet]\<rparr>), [Queued sample_packet])"
  by (simp add: sample_open_def open_polling_eq Let_def sample_packet_def sample_polling_def)

lemmas run_simps = sample_polling_def attach_polling_def SetMaxBufferSize_def NewPolling_def newSession_def
  start_interval_def start_timer_def modify_def perform_def t_Writable_def flush_def flush_begin_def flush_end_def reflush_def
  t_Send_def polling_call_def run_polling_def dispatch_def

lemma sample_polled_eq:
  "sample_polled = ((fst sample_open)\<lparr>ss_writeBuffer := [], ss_polling := Some sample_polling\<rparr>, [PollAnswer 0 [sample_packet]])"
  by (simp add: sample_polled_def sample_open_eq run_simps onPollRequest_def poll_begin_def pl_Send_def poll_end_def)

lemma sample_sent_eq:
  "sample_sent = ((fst sample_polled)\<lparr>ss_writeBuffer := [text_packet Message ''hi'']\<rparr>, [Queued (text_packet Message ''hi'')])"
  by (simp add: sample_sent_def sample_polled_eq sample_open_eq run_simps SendMessage_def eio_sendPacket_def)

lemma sample_upgrading_eq:
  "sample_upgrading =
     ((fst sample_sent)
        \<lparr>ss_upgrading := True, ss_ws := (\<lambda>_. None)(7 \<mapsto> NewWebsocket\<lparr>ws_handler := Upgrading\<rparr>), ss_timers := [(1, UpgradeTimer 7)],
          ss_ntimers := 2, ss_interval := None\<rparr>, [])"
  by (simp add: sample_upgrading_def sample_sent_eq sample_polled_eq sample_open_eq run_simps MaybeUpgrade_def Let_def
      stop_timer_def ws_SetHandler_def map_ws_def NewWebsocket_def fun_eq_iff)

lemma sample_switched_eq:
  "sample_switched =
     ((fst sample_upgrading)
        \<lparr>ss_upgrading := False, ss_upgraded := True, ss_transport := Some (TWebsocket 7), ss_timers := [],
          ss_switching := [(7, Some TPolling)]\<rparr>, [])"
proof -
  have "DecodePacket ''5'' False = Inr (text_packet Upgrade [])"
    by code_simp
  then show ?thesis
    by (simp add: sample_switched_def sample_upgrading_eq sample_sent_eq sample_polled_eq sample_open_eq run_simps ws_onFrame_def
        ws_onPacket_def NewWebsocket_def upgrade_OnPacket_def upgrade_switch_def Let_def stop_upgrade_timer_def)
qed

lemma sample_upgraded_eq:
  "sample_upgraded =
     (start_interval ((fst sample_switched)
        \<lparr>ss_switching := [], ss_writeBuffer := [], ss_polling := Some (closeLocked (pl_Discard sample_polling)),
          ss_ws := (\<lambda>_. None)(7 \<mapsto> NewWebsocket\<lparr>ws_handler := Bound\<rparr>)\<rparr>), [Frame 7 (text_packet Message ''hi'')])"
  by (simp add: sample_upgraded_def sample_switched_eq sample_upgrading_eq sample_sent_eq sample_polled_eq sample_open_eq run_simps
      upgrade_finish_def leave_transport_def requeue_drained_def DrainBuffered_def map_polling_def pl_Discard_def pl_Close_def
      notifyClose_def closeLocked_def onCloseFrom_def ws_SetHandler_def map_ws_def NewWebsocket_def ws_frames_def fun_eq_iff)

lemma sample_upgraded_reach: "ss_reach ''a'' sample_options upgraded_effects (fst sample_upgraded)"
proof -
  have 1: "ss_reach ''a'' sample_options ((snd sample_open @ snd sample_polled) @ snd sample_sent) (fst sample_sent)"
    by (rule ss_reach.step [OF sample_polled_reach ss_send]) (simp add: sample_sent_def)
  have "ss_ws (fst sample_sent) 7 = None"
    by (simp add: sample_sent_eq sample_polled_eq sample_open_eq run_simps)
  then have 2: "ss_reach ''a'' sample_options (((snd sample_open @ snd sample_polled) @ snd sample_sent) @ snd sample_upgrading)
      (fst sample_upgrading)"
    by (intro ss_reach.step [OF 1 ss_upgrade]) (simp_all add: sample_upgrading_def)
  have w: "ss_ws (fst sample_upgrading) 7 = Some (NewWebsocket\<lparr>ws_handler := Upgrading\<rparr>)"
    and sw: "7 \<notin> fst ` set (ss_switching (fst sample_upgrading))"
    by (simp_all add: sample_upgrading_eq sample_sent_eq sample_polled_eq sample_open_eq run_simps)
  have 3: "ss_reach ''a'' sample_options ((((snd sample_open @ snd sample_polled) @ snd sample_sent)
      @ snd sample_upgrading) @ snd sample_switched) (fst sample_switched)"
    by (rule ss_reach.step [OF 2 ss_frame [OF w _ sw]]) (simp_all add: sample_switched_def NewWebsocket_def)
  show ?thesis
    unfolding upgraded_effects_def
    by (rule ss_reach.step [OF 3 ss_upgrade_finish]) (simp add: sample_upgraded_def)
qed

lemma sample_upgraded_healthy: "healthy (fst sample_upgraded)"
  by (simp add: healthy_def took_over_def handlers_def ws_dead_def sample_upgraded_eq sample_switched_eq sample_upgrading_eq
      sample_sent_eq sample_polled_eq sample_open_eq run_simps NewWebsocket_def)


end
