(* ===== verification/JsonStruct.thy ===== *)
theory JsonStruct
  imports Json
begin

text \<open>
  \<^verbatim>\<open>json.Unmarshal\<close> into a struct: the members of the top-level object with the tokens of their
  values and the text of each token (an integer field is read from the text of the number), the
  matching of keys to fields, and the values of the field types the code uses.
\<close>

section \<open>Tokens with their text\<close>

type_synonym rtok = "tok \<times> string"

function lex_raw :: "string \<Rightarrow> rtok list option" where
  "lex_raw s =
     (case s of
        [] \<Rightarrow> Some []
      | c # r \<Rightarrow>
          if json_ws c then lex_raw r
          else
            (case next_tok s of
               None \<Rightarrow> None
             | Some (t, q) \<Rightarrow> map_option (Cons (t, take (length s - length q) s)) (lex_raw q)))"
  by pat_completeness auto
termination
  by (relation "measure length") (auto dest: next_tok_length)

declare lex_raw.simps [simp del]

lemma lex_raw_concat:
  assumes "list_all tok_ok ts" and "apart ts"
  shows "lex_raw (concat (map tok_text ts)) = Some (map (\<lambda>t. (t, tok_text t)) ts)"
  using assms
proof (induction ts)
  case Nil
  show ?case by (simp add: lex_raw.simps)
next
  case (Cons t ts)
  let ?s = "concat (map tok_text ts)"
  have ih: "lex_raw ?s = Some (map (\<lambda>t. (t, tok_text t)) ts)"
    using Cons by (cases ts) auto
  have sep: "is_num t \<longrightarrow> ?s = [] \<or> \<not> num_char (hd ?s)"
  proof (cases ts)
    case (Cons u us)
    then show ?thesis
      using Cons.prems tok_text_start [of u] by auto
  qed simp
  obtain c r where c: "tok_text t = c # r" "\<not> json_ws c"
    using tok_text_start by blast
  have "next_tok (tok_text t @ ?s) = Some (t, ?s)"
    using next_tok_text [OF _ sep] Cons.prems(1) by simp
  then show ?case
    using c ih by (simp add: lex_raw.simps [of "c # r @ ?s"])
qed

section \<open>Members of an object\<close>

text \<open>The tokens of one value, up to the comma or the bracket that follows it.\<close>

fun span_value :: "nat \<Rightarrow> rtok list \<Rightarrow> rtok list \<times> rtok list" where
  "span_value d [] = ([], [])"
| "span_value d (t # ts) =
     (if fst t = TLBrace \<or> fst t = TLBrack then apfst (Cons t) (span_value (Suc d) ts)
      else if d = 0 \<and> fst t \<in> {TComma, TRBrace, TRBrack} then ([], t # ts)
      else if fst t = TRBrace \<or> fst t = TRBrack then apfst (Cons t) (span_value (d - 1) ts)
      else apfst (Cons t) (span_value d ts))"

lemma span_value_length: "length (snd (span_value d ts)) \<le> length ts"
  by (induction d ts rule: span_value.induct) auto

function members :: "rtok list \<Rightarrow> (string \<times> rtok list) list option" where
  "members rts =
     (case rts of
        (TStr k, x) # (TColon, y) # ts \<Rightarrow>
          (case span_value 0 ts of
             (v, (TComma, z) # ts') \<Rightarrow> map_option (Cons (k, v)) (members ts')
           | (v, [(TRBrace, z)]) \<Rightarrow> Some [(k, v)]
           | _ \<Rightarrow> None)
      | _ \<Rightarrow> None)"
  by pat_completeness auto
termination
  by (relation "measure length")
    (auto dest!: arg_cong [where f = "length \<circ> snd"], metis Suc_le_lessD le_SucI span_value_length)

declare members.simps [simp del]

lemma members_Cons:
  assumes "span_value 0 ts = (v, (TComma, z) # ts')"
  shows "members ((TStr k, x) # (TColon, y) # ts) = map_option (Cons (k, v)) (members ts')"
  using assms by (simp add: members.simps [of "(TStr k, x) # (TColon, y) # ts"])

lemma members_last:
  assumes "span_value 0 ts = (v, [(TRBrace, z)])"
  shows "members ((TStr k, x) # (TColon, y) # ts) = Some [(k, v)]"
  using assms by (simp add: members.simps [of "(TStr k, x) # (TColon, y) # ts"])

text \<open>
  The members that \<^verbatim>\<open>json.Unmarshal\<close> reads into a struct. A document that is not valid JSON, or
  neither an object nor null, is an error.
\<close>

definition struct_members :: "bytes \<Rightarrow> (string \<times> rtok list) list option" where
  "struct_members data =
     (case lex_raw data of
        None \<Rightarrow> None
      | Some rts \<Rightarrow>
          if parse PVal [] (map fst rts) = None then None
          else
            (case map fst rts of
               [TNull] \<Rightarrow> Some []
             | [TLBrace, TRBrace] \<Rightarrow> Some []
             | TLBrace # ts \<Rightarrow> members (tl rts)
             | _ \<Rightarrow> None))"

lemma struct_members_object:
  assumes "lex_raw data = Some rts" and "parse PVal [] (map fst rts) \<noteq> None"
    and "map fst rts = TLBrace # TStr k # ts"
  shows "struct_members data = members (tl rts)"
  using assms by (auto simp add: struct_members_def simp del: parse_toks.simps)

text \<open>
  Keys match fields by simple case folding: besides the ASCII letters, the long s and the Kelvin
  sign fold to letters.
\<close>

fun fold_key :: "string \<Rightarrow> string" where
  "fold_key [] = []"
| "fold_key (a # s) =
     (if a = CHR 0xC5 \<and> s \<noteq> [] \<and> hd s = CHR 0xBF then CHR ''s'' # fold_key (tl s)
      else if a = CHR 0xE2 \<and> take 2 s = [CHR 0x84, CHR 0xAA] then CHR ''k'' # fold_key (drop 2 s)
      else (if (65 :: nat) \<le> byte_val a \<and> byte_val a \<le> (90 :: nat) then byte_of (byte_val a + 32) else a) # fold_key s)"

section \<open>Field types\<close>

text \<open>A field keeps its value when it is null; a value of another type is an error.\<close>

definition field_string :: "rtok list \<Rightarrow> string \<Rightarrow> string option" where
  "field_string rts old =
     (case rts of [(TStr s, x)] \<Rightarrow> Some s | [(TNull, x)] \<Rightarrow> Some old | _ \<Rightarrow> None)"

definition field_int64 :: "rtok list \<Rightarrow> int \<Rightarrow> int option" where
  "field_int64 rts old =
     (case rts of [(TNum d, x)] \<Rightarrow> atoi x | [(TNull, x)] \<Rightarrow> Some old | _ \<Rightarrow> None)"

text \<open>
  The elements of an array of strings, after its opening bracket; a null element is the empty
  string. (When a key is repeated, a null in the later array would keep the element that the
  earlier one had there; the model does not follow that.)
\<close>

fun string_elems :: "rtok list \<Rightarrow> string list option" where
  "string_elems [(TStr s, x), (TRBrack, y)] = Some [s]"
| "string_elems [(TNull, x), (TRBrack, y)] = Some [[]]"
| "string_elems ((TStr s, x) # (TComma, y) # ts) = map_option (Cons s) (string_elems ts)"
| "string_elems ((TNull, x) # (TComma, y) # ts) = map_option (Cons []) (string_elems ts)"
| "string_elems _ = None"

definition field_strings :: "rtok list \<Rightarrow> string list option" where
  "field_strings rts =
     (case rts of
        [(TNull, x)] \<Rightarrow> Some []
      | [(TLBrack, x), (TRBrack, y)] \<Rightarrow> Some []
      | (TLBrack, x) # ts \<Rightarrow> string_elems ts
      | _ \<Rightarrow> None)"

end
