(* ===== verification/EioClient.thy ===== *)
theory EioClient
  imports EioPacket EioOptions JsonStruct Steps "HOL-Library.AList"
begin

text \<open>
  The Engine.IO client (\<^verbatim>\<open>engineio/client.go\<close>) with its polling and WebSocket transports
  (\<^verbatim>\<open>engineio/client_transport.go\<close>). The goroutines are phases in the state: the poll loop, the
  loops that read from the WebSockets, the upgrades, the sends whose batch was taken but not
  handed over yet and the POST requests in flight, each with the goroutine that waits for it.
  Outcomes of requests, dials and writes are arguments of the steps they end.
\<close>

section \<open>State\<close>

datatype ctport = CPolling | CWebsocket nat

text \<open>
  The poll loop is at its top, waits for the pause to end, waits for the answer to its poll,
  dispatches the packets of an answer, waits while the pong to one of them is sent, or has
  returned.
\<close>

datatype poll_phase = PTop | PBlocked | PPolling | PDispatch "Packet list" | PPonging "Packet list" | PEnded

type_synonym query = "(string \<times> string list) list"

record cpolling =
  cp_query :: query
  cp_closed :: bool
  cp_cancelled :: bool
  cp_paused :: bool
  cp_inflight :: nat
  cp_sendInflight :: nat
  cp_phase :: poll_phase

text \<open>
  A WebSocket connection and its read loop, which is not started yet, waits for a frame, waits
  while a pong is sent, or has returned.
\<close>

datatype ws_phase = WIdle | WReading | WPonging | WEnded

record cwebsocket =
  cw_open :: bool
  cw_phase :: ws_phase

text \<open>
  An upgrade about to start, waiting for the sends in flight, dialing, waiting for the answer to
  its probe, or flushing the buffer after it failed. It keeps the session id and the transport it
  saw when it started.
\<close>

datatype up_phase = UStart | UPausing | UDialing | UProbing nat | UFailing

record client_upgrade =
  up_sid :: string
  up_tport :: "ctport option"
  up_phase :: up_phase

text \<open>
  Who sends, and waits for the send to return: a caller of \<^verbatim>\<open>SendMessage\<close> or the last act of an
  upgrade, after which nothing else happens; the loop that reads from a transport and answers a
  ping; an upgrade that failed.
\<close>

datatype sender = Caller | ReadLoop ctport | Upgrader nat

text \<open>
  \<open>ec_handshake\<close> is the value sent on \<^verbatim>\<open>handshakeDone\<close>, once there is one; \<open>ec_timers\<close> are the
  watchdogs that are running; \<open>ec_flights\<close> the batches taken by \<^verbatim>\<open>flushSends\<close> and not handed to
  their transport yet, \<open>ec_posts\<close> the POST requests without an answer. The URL is its scheme and
  its query, all that changes in it. A callback is a number, 0 the empty function of \<^verbatim>\<open>Dial\<close>.
\<close>

record eclient =
  ec_scheme :: string
  ec_query :: query
  ec_opts :: eio_options
  ec_sid :: string
  ec_tport :: "ctport option"
  ec_closed :: bool
  ec_writeBuffer :: "Packet list"
  ec_upgrading :: bool
  ec_pingInterval :: duration
  ec_pingTimeout :: duration
  ec_timers :: "(nat \<times> duration) list"
  ec_timer :: "nat option"
  ec_ntimers :: nat
  ec_handshake :: "go_error option option"
  ec_polling :: "cpolling option"
  ec_ws :: "nat \<Rightarrow> cwebsocket option"
  ec_flights :: "(sender \<times> ctport \<times> Packet list) list"
  ec_posts :: "sender list"
  ec_ups :: "(nat \<times> client_upgrade) list"
  ec_nups :: nat
  ec_onOpen :: nat
  ec_onData :: nat
  ec_onClose :: nat

text \<open>
  \<open>Given p\<close> records a packet accepted for sending and \<open>Unsent pkts\<close> those of a batch that its
  transport could not send; \<open>Get\<close> and \<open>Post\<close> are requests with their query, \<open>CFrame\<close> a packet
  written in a frame, \<open>RawFrame\<close> a text frame of the upgrade. The calls name the callback.
\<close>

datatype ec_effect =
    Given Packet
  | Get query
  | Post query "Packet list"
  | WsDial string query
  | CFrame nat Packet
  | RawFrame nat string
  | CClose nat
  | Unsent "Packet list"
  | OpenCall nat
  | DataCall nat bytes bool
  | CloseCall nat "go_error option"

type_synonym ec_step = "eclient \<Rightarrow> eclient \<times> ec_effect list"

section \<open>Arithmetic, statuses and queries\<close>

definition wrap64 :: "int \<Rightarrow> int" where
  "wrap64 i = (i - min_int64) mod 18446744073709551616 + min_int64"

text \<open>\<^verbatim>\<open>http.StatusText\<close>.\<close>

definition status_texts :: "(nat \<times> string) list" where
  "status_texts =
     [(100, ''Continue''), (101, ''Switching Protocols''), (102, ''Processing''), (103, ''Early Hints''),
      (200, ''OK''), (201, ''Created''), (202, ''Accepted''), (203, ''Non-Authoritative Information''),
      (204, ''No Content''), (205, ''Reset Content''), (206, ''Partial Content''), (207, ''Multi-Status''),
      (208, ''Already Reported''), (226, ''IM Used''), (300, ''Multiple Choices''), (301, ''Moved Permanently''),
      (302, ''Found''), (303, ''See Other''), (304, ''Not Modified''), (305, ''Use Proxy''),
      (307, ''Temporary Redirect''), (308, ''Permanent Redirect''), (400, ''Bad Request''), (401, ''Unauthorized''),
      (402, ''Payment Required''), (403, ''Forbidden''), (404, ''Not Found''), (405, ''Method Not Allowed''),
      (406, ''Not Acceptable''), (407, ''Proxy Authentication Required''), (408, ''Request Timeout''),
      (409, ''Conflict''), (410, ''Gone''), (411, ''Length Required''), (412, ''Precondition Failed''),
      (413, ''Request Entity Too Large''), (414, ''Request URI Too Long''), (415, ''Unsupported Media Type''),
      (416, ''Requested Range Not Satisfiable''), (417, ''Expectation Failed''), (418, ''I'' @ [CHR 0x27] @ ''m a teapot''),
      (421, ''Misdirected Request''), (422, ''Unprocessable Entity''), (423, ''Locked''), (424, ''Failed Dependency''),
      (425, ''Too Early''), (426, ''Upgrade Required''), (428, ''Precondition Required''), (429, ''Too Many Requests''),
      (431, ''Request Header Fields Too Large''), (451, ''Unavailable For Legal Reasons''),
      (500, ''Internal Server Error''), (501, ''Not Implemented''), (502, ''Bad Gateway''), (503, ''Service Unavailable''),
      (504, ''Gateway Timeout''), (505, ''HTTP Version Not Supported''), (506, ''Variant Also Negotiates''),
      (507, ''Insufficient Storage''), (508, ''Loop Detected''), (510, ''Not Extended''),
      (511, ''Network Authentication Required'')]"

definition httpError :: "nat \<Rightarrow> go_error" where
  "httpError code =
     ErrorsNew (''engineio: unexpected http status ''
       @ (case map_of status_texts code of None \<Rightarrow> [] | Some t \<Rightarrow> t))"

text \<open>\<^verbatim>\<open>url.Values.Set\<close>.\<close>

definition q_set :: "string \<Rightarrow> string \<Rightarrow> query \<Rightarrow> query" where
  "q_set k v q = AList.update k [v] q"

fun contains :: "string list \<Rightarrow> string \<Rightarrow> bool" where
  "contains [] s = False"
| "contains (v # vs) s = (if v = s then True else contains vs s)"

text \<open>The scheme of \<^verbatim>\<open>wsURLString\<close>.\<close>

definition ws_scheme :: "string \<Rightarrow> string" where
  "ws_scheme s = (if s = ''http'' then ''ws'' else if s = ''https'' then ''wss'' else s)"

definition map_cp :: "(cpolling \<Rightarrow> cpolling) \<Rightarrow> eclient \<Rightarrow> eclient" where
  "map_cp f c = c\<lparr>ec_polling := map_option f (ec_polling c)\<rparr>"

definition map_cws :: "nat \<Rightarrow> (cwebsocket \<Rightarrow> cwebsocket) \<Rightarrow> eclient \<Rightarrow> eclient" where
  "map_cws n f c = c\<lparr>ec_ws := (ec_ws c)(n := map_option f (ec_ws c n))\<rparr>"

definition open_ws :: "nat \<Rightarrow> ws_phase \<Rightarrow> eclient \<Rightarrow> eclient" where
  "open_ws n ph c = c\<lparr>ec_ws := (ec_ws c)(n \<mapsto> \<lparr>cw_open = True, cw_phase = ph\<rparr>)\<rparr>"

section \<open>The polling transport\<close>

definition new_cpolling :: "query \<Rightarrow> cpolling" where
  "new_cpolling q =
     \<lparr>cp_query = q, cp_closed = False, cp_cancelled = False, cp_paused = False, cp_inflight = 0,
      cp_sendInflight = 0, cp_phase = PTop\<rparr>"

text \<open>\<^verbatim>\<open>pause\<close> before it waits, and \<^verbatim>\<open>resume\<close>, which lets a loop that waits go on.\<close>

definition cp_pause :: "cpolling \<Rightarrow> cpolling" where
  "cp_pause p = p\<lparr>cp_paused := True\<rparr>"

definition stopForUpgrade :: "cpolling \<Rightarrow> cpolling" where
  "stopForUpgrade p = p\<lparr>cp_closed := True\<rparr>"

definition resume :: "cpolling \<Rightarrow> cpolling" where
  "resume p =
     (if \<not> cp_paused p then p
      else p\<lparr>cp_paused := False, cp_phase := if cp_phase p = PBlocked then PTop else cp_phase p\<rparr>)"

definition cp_Close :: "cpolling \<Rightarrow> cpolling" where
  "cp_Close p = (if cp_closed p then p else p\<lparr>cp_closed := True, cp_cancelled := True\<rparr>)"

definition urlWithSID :: "eclient \<Rightarrow> cpolling \<Rightarrow> query" where
  "urlWithSID c p = (if ec_sid c \<noteq> [] then q_set ''sid'' (ec_sid c) (cp_query p) else cp_query p)"

section \<open>Closing\<close>

definition stop_watchdog :: "eclient \<Rightarrow> eclient" where
  "stop_watchdog c =
     (case ec_timer c of
        None \<Rightarrow> c
      | Some i \<Rightarrow> c\<lparr>ec_timers := filter (\<lambda>(j, d). j \<noteq> i) (ec_timers c)\<rparr>)"

text \<open>Closing a connection, also with \<^verbatim>\<open>CloseNow\<close>; its read loop ends by \<open>cws_lost\<close>.\<close>

definition conn_Close :: "nat \<Rightarrow> ec_step" where
  "conn_Close n c = (map_cws n (\<lambda>w. w\<lparr>cw_open := False\<rparr>) c, [CClose n])"

definition c_Close :: "ctport \<Rightarrow> ec_step" where
  "c_Close t c = (case t of CPolling \<Rightarrow> (map_cp cp_Close c, []) | CWebsocket n \<Rightarrow> conn_Close n c)"

definition ec_Close :: ec_step where
  "ec_Close c =
     (if ec_closed c then (c, [])
      else
        (let c1 = stop_watchdog (c\<lparr>ec_closed := True\<rparr>)
         in case ec_tport c1 of None \<Rightarrow> (c1, []) | Some t \<Rightarrow> c_Close t c1))"

text \<open>Only the first value is sent on \<^verbatim>\<open>handshakeDone\<close>.\<close>

definition handshakeSucceeded :: "eclient \<Rightarrow> eclient" where
  "handshakeSucceeded c = (if ec_handshake c = None then c\<lparr>ec_handshake := Some None\<rparr> else c)"

definition handshakeFailed :: "go_error \<Rightarrow> eclient \<Rightarrow> eclient" where
  "handshakeFailed err c = (if ec_handshake c = None then c\<lparr>ec_handshake := Some (Some err)\<rparr> else c)"

definition closeWithError :: "go_error option \<Rightarrow> ec_step" where
  "closeWithError err c =
     (if ec_closed c then (c, [])
      else
        (let c1 = stop_watchdog (c\<lparr>ec_closed := True\<rparr>)
         in (case err of None \<Rightarrow> c1 | Some e \<Rightarrow> handshakeFailed e c1, [CloseCall (ec_onClose c1) err])))"

definition ec_onErrorFrom :: "ctport \<Rightarrow> go_error \<Rightarrow> ec_step" where
  "ec_onErrorFrom t err c =
     (if ec_tport c \<noteq> Some t then (c, []) else closeWithError (Some (wrapInvalidPacket err)) c)"

definition ec_onCloseFrom :: "ctport \<Rightarrow> ec_step" where
  "ec_onCloseFrom t c =
     (if ec_tport c \<noteq> Some t then (c, []) else closeWithError (Some (ErrorsNew ''engineio: transport closed'')) c)"

section \<open>The watchdog\<close>

definition resetNoPingTimeout :: "eclient \<Rightarrow> eclient" where
  "resetNoPingTimeout c =
     (let interval = (if ec_pingInterval c = 0 then eo_PingInterval (ec_opts c) else ec_pingInterval c);
          timeout = (if ec_pingTimeout c = 0 then eo_PingTimeout (ec_opts c) else ec_pingTimeout c)
      in if ec_closed c then c
         else
           (let c1 = stop_watchdog c
            in c1\<lparr>ec_timers := ec_timers c1 @ [(ec_ntimers c1, wrap64 (interval + timeout))],
                  ec_timer := Some (ec_ntimers c1), ec_ntimers := ec_ntimers c1 + 1\<rparr>))"

definition watchdog_fires :: "nat \<Rightarrow> ec_step" where
  "watchdog_fires i c =
     (if i \<in> fst ` set (ec_timers c)
      then closeWithError (Some (ErrorfW ErrHeartbeatTimeout ''ping timeout''))
             (c\<lparr>ec_timers := filter (\<lambda>(j, d). j \<noteq> i) (ec_timers c)\<rparr>)
      else (c, []))"

section \<open>Sending\<close>

definition set_up :: "nat \<Rightarrow> (client_upgrade \<Rightarrow> client_upgrade) \<Rightarrow> eclient \<Rightarrow> eclient" where
  "set_up k f c = c\<lparr>ec_ups := map (\<lambda>(j, u). (j, if j = k then f u else u)) (ec_ups c)\<rparr>"

definition end_up :: "nat \<Rightarrow> eclient \<Rightarrow> eclient" where
  "end_up k c = c\<lparr>ec_ups := filter (\<lambda>(j, u). j \<noteq> k) (ec_ups c)\<rparr>"

text \<open>
  A read loop that waits for its pong, and what the goroutines do when their send has returned:
  the loop restarts the watchdog and goes on, the failed upgrade lets the poll loop go on and ends.
\<close>

definition wait_read :: "ctport \<Rightarrow> eclient \<Rightarrow> eclient" where
  "wait_read t =
     (case t of
        CPolling \<Rightarrow> map_cp (\<lambda>p. case cp_phase p of PDispatch ps \<Rightarrow> p\<lparr>cp_phase := PPonging ps\<rparr> | _ \<Rightarrow> p)
      | CWebsocket n \<Rightarrow> map_cws n (\<lambda>w. w\<lparr>cw_phase := WPonging\<rparr>))"

definition resume_read :: "ctport \<Rightarrow> eclient \<Rightarrow> eclient" where
  "resume_read t =
     (case t of
        CPolling \<Rightarrow> map_cp (\<lambda>p. case cp_phase p of PPonging ps \<Rightarrow> p\<lparr>cp_phase := PDispatch ps\<rparr> | _ \<Rightarrow> p)
      | CWebsocket n \<Rightarrow> map_cws n (\<lambda>w. w\<lparr>cw_phase := WReading\<rparr>))"

definition resume_polling :: "nat \<Rightarrow> eclient \<Rightarrow> eclient" where
  "resume_polling k c =
     (case map_of (ec_ups c) k of
        Some u \<Rightarrow> if up_tport u = Some CPolling then map_cp resume c else c
      | None \<Rightarrow> c)"

definition waits :: "sender \<Rightarrow> eclient \<Rightarrow> eclient" where
  "waits who =
     (case who of
        Caller \<Rightarrow> (\<lambda>c. c)
      | ReadLoop t \<Rightarrow> wait_read t
      | Upgrader k \<Rightarrow> set_up k (\<lambda>u. u\<lparr>up_phase := UFailing\<rparr>))"

definition returned :: "sender \<Rightarrow> eclient \<Rightarrow> eclient" where
  "returned who c =
     (case who of
        Caller \<Rightarrow> c
      | ReadLoop t \<Rightarrow> resetNoPingTimeout (resume_read t c)
      | Upgrader k \<Rightarrow> end_up k (resume_polling k c))"

text \<open>
  \<^verbatim>\<open>flushSends\<close> takes the buffer; the batch is handed over by \<open>hand_batch\<close>. Without a batch it
  returns at once, otherwise its caller waits.
\<close>

definition taken :: "sender \<Rightarrow> eclient \<Rightarrow> eclient" where
  "taken who c =
     (case ec_tport c of
        None \<Rightarrow> returned who (c\<lparr>ec_writeBuffer := []\<rparr>)
      | Some t \<Rightarrow>
          if ec_writeBuffer c = [] then returned who c
          else waits who (c\<lparr>ec_writeBuffer := [], ec_flights := ec_flights c @ [(who, t, ec_writeBuffer c)]\<rparr>))"

definition flushSends :: "sender \<Rightarrow> eclient \<Rightarrow> eclient" where
  "flushSends who c = (if ec_closed c \<or> ec_upgrading c then returned who c else taken who c)"

definition ec_SendMessage :: "bytes \<Rightarrow> bool \<Rightarrow> eclient \<Rightarrow> (eclient \<times> ec_effect list) \<times> go_error option" where
  "ec_SendMessage data binary c =
     (if ec_closed c then ((c, []), Some (ErrorsNew ''engineio: client is closed''))
      else
        (let p = \<lparr>pkt_Type = Message, pkt_Data = data, pkt_IsBinary = binary\<rparr>
         in ((flushSends Caller (c\<lparr>ec_writeBuffer := ec_writeBuffer c @ [p]\<rparr>), [Given p]), None)))"

definition ec_sendPacket :: "sender \<Rightarrow> Packet \<Rightarrow> ec_step" where
  "ec_sendPacket who p c =
     (if ec_closed c then (returned who c, [])
      else (flushSends who (c\<lparr>ec_writeBuffer := ec_writeBuffer c @ [p]\<rparr>), [Given p]))"

text \<open>
  \<^verbatim>\<open>clientWebsocket.Send\<close>: all writes succeed, or the first \<open>k\<close> do and the next one fails;
  \<^verbatim>\<open>clientPolling.Send\<close> up to sending its request, which fails when there is no request. (A batch
  for the polling transport exists only if that transport does.)
\<close>

definition cws_Send :: "nat \<Rightarrow> Packet list \<Rightarrow> (nat \<times> go_error) option \<Rightarrow> ec_step" where
  "cws_Send n pkts w =
     (case w of
        None \<Rightarrow> perform (map (CFrame n) pkts)
      | Some (k, err) \<Rightarrow>
          if k < length pkts
          then run_all [perform (map (CFrame n) (take k pkts) @ [Unsent (drop k pkts)]), ec_onErrorFrom (CWebsocket n) err]
          else perform (map (CFrame n) pkts))"

definition cp_Send :: "sender \<Rightarrow> Packet list \<Rightarrow> go_error option \<Rightarrow> ec_step" where
  "cp_Send who pkts norequest c =
     (case ec_polling c of
        None \<Rightarrow> (c, [Unsent pkts])
      | Some p \<Rightarrow>
          (case norequest of
             Some err \<Rightarrow> run_all [perform [Unsent pkts], ec_onErrorFrom CPolling err, modify (returned who)] c
           | None \<Rightarrow>
               (map_cp (\<lambda>p. p\<lparr>cp_sendInflight := cp_sendInflight p + 1\<rparr>) (c\<lparr>ec_posts := ec_posts c @ [who]\<rparr>),
                [Post (urlWithSID c p) pkts])))"

text \<open>Batch \<open>k\<close> is handed to its transport.\<close>

definition remove_nth :: "nat \<Rightarrow> 'a list \<Rightarrow> 'a list" where
  "remove_nth k xs = take k xs @ drop (Suc k) xs"

definition hand_batch :: "nat \<Rightarrow> go_error option \<Rightarrow> (nat \<times> go_error) option \<Rightarrow> ec_step" where
  "hand_batch k norequest w c =
     (if length (ec_flights c) \<le> k then (c, [])
      else
        (let c1 = c\<lparr>ec_flights := remove_nth k (ec_flights c)\<rparr>
         in case ec_flights c ! k of
              (who, CPolling, pkts) \<Rightarrow> cp_Send who pkts norequest c1
            | (who, CWebsocket n, pkts) \<Rightarrow> run_all [cws_Send n pkts w, modify (returned who)] c1))"

text \<open>The end of POST request \<open>k\<close>: its error, or the status of its answer.\<close>

definition post_outcome :: "bool \<Rightarrow> go_error + nat \<Rightarrow> ec_step" where
  "post_outcome cancelled outcome =
     (case outcome of
        Inl err \<Rightarrow> if cancelled then perform [] else ec_onErrorFrom CPolling err
      | Inr status \<Rightarrow> if status \<noteq> 200 then ec_onErrorFrom CPolling (httpError status) else perform [])"

definition post_done :: "nat \<Rightarrow> go_error + nat \<Rightarrow> ec_step" where
  "post_done k outcome c =
     (case ec_polling c of
        None \<Rightarrow> (c, [])
      | Some p \<Rightarrow>
          if length (ec_posts c) \<le> k then (c, [])
          else
            run_all
              [modify (\<lambda>c. map_cp (\<lambda>p. p\<lparr>cp_sendInflight := cp_sendInflight p - 1\<rparr>)
                 (c\<lparr>ec_posts := remove_nth k (ec_posts c)\<rparr>)),
               post_outcome (cp_cancelled p) outcome,
               modify (returned (ec_posts c ! k))] c)"

section \<open>Receiving\<close>

text \<open>The handshake data and its decoding, an error when a member has the wrong type.\<close>

record open_data =
  od_SID :: string
  od_Upgrades :: "string list"
  od_PingInterval :: int
  od_PingTimeout :: int
  od_MaxPayload :: int

definition zero_open_data :: open_data where
  "zero_open_data = \<lparr>od_SID = [], od_Upgrades = [], od_PingInterval = 0, od_PingTimeout = 0, od_MaxPayload = 0\<rparr>"

definition open_member :: "string \<times> rtok list \<Rightarrow> open_data \<Rightarrow> open_data option" where
  "open_member m o1 =
     (case m of
        (k, v) \<Rightarrow>
          if fold_key k = ''sid'' then map_option (\<lambda>x. o1\<lparr>od_SID := x\<rparr>) (field_string v (od_SID o1))
          else if fold_key k = ''upgrades'' then map_option (\<lambda>x. o1\<lparr>od_Upgrades := x\<rparr>) (field_strings v)
          else if fold_key k = ''pinginterval'' then
            map_option (\<lambda>x. o1\<lparr>od_PingInterval := x\<rparr>) (field_int64 v (od_PingInterval o1))
          else if fold_key k = ''pingtimeout'' then
            map_option (\<lambda>x. o1\<lparr>od_PingTimeout := x\<rparr>) (field_int64 v (od_PingTimeout o1))
          else if fold_key k = ''maxpayload'' then
            map_option (\<lambda>x. o1\<lparr>od_MaxPayload := x\<rparr>) (field_int64 v (od_MaxPayload o1))
          else Some o1)"

definition decode_open :: "bytes \<Rightarrow> open_data option" where
  "decode_open data =
     Option.bind (struct_members data) (\<lambda>ms. fold (\<lambda>m o1. Option.bind o1 (open_member m)) ms (Some zero_open_data))"

definition start_upgrade :: "eclient \<Rightarrow> eclient" where
  "start_upgrade c =
     c\<lparr>ec_ups := ec_ups c @ [(ec_nups c, \<lparr>up_sid = [], up_tport = None, up_phase = UStart\<rparr>)], ec_nups := ec_nups c + 1\<rparr>"

definition handleOpen :: "bytes \<Rightarrow> ec_step" where
  "handleOpen data c =
     (case decode_open data of
        None \<Rightarrow> closeWithError (Some JsonError) c
      | Some o1 \<Rightarrow>
          (let c1 = c\<lparr>ec_sid := od_SID o1, ec_pingInterval := wrap64 (od_PingInterval o1 * 1000000),
                      ec_pingTimeout := wrap64 (od_PingTimeout o1 * 1000000)\<rparr>;
               c2 = resetNoPingTimeout c1;
               c3 = (if contains (od_Upgrades o1) ''websocket'' \<and> eo_AllowUpgrades (ec_opts c)
                        \<and> ''websocket'' \<in> set (transportsEnabled (ec_opts c)) then start_upgrade c2 else c2)
           in (handshakeSucceeded c3, [OpenCall (ec_onOpen c3)])))"

text \<open>The watchdog is restarted when the pong has been sent (\<open>returned\<close>).\<close>

definition ec_onPacket :: "ctport \<Rightarrow> Packet \<Rightarrow> ec_step" where
  "ec_onPacket t p c =
     (case pkt_Type p of
        Open \<Rightarrow> handleOpen (pkt_Data p) c
      | Ping \<Rightarrow> ec_sendPacket (ReadLoop t) (text_packet Pong (pkt_Data p)) c
      | Message \<Rightarrow> (c, [DataCall (ec_onData c) (pkt_Data p) (pkt_IsBinary p)])
      | Close \<Rightarrow> closeWithError None c
      | _ \<Rightarrow> (c, []))"

definition binding_OnPacket :: "ctport \<Rightarrow> Packet \<Rightarrow> ec_step" where
  "binding_OnPacket t p c =
     (if ec_tport c \<noteq> Some t \<and> pkt_Type p = Close then (c, []) else ec_onPacket t p c)"

section \<open>The poll loop\<close>

definition poll_top :: "go_error option \<Rightarrow> ec_step" where
  "poll_top norequest c =
     (case ec_polling c of
        None \<Rightarrow> (c, [])
      | Some p \<Rightarrow>
          if cp_phase p \<noteq> PTop then (c, [])
          else if cp_closed p then (map_cp (\<lambda>p. p\<lparr>cp_phase := PEnded\<rparr>) c, [])
          else if cp_paused p then (map_cp (\<lambda>p. p\<lparr>cp_phase := PBlocked\<rparr>) c, [])
          else if cp_cancelled p then (map_cp (\<lambda>p. p\<lparr>cp_phase := PEnded\<rparr>) c, [])
          else
            (case norequest of
               Some err \<Rightarrow> ec_onErrorFrom CPolling err (map_cp (\<lambda>p. p\<lparr>cp_phase := PEnded\<rparr>) c)
             | None \<Rightarrow>
                 (map_cp (\<lambda>p. p\<lparr>cp_phase := PPolling, cp_inflight := cp_inflight p + 1\<rparr>) c, [Get (urlWithSID c p)])))"

text \<open>A loop that waits returns when the transport is cancelled.\<close>

definition poll_unblocked :: "eclient \<Rightarrow> eclient" where
  "poll_unblocked c =
     map_cp (\<lambda>p. if cp_phase p = PBlocked \<and> cp_cancelled p then p\<lparr>cp_phase := PEnded\<rparr> else p) c"

text \<open>The outcome of a poll: an error, or a status and the outcome of reading the body.\<close>

definition poll_answered :: "go_error + nat \<times> (go_error + bytes) \<Rightarrow> ec_step" where
  "poll_answered outcome c =
     (case ec_polling c of
        None \<Rightarrow> (c, [])
      | Some p \<Rightarrow>
          if cp_phase p \<noteq> PPolling then (c, [])
          else
            (let ended = map_cp (\<lambda>p. p\<lparr>cp_phase := PEnded, cp_inflight := cp_inflight p - 1\<rparr>) c;
                 dispatch = (\<lambda>pkts. map_cp (\<lambda>p. p\<lparr>cp_phase := PDispatch pkts, cp_inflight := cp_inflight p - 1\<rparr>) c)
             in case outcome of
                  Inl err \<Rightarrow> if cp_cancelled p then (ended, []) else ec_onErrorFrom CPolling err ended
                | Inr (status, body) \<Rightarrow>
                    if status \<noteq> 200 then ec_onErrorFrom CPolling (httpError status) ended
                    else
                      (case body of
                         Inl err \<Rightarrow> ec_onErrorFrom CPolling err ended
                       | Inr b \<Rightarrow>
                           (case DecodePayloadWithLimit b 0 of
                              (pkts, Some err, _) \<Rightarrow> ec_onErrorFrom CPolling err ended
                            | (pkts, None, _) \<Rightarrow> (dispatch pkts, [])))))"

text \<open>The next packet of the answer, or the end of the iteration.\<close>

definition poll_next :: ec_step where
  "poll_next c =
     (case ec_polling c of
        None \<Rightarrow> (c, [])
      | Some p \<Rightarrow>
          (case cp_phase p of
             PDispatch [] \<Rightarrow> (map_cp (\<lambda>p. p\<lparr>cp_phase := PTop\<rparr>) c, [])
           | PDispatch (q # qs) \<Rightarrow> binding_OnPacket CPolling q (map_cp (\<lambda>p. p\<lparr>cp_phase := PDispatch qs\<rparr>) c)
           | _ \<Rightarrow> (c, [])))"

section \<open>Frames\<close>

text \<open>\<^verbatim>\<open>readLoop\<close> of a WebSocket: a frame, and the end of the connection.\<close>

definition reading :: "nat \<Rightarrow> eclient \<Rightarrow> bool" where
  "reading n c = (case ec_ws c n of None \<Rightarrow> False | Some w \<Rightarrow> cw_phase w = WReading)"

definition cws_frame :: "nat \<Rightarrow> bytes \<Rightarrow> bool \<Rightarrow> ec_step" where
  "cws_frame n data binary c =
     (if \<not> reading n c then (c, [])
      else if binary then binding_OnPacket (CWebsocket n) (binary_packet data) c
      else
        (case DecodePacket data False of
           Inl err \<Rightarrow> ec_onErrorFrom (CWebsocket n) err c
         | Inr p \<Rightarrow> binding_OnPacket (CWebsocket n) p c))"

definition cws_lost :: "nat \<Rightarrow> ec_step" where
  "cws_lost n c =
     (if \<not> reading n c then (c, [])
      else ec_onCloseFrom (CWebsocket n) (map_cws n (\<lambda>w. w\<lparr>cw_phase := WEnded\<rparr>) c))"

section \<open>Upgrading\<close>

text \<open>The start, up to the wait for the sends in flight.\<close>

definition up_start :: "nat \<Rightarrow> eclient \<Rightarrow> eclient" where
  "up_start k c =
     (case map_of (ec_ups c) k of
        Some u \<Rightarrow>
          if up_phase u \<noteq> UStart then c
          else if ec_sid c = [] then end_up k c
          else
            (let c1 = c\<lparr>ec_upgrading := True\<rparr>
             in if ec_tport c = Some CPolling
                then map_cp cp_pause (set_up k (\<lambda>u. u\<lparr>up_sid := ec_sid c, up_tport := ec_tport c, up_phase := UPausing\<rparr>) c1)
                else set_up k (\<lambda>u. u\<lparr>up_sid := ec_sid c, up_tport := ec_tport c, up_phase := UDialing\<rparr>) c1)
      | None \<Rightarrow> c)"

definition up_paused :: "nat \<Rightarrow> eclient \<Rightarrow> eclient" where
  "up_paused k c =
     (case map_of (ec_ups c) k of
        Some u \<Rightarrow>
          if up_phase u = UPausing \<and> (case ec_polling c of None \<Rightarrow> True | Some p \<Rightarrow> cp_sendInflight p = 0)
          then set_up k (\<lambda>u. u\<lparr>up_phase := UDialing\<rparr>) c else c
      | None \<Rightarrow> c)"

text \<open>The function \<^verbatim>\<open>fail\<close>; the rest of it and the return are in \<open>returned\<close>.\<close>

definition up_fail :: "nat \<Rightarrow> eclient \<Rightarrow> eclient" where
  "up_fail k c = flushSends (Upgrader k) (c\<lparr>ec_upgrading := False\<rparr>)"

text \<open>The dial fails, or gives WebSocket \<open>n\<close>, on which writing the probe succeeds or not.\<close>

definition up_opened :: "nat \<Rightarrow> go_error + nat \<times> go_error option \<Rightarrow> ec_step" where
  "up_opened k outcome =
     (case outcome of
        Inl err \<Rightarrow> modify (up_fail k)
      | Inr (n, Some err) \<Rightarrow> run_all [modify (open_ws n WIdle), conn_Close n, modify (up_fail k)]
      | Inr (n, None) \<Rightarrow>
          run_all
            [modify (open_ws n WIdle), perform [RawFrame n ''2probe''],
             modify (set_up k (\<lambda>u. u\<lparr>up_phase := UProbing n\<rparr>))])"

definition up_dialed :: "nat \<Rightarrow> go_error + nat \<times> go_error option \<Rightarrow> ec_step" where
  "up_dialed k outcome c =
     (case map_of (ec_ups c) k of
        Some u \<Rightarrow>
          if up_phase u \<noteq> UDialing then (c, [])
          else
            run_all
              [perform [WsDial (ws_scheme (ec_scheme c))
                 (q_set ''sid'' (up_sid u) (q_set ''transport'' ''websocket'' (q_set ''EIO'' ''4'' (ec_query c))))],
               up_opened k outcome] c
      | None \<Rightarrow> (c, []))"

text \<open>
  The switch. There is always a transport to replace, the one that received the handshake.
\<close>

definition replace_transport :: "ctport option \<Rightarrow> ec_step" where
  "replace_transport old =
     (case old of
        None \<Rightarrow> perform []
      | Some CPolling \<Rightarrow> modify (map_cp stopForUpgrade)
      | Some (CWebsocket m) \<Rightarrow> c_Close (CWebsocket m))"

definition up_finish :: "nat \<Rightarrow> nat \<Rightarrow> ec_step" where
  "up_finish k n c =
     (if ec_closed c then run_all [conn_Close n, modify (end_up k)] c
      else
        run_all
          [modify (\<lambda>c. c\<lparr>ec_tport := Some (CWebsocket n), ec_upgrading := False\<rparr>),
           replace_transport (ec_tport c),
           modify (map_cws n (\<lambda>w. w\<lparr>cw_phase := WReading\<rparr>)),
           modify (end_up k),
           modify (flushSends Caller)] c)"

text \<open>
  The upgrade reads: an error (also the timeout), or a frame; after the expected answer the
  confirmation is written, with its outcome.
\<close>

definition up_read :: "nat \<Rightarrow> go_error + bool \<times> bytes \<Rightarrow> go_error option \<Rightarrow> ec_step" where
  "up_read k outcome confirm c =
     (case map_of (ec_ups c) k of
        Some u \<Rightarrow>
          (case up_phase u of
             UProbing n \<Rightarrow>
               (case outcome of
                  Inl err \<Rightarrow> run_all [conn_Close n, modify (up_fail k)] c
                | Inr (binary, data) \<Rightarrow>
                    if \<not> binary \<and> data = ''3probe'' then
                      (case confirm of
                         Some err \<Rightarrow> run_all [conn_Close n, modify (up_fail k)] c
                       | None \<Rightarrow> run_all [perform [RawFrame n ''5''], up_finish k n] c)
                    else (c, []))
           | _ \<Rightarrow> (c, []))
      | None \<Rightarrow> (c, []))"

section \<open>Dialing\<close>

definition new_eclient :: "eio_options option \<Rightarrow> string \<Rightarrow> query \<Rightarrow> eclient" where
  "new_eclient opts scheme q =
     \<lparr>ec_scheme = scheme, ec_query = q,
      ec_opts = eio_withDefaults (case opts of None \<Rightarrow> zero_eio_options | Some o1 \<Rightarrow> o1),
      ec_sid = [], ec_tport = None, ec_closed = False, ec_writeBuffer = [], ec_upgrading = False,
      ec_pingInterval = 0, ec_pingTimeout = 0, ec_timers = [], ec_timer = None, ec_ntimers = 0,
      ec_handshake = None, ec_polling = None, ec_ws = \<lambda>_. None, ec_flights = [], ec_posts = [], ec_ups = [], ec_nups = 0,
      ec_onOpen = 0, ec_onData = 0, ec_onClose = 0\<rparr>"

definition dialPolling :: "eclient \<Rightarrow> eclient" where
  "dialPolling c =
     c\<lparr>ec_polling := Some (new_cpolling (q_set ''transport'' ''polling'' (q_set ''EIO'' ''4'' (ec_query c)))),
       ec_tport := Some CPolling\<rparr>"

text \<open>The WebSocket of the dial has the number 0.\<close>

definition dialWebsocket :: "go_error option \<Rightarrow> eclient \<Rightarrow> go_error + eclient \<times> ec_effect list" where
  "dialWebsocket failed c =
     (case failed of
        Some err \<Rightarrow> Inl err
      | None \<Rightarrow>
          Inr ((open_ws 0 WReading c)\<lparr>ec_tport := Some (CWebsocket 0)\<rparr>,
               [WsDial (ws_scheme (ec_scheme c)) (q_set ''transport'' ''websocket'' (q_set ''EIO'' ''4'' (ec_query c)))]))"

text \<open>
  \<^verbatim>\<open>Dial\<close> up to its wait, for a URL that was parsed (or not), and what the wait can end with:
  the handshake, or the end of its context.
\<close>

definition eio_Dial ::
    "eio_options option \<Rightarrow> go_error + string \<times> query \<Rightarrow> go_error option \<Rightarrow> go_error + eclient \<times> ec_effect list" where
  "eio_Dial opts parsed failed =
     (case parsed of
        Inl err \<Rightarrow> Inl err
      | Inr (scheme, q) \<Rightarrow>
          (let c = new_eclient opts scheme q; first = hd (eo_Transports (ec_opts c))
           in if first = ''polling'' then Inr (dialPolling c, [])
              else if first = ''websocket'' then dialWebsocket failed c
              else Inr (c, [])))"

definition eio_Dial_result :: "eclient \<Rightarrow> go_error option option" where
  "eio_Dial_result c = ec_handshake c"

definition eio_Dial_cancelled :: ec_step where
  "eio_Dial_cancelled = ec_Close"

section \<open>Callbacks\<close>

text \<open>A nil function is ignored.\<close>

definition ec_OnOpen :: "nat option \<Rightarrow> eclient \<Rightarrow> eclient" where
  "ec_OnOpen f c = (case f of None \<Rightarrow> c | Some h \<Rightarrow> c\<lparr>ec_onOpen := h\<rparr>)"

definition ec_OnData :: "nat option \<Rightarrow> eclient \<Rightarrow> eclient" where
  "ec_OnData f c = (case f of None \<Rightarrow> c | Some h \<Rightarrow> c\<lparr>ec_onData := h\<rparr>)"

definition ec_OnClose :: "nat option \<Rightarrow> eclient \<Rightarrow> eclient" where
  "ec_OnClose f c = (case f of None \<Rightarrow> c | Some h \<Rightarrow> c\<lparr>ec_onClose := h\<rparr>)"

definition SID :: "eclient \<Rightarrow> string" where
  "SID c = ec_sid c"

end
