(* ===== verification/EioServer.thy ===== *)
theory EioServer
  imports EioSession "HOL-Library.AList"
begin

text \<open>
  The Engine.IO server (\<^verbatim>\<open>engineio/server.go\<close>): the table of sessions, the checks of a
  request, and the ways a request reaches a session or creates one.
\<close>

section \<open>State\<close>

text \<open>
  What a connect handler of the application does with the new session, each call with the
  outcome of the writes it leads to.
\<close>

datatype app_call = ASend bytes bool writes | AClose writes

text \<open>
  Sockets are named by numbers; \<open>es_clients\<close> is the table from session ids to them. The data
  and close handlers of the application show in the effects of the sessions.
\<close>

record eio_server =
  es_Options :: eio_options
  es_clients :: "(string \<times> nat) list"
  es_socks :: "nat \<Rightarrow> session option"
  es_nsocks :: nat
  es_onConnect :: "(string \<Rightarrow> app_call list) option"

text \<open>
  \<open>Sock i e\<close> is an effect of socket \<open>i\<close>, \<open>ConnectCb i\<close> the call of the connect handler,
  \<open>HttpError r status body\<close> the answer to a refused request, and \<open>HandlerPanic r\<close> a panic
  while request \<open>r\<close> is handled.
\<close>

datatype srv_effect =
    Sock nat eio_effect
  | ConnectCb nat
  | HttpError nat nat bytes
  | HandlerPanic nat

type_synonym srv_step = "eio_server \<Rightarrow> eio_server \<times> srv_effect list"

definition eio_NewServer :: "eio_options option \<Rightarrow> eio_server" where
  "eio_NewServer opts =
     \<lparr>es_Options = eio_withDefaults (case opts of None \<Rightarrow> zero_eio_options | Some o1 \<Rightarrow> o1),
      es_clients = [], es_socks = \<lambda>_. None, es_nsocks = 0, es_onConnect = None\<rparr>"

definition eio_OnConnect :: "(string \<Rightarrow> app_call list) option \<Rightarrow> eio_server \<Rightarrow> eio_server" where
  "eio_OnConnect f sv = sv\<lparr>es_onConnect := f\<rparr>"

definition ClientsCount :: "eio_server \<Rightarrow> nat" where
  "ClientsCount sv = length (es_clients sv)"

text \<open>
  A step of a session seen from the server: the close callback, which \<^verbatim>\<open>createSocket\<close> set,
  takes the id of the session out of the table.
\<close>

definition in_session :: "nat \<Rightarrow> eio_step \<Rightarrow> srv_step" where
  "in_session i f sv =
     (case es_socks sv i of
        None \<Rightarrow> (sv, [])
      | Some s \<Rightarrow>
          (case f s of
             (s', es) \<Rightarrow>
               (let sv1 = sv\<lparr>es_socks := (es_socks sv)(i \<mapsto> s')\<rparr>
                in (if list_ex is_CloseCb es then sv1\<lparr>es_clients := AList.delete (ss_id s) (es_clients sv1)\<rparr> else sv1,
                    map (Sock i) es))))"

section \<open>Refusing requests\<close>

fun errorMessages :: "error_code \<Rightarrow> string" where
  "errorMessages ErrCodeUnknownTransport = ''Transport unknown''"
| "errorMessages ErrCodeUnknownSID = ''Session ID unknown''"
| "errorMessages ErrCodeBadHandshakeMethod = ''Bad handshake method''"
| "errorMessages ErrCodeBadRequest = ''Bad request''"
| "errorMessages ErrCodeForbidden = ''Forbidden''"
| "errorMessages ErrCodeUnsupportedProtocolVersion = ''Unsupported protocol version''"

text \<open>The context is the message it holds, if any.\<close>

definition abortRequest :: "nat \<Rightarrow> error_code \<Rightarrow> string option \<Rightarrow> srv_step" where
  "abortRequest r code ctx =
     perform
       [HttpError r (if code = ErrCodeForbidden then 403 else 400)
          (marshal (VObj [(''code'', VNum (dec_of_nat (error_code_num code))),
             (''message'', VStr (case ctx of None \<Rightarrow> errorMessages code | Some m \<Rightarrow> m))]) @ [CHR 0x0A])]"

definition abortUpgrade :: "nat \<Rightarrow> error_code \<Rightarrow> srv_step" where
  "abortUpgrade r code = abortRequest r code None"

fun errorCode :: "go_error \<Rightarrow> error_code" where
  "errorCode ErrUnsupportedProtocol = ErrCodeUnsupportedProtocolVersion"
| "errorCode ErrUnknownTransport = ErrCodeUnknownTransport"
| "errorCode ErrUnknownSID = ErrCodeUnknownSID"
| "errorCode ErrBadHandshakeMethod = ErrCodeBadHandshakeMethod"
| "errorCode ErrForbidden = ErrCodeForbidden"
| "errorCode _ = ErrCodeBadRequest"

section \<open>Checking requests\<close>

text \<open>A session that has no transport yet makes \<^verbatim>\<open>verify\<close> panic.\<close>

datatype verdict = Accepted | Refused go_error | Panicked

definition verify :: "eio_server \<Rightarrow> request \<Rightarrow> bool \<Rightarrow> verdict" where
  "verify sv rq is_upgrade =
     (let tname = get_first (rq_Query rq) ''transport'';
          sid = get_first (rq_Query rq) ''sid''
      in if get_first (rq_Query rq) ''EIO'' \<noteq> ''4'' then Refused ErrUnsupportedProtocol
         else if tname \<notin> set (transportsEnabled (es_Options sv)) then Refused ErrUnknownTransport
         else if sid \<noteq> [] then
           (case Option.bind (map_of (es_clients sv) sid) (es_socks sv) of
              None \<Rightarrow> Refused ErrUnknownSID
            | Some s \<Rightarrow>
                (case ss_transport s of
                   None \<Rightarrow> Panicked
                 | Some t \<Rightarrow> if \<not> is_upgrade \<and> t_Name t \<noteq> tname then Refused ErrBadRequest else Accepted))
         else if rq_Method rq \<noteq> ''GET'' then Refused ErrBadHandshakeMethod
         else if tname = ''websocket'' \<and> \<not> is_upgrade then Refused ErrBadRequest
         else
           (case eo_AllowRequest (es_Options sv) of
              None \<Rightarrow> Accepted
            | Some allow \<Rightarrow> if allow rq \<noteq> None then Refused ErrForbidden else Accepted))"

section \<open>Creating sessions\<close>

text \<open>
  The 18 random bytes are an argument (\<open>None\<close> when the source of randomness fails); 18 bytes
  leave no padding to the encoding.
\<close>

definition generateID :: "eio_options \<Rightarrow> request \<Rightarrow> bytes option \<Rightarrow> string option" where
  "generateID o1 rq rnd =
     (case eo_GenerateID o1 of
        Some g \<Rightarrow> Some (g rq)
      | None \<Rightarrow> map_option b64_encode rnd)"

definition run_app_call :: "app_call \<Rightarrow> eio_step" where
  "run_app_call c =
     (case c of
        ASend data binary w \<Rightarrow> run_all [SendMessage data binary, flush_end w]
      | AClose w \<Rightarrow> ss_Close w)"

definition createSocket :: "(session \<Rightarrow> session) \<Rightarrow> string \<Rightarrow> writes \<Rightarrow> srv_step" where
  "createSocket att sid w sv =
     (let i = es_nsocks sv
      in run_all
           [modify (\<lambda>sv. sv\<lparr>es_socks := (es_socks sv)(i \<mapsto> newSession sid (es_Options sv)), es_nsocks := i + 1\<rparr>),
            modify (\<lambda>sv. sv\<lparr>es_clients := AList.update sid i (es_clients sv)\<rparr>),
            in_session i (run_all [modify att, ss_open w]),
            (\<lambda>sv.
               case es_onConnect sv of
                 None \<Rightarrow> (sv, [])
               | Some f \<Rightarrow> run_all [perform [ConnectCb i], in_session i (run_all (map run_app_call (f sid)))] sv)] sv)"

text \<open>\<^verbatim>\<open>Polling.ServeHTTP\<close> with what it leads to in the session.\<close>

definition polling_ServeHTTP :: "nat \<Rightarrow> request \<Rightarrow> writes \<Rightarrow> eio_step" where
  "polling_ServeHTTP r rq w s =
     (if rq_Method rq = ''GET'' then onPollRequest r w s
      else if rq_Method rq = ''POST'' then
        (case ss_polling s of
           None \<Rightarrow> (s, [])
         | Some p \<Rightarrow>
             if pl_dataReq p \<noteq> None then polling_call (data_begin r) s
             else run_all [polling_call (data_begin r), onDataRequest r rq] s)
      else run_all (map dispatch (bad_method r)) s)"

definition handshake :: "string \<Rightarrow> nat \<Rightarrow> request \<Rightarrow> writes \<Rightarrow> srv_step" where
  "handshake sid r rq w sv =
     run_all
       [createSocket (attach_polling (SetMaxBufferSize (eo_MaxHTTPBufferSize (es_Options sv)) NewPolling)) sid w,
        in_session (es_nsocks sv) (polling_ServeHTTP r rq w)] sv"

definition handshakeWebsocket :: "string \<Rightarrow> nat \<Rightarrow> writes \<Rightarrow> srv_step" where
  "handshakeWebsocket sid n w = createSocket (attach_websocket n) sid w"

section \<open>Serving requests\<close>

text \<open>
  A WebSocket that a request becomes has the number of the request; \<open>accepted\<close> says whether
  \<^verbatim>\<open>websocket.Accept\<close> succeeds.
\<close>

definition handlePolling :: "nat \<Rightarrow> request \<Rightarrow> bytes option \<Rightarrow> writes \<Rightarrow> srv_step" where
  "handlePolling r rq rnd w sv =
     (case verify sv rq False of
        Refused err \<Rightarrow> abortRequest r (errorCode err) None sv
      | Panicked \<Rightarrow> (sv, [HandlerPanic r])
      | Accepted \<Rightarrow>
          (let sid = get_first (rq_Query rq) ''sid''
           in if sid = [] then
                (case generateID (es_Options sv) rq rnd of
                   None \<Rightarrow> (sv, [HandlerPanic r])
                 | Some new \<Rightarrow> handshake new r rq w sv)
              else
                (case map_of (es_clients sv) sid of
                   None \<Rightarrow> abortRequest r ErrCodeUnknownSID None sv
                 | Some i \<Rightarrow>
                     if Option.bind (es_socks sv i) ss_transport = Some TPolling then in_session i (polling_ServeHTTP r rq w) sv
                     else if Option.bind (es_socks sv i) ss_polling \<noteq> None then in_session i (polling_ServeHTTP r rq w) sv
                     else abortRequest r ErrCodeBadRequest None sv)))"

definition handleWebsocket :: "nat \<Rightarrow> request \<Rightarrow> bytes option \<Rightarrow> bool \<Rightarrow> writes \<Rightarrow> srv_step" where
  "handleWebsocket r rq rnd accepted w sv =
     (case verify sv rq True of
        Refused err \<Rightarrow> abortUpgrade r (errorCode err) sv
      | Panicked \<Rightarrow> (sv, [HandlerPanic r])
      | Accepted \<Rightarrow>
          (let sid = get_first (rq_Query rq) ''sid''
           in if sid \<noteq> [] then
                (case map_of (es_clients sv) sid of
                   None \<Rightarrow> abortUpgrade r ErrCodeUnknownSID sv
                 | Some i \<Rightarrow> if \<not> accepted then (sv, []) else in_session i (MaybeUpgrade r) sv)
              else if \<not> accepted then (sv, [])
              else
                (case generateID (es_Options sv) rq rnd of
                   None \<Rightarrow> (sv, [HandlerPanic r])
                 | Some new \<Rightarrow> handshakeWebsocket new r w sv)))"

definition eio_ServeHTTP :: "nat \<Rightarrow> request \<Rightarrow> bytes option \<Rightarrow> bool \<Rightarrow> writes \<Rightarrow> srv_step" where
  "eio_ServeHTTP r rq rnd accepted w =
     (let tname = get_first (rq_Query rq) ''transport''
      in if tname = ''polling'' then handlePolling r rq rnd w
         else if tname = ''websocket'' then handleWebsocket r rq rnd accepted w
         else abortRequest r ErrCodeUnknownTransport None)"

text \<open>The sessions are closed in the order of the table, one of those the iteration can take.\<close>

definition eio_Server_Close :: "writes \<Rightarrow> srv_step" where
  "eio_Server_Close w sv = run_all (map (\<lambda>(sid, i). in_session i (ss_Close w)) (es_clients sv)) sv"

end
