(* ===== verification/EioServerProps.thy ===== *)
theory EioServerProps
  imports EioServer EioSessionProps
begin

text \<open>
  Properties of the Engine.IO server: its table holds exactly the sessions that are not closed,
  only requests that pass the checks create sessions, and a polling request for a session that
  was upgraded is refused.
\<close>

section \<open>Reachable states\<close>

text \<open>
  Requests arrive, the sessions make steps of their own, and the application closes the server.
  A new session id is one that is not in use.
\<close>

inductive esv_step :: "eio_server \<Rightarrow> srv_effect list \<Rightarrow> eio_server \<Rightarrow> bool" where
  esv_http: "(\<And>new. generateID (es_Options sv) rq rnd = Some new \<Longrightarrow> map_of (es_clients sv) new = None)
    \<Longrightarrow> eio_ServeHTTP r rq rnd acc w sv = (sv', es) \<Longrightarrow> esv_step sv es sv'"
| esv_session: "es_socks sv i = Some s \<Longrightarrow> ss_step s es s' \<Longrightarrow> in_session i (\<lambda>_. (s', es)) sv = (sv', es')
    \<Longrightarrow> esv_step sv es' sv'"
| esv_close: "eio_Server_Close w sv = (sv', es) \<Longrightarrow> esv_step sv es sv'"
| esv_OnConnect: "esv_step sv [] (eio_OnConnect f sv)"

inductive esv_reach :: "eio_options option \<Rightarrow> eio_server \<Rightarrow> bool" for opts where
  esv_init: "esv_reach opts (eio_NewServer opts)"
| esv_more: "esv_reach opts sv \<Longrightarrow> esv_step sv es sv' \<Longrightarrow> esv_reach opts sv'"

section \<open>The table of sessions\<close>

definition live :: "eio_server \<Rightarrow> string \<Rightarrow> nat \<Rightarrow> bool" where
  "live sv sid i \<longleftrightarrow> (\<exists>s. es_socks sv i = Some s \<and> ss_id s = sid \<and> ss_readyState s \<noteq> StateClosed)"

definition table_ok :: "eio_server \<Rightarrow> bool" where
  "table_ok sv \<longleftrightarrow>
     distinct (map fst (es_clients sv)) \<and> (\<forall>i. es_nsocks sv \<le> i \<longrightarrow> es_socks sv i = None)
     \<and> (\<forall>sid i. (sid, i) \<in> set (es_clients sv) \<longleftrightarrow> live sv sid i)"

lemma closes_once_CloseCb:
  assumes "closes_once s es s'"
  shows "list_ex is_CloseCb es \<longleftrightarrow> ss_readyState s \<noteq> StateClosed \<and> ss_readyState s' = StateClosed"
proof -
  have n: "\<not> list_ex is_CloseCb xs" if "list_all (\<lambda>e. \<not> is_CloseCb e) xs" for xs
    using that by (auto simp: list_ex_iff list_all_iff)
  consider "ss_readyState s = StateClosed" | "ss_readyState s \<noteq> StateClosed" "ss_readyState s' = StateClosed"
    | "ss_readyState s \<noteq> StateClosed" "ss_readyState s' \<noteq> StateClosed"
    by blast
  then show ?thesis
  proof cases
    case 1
    then have "list_all (\<lambda>e. \<not> is_cb e) es"
      using assms by (simp add: closes_once_def)
    with 1 n [OF no_cb_no_close] show ?thesis
      by simp
  next
    case 2
    then obtain es1 r e es2 where "es = es1 @ CloseCb r e # es2"
      using assms unfolding closes_once_def by auto
    with 2 show ?thesis
      by simp
  next
    case 3
    then have "list_all (\<lambda>e. \<not> is_CloseCb e) es"
      using assms by (simp add: closes_once_def)
    with 3 n show ?thesis
      by simp
  qed
qed

lemma table_ok_in_session:
  assumes "table_ok sv" and "\<And>s. es_socks sv i = Some s \<Longrightarrow> closes_once s (snd (f s)) (fst (f s))"
  shows "table_ok (fst (in_session i f sv))"
proof (cases "es_socks sv i")
  case (Some s)
  obtain s' es where f: "f s = (s', es)"
    by fastforce
  have c: "closes_once s es s'"
    using assms(2) [OF Some] f by simp
  then have id: "ss_id s' = ss_id s" and closed: "ss_readyState s = StateClosed \<Longrightarrow> ss_readyState s' = StateClosed"
    by (auto simp: closes_once_def)
  let ?sv = "fst (in_session i f sv)"
  have t: "distinct (map fst (es_clients sv))" "\<And>j. es_nsocks sv \<le> j \<Longrightarrow> es_socks sv j = None"
    "\<And>sid j. (sid, j) \<in> set (es_clients sv) \<longleftrightarrow> live sv sid j"
    using assms(1) by (simp_all add: table_ok_def)
  have socks: "es_socks ?sv = (es_socks sv)(i \<mapsto> s')" "es_nsocks ?sv = es_nsocks sv"
    and cl: "es_clients ?sv = (if list_ex is_CloseCb es then AList.delete (ss_id s) (es_clients sv) else es_clients sv)"
    by (simp_all add: in_session_def Some f Let_def)
  have l: "live ?sv sid j \<longleftrightarrow> (if j = i then sid = ss_id s \<and> ss_readyState s' \<noteq> StateClosed else live sv sid j)" for sid j
    using id by (auto simp: live_def socks)
  have li: "live sv sid i \<longleftrightarrow> sid = ss_id s \<and> ss_readyState s \<noteq> StateClosed" for sid
    using Some by (auto simp: live_def)
  have "(sid, j) \<in> set (es_clients ?sv) \<longleftrightarrow> live ?sv sid j" for sid j
  proof (cases "list_ex is_CloseCb es")
    case True
    then have r: "ss_readyState s \<noteq> StateClosed" "ss_readyState s' = StateClosed"
      using closes_once_CloseCb [OF c] by simp_all
    then have "(ss_id s, i) \<in> set (es_clients sv)"
      using t(3) li by simp
    then have u: "(ss_id s, j) \<in> set (es_clients sv) \<Longrightarrow> j = i"
      using t(1) by (meson eq_key_imp_eq_value)
    have d: "(sid, j) \<in> set (es_clients ?sv) \<longleftrightarrow> sid \<noteq> ss_id s \<and> live sv sid j"
      using True t(3) by (auto simp: cl AList.delete_eq)
    show ?thesis
    proof (cases "j = i")
      case True
      then show ?thesis
        using d l li r(2) by simp
    next
      case False
      then have "sid \<noteq> ss_id s" if "live sv sid j"
        using u t(3) that by blast
      then show ?thesis
        using d l False by auto
    qed
  next
    case False
    then have "ss_readyState s' = StateClosed \<longleftrightarrow> ss_readyState s = StateClosed"
      using closes_once_CloseCb [OF c] closed by blast
    then show ?thesis
      using False t(3) li by (auto simp: cl l)
  qed
  moreover have "distinct (map fst (es_clients ?sv))"
    using t(1) by (simp add: cl distinct_delete)
  moreover have "es_nsocks ?sv \<le> j \<Longrightarrow> es_socks ?sv j = None" for j
    using t(2) Some by (auto simp: socks)
  ultimately show ?thesis
    by (simp add: table_ok_def)
qed (use assms(1) in \<open>simp add: in_session_def\<close>)

lemma table_ok_co: "table_ok sv \<Longrightarrow> co f \<Longrightarrow> table_ok (fst (in_session i f sv))"
  by (rule table_ok_in_session) (simp_all add: co_def)

lemma co_polling_ServeHTTP: "co (polling_ServeHTTP r rq w)"
proof -
  have "co (run_all (map dispatch as))" for as
    by (rule co_run_all) (auto intro: co_intros)
  then show ?thesis
    unfolding polling_ServeHTTP_def by (intro co_intros co_onPollRequest co_onDataRequest)
qed

lemma co_run_app_call: "co (run_app_call c)"
proof (cases c)
  case (ASend data binary w)
  have "co (run_all [SendMessage data binary, flush_end w])"
    unfolding SendMessage_def by (intro co_intros)
  then show ?thesis
    using ASend by (simp add: run_app_call_def)
qed (simp add: run_app_call_def co_ss_Close)

lemma co_run_app_calls: "co (run_all (map run_app_call cs))"
  by (rule co_run_all) (auto intro: co_run_app_call)

lemma update_new: "k \<notin> fst ` set al \<Longrightarrow> AList.update k v al = al @ [(k, v)]"
  by (induction al) auto

text \<open>Opening a session, on either transport.\<close>

lemma open_closes_once:
  assumes "ss_readyState s = StateOpening" and "ss_readyState (att s) = StateOpening" and "ss_id (att s) = ss_id s"
  shows "closes_once s (snd (run_all [modify att, ss_open w] s)) (fst (run_all [modify att, ss_open w] s))"
proof -
  let ?s = "(att s)\<lparr>ss_readyState := StateOpen\<rparr>"
  have "co (run_all [\<lambda>s. eio_sendPacket (text_packet Open (openPacketData s)) s, flush_end w, modify start_interval])"
    using co_eio_sendPacket by (intro co_intros; simp add: co_def)
  then have "closes_once ?s (snd (run_all [modify att, ss_open w] s)) (fst (run_all [modify att, ss_open w] s))"
    by (simp add: co_def ss_open_def modify_def case_prod_beta)
  then show ?thesis
    using assms by (simp add: closes_once_def)
qed

lemma table_ok_createSocket:
  assumes "table_ok sv" and "map_of (es_clients sv) sid = None"
    and "\<And>s. ss_readyState (att s) = ss_readyState s" and "\<And>s. ss_id (att s) = ss_id s"
  shows "table_ok (fst (createSocket att sid w sv))"
proof -
  let ?i = "es_nsocks sv"
  let ?sv = "sv\<lparr>es_socks := (es_socks sv)(?i \<mapsto> newSession sid (es_Options sv)), es_nsocks := ?i + 1,
    es_clients := AList.update sid ?i (es_clients sv)\<rparr>"
  have free: "es_socks sv ?i = None"
    using assms(1) by (simp add: table_ok_def)
  have l: "live ?sv s j \<longleftrightarrow> live sv s j \<or> s = sid \<and> j = ?i" for s j
    using free by (auto simp: live_def newSession_def)
  have "sid \<notin> fst ` set (es_clients sv)"
    using assms(2) by (simp add: map_of_eq_None_iff)
  then have u: "AList.update sid ?i (es_clients sv) = es_clients sv @ [(sid, ?i)]"
    by (rule update_new)
  have ok: "table_ok ?sv"
    unfolding table_ok_def l using assms(1) \<open>sid \<notin> _\<close> by (auto simp: table_ok_def u)
  have 1: "table_ok (fst (in_session ?i (run_all [modify att, ss_open w]) ?sv))"
    by (rule table_ok_in_session [OF ok]) (rule open_closes_once; simp add: assms(3,4) newSession_def)
  have 2: "table_ok (fst (in_session ?i (run_all (map run_app_call (f sid))) sv'))" if "table_ok sv'" for f sv'
    using that co_run_app_calls by (rule table_ok_co)
  show ?thesis
    using 1 2 by (simp add: createSocket_def Let_def modify_def perform_def case_prod_beta split: option.split)
qed

lemma table_ok_abortRequest: "table_ok sv \<Longrightarrow> table_ok (fst (abortRequest r code ctx sv))"
  by (simp add: abortRequest_def perform_def)

lemma table_ok_ServeHTTP:
  assumes "table_ok sv" and new: "\<And>new. generateID (es_Options sv) rq rnd = Some new \<Longrightarrow> map_of (es_clients sv) new = None"
  shows "table_ok (fst (eio_ServeHTTP r rq rnd acc w sv))"
proof -
  have p: "table_ok (fst (handshake sid r rq w sv))" if "map_of (es_clients sv) sid = None" for sid
    unfolding handshake_def
    using table_ok_co [OF table_ok_createSocket [OF assms(1) that] co_polling_ServeHTTP]
    by (simp add: case_prod_beta attach_polling_def)
  have ws: "table_ok (fst (handshakeWebsocket sid r w sv))" if "map_of (es_clients sv) sid = None" for sid
    unfolding handshakeWebsocket_def
    by (rule table_ok_createSocket [OF assms(1) that]) (simp_all add: attach_websocket_def ws_SetHandler_def)
  have s: "table_ok (fst (in_session i (polling_ServeHTTP r rq w) sv))" "table_ok (fst (in_session i (MaybeUpgrade r) sv))" for i
    using table_ok_co [OF assms(1)] co_polling_ServeHTTP co_MaybeUpgrade by blast+
  have "table_ok (fst (handlePolling r rq rnd w sv))"
    using assms(1) table_ok_abortRequest p new s
    by (auto simp: handlePolling_def Let_def split: verdict.split option.split)
  moreover have "table_ok (fst (handleWebsocket r rq rnd acc w sv))"
    using assms(1) table_ok_abortRequest ws new s
    by (auto simp: handleWebsocket_def abortUpgrade_def Let_def split: verdict.split option.split)
  ultimately show ?thesis
    using table_ok_abortRequest [OF assms(1)] by (simp add: eio_ServeHTTP_def Let_def)
qed

lemma table_ok_Server_Close: "table_ok sv \<Longrightarrow> table_ok (fst (eio_Server_Close w sv))"
  unfolding eio_Server_Close_def by (rule run_all_inv) (auto intro: table_ok_co co_ss_Close)

lemma esv_reach_table:
  assumes "esv_reach opts sv"
  shows "table_ok sv"
  using assms
proof induction
  case esv_init
  then show ?case
    by (simp add: table_ok_def eio_NewServer_def live_def)
next
  case (esv_more sv es sv')
  from esv_more(2,3) show ?case
  proof cases
    case (esv_http rq rnd r acc w)
    then show ?thesis
      using table_ok_ServeHTTP [OF esv_more(3), of rq rnd r acc w] by simp
  next
    case (esv_session i s es s')
    then show ?thesis
      using table_ok_in_session [OF esv_more(3), of i "\<lambda>_. (s', es)"] ss_step_closes_once by simp
  next
    case (esv_close w)
    then show ?thesis
      using table_ok_Server_Close [OF esv_more(3), of w] by simp
  next
    case (esv_OnConnect f)
    then show ?thesis
      using esv_more(3) by (simp add: eio_OnConnect_def table_ok_def live_def)
  qed
qed

lemma table_count:
  assumes "table_ok sv"
  shows "ClientsCount sv = card {i. \<exists>sid. live sv sid i}"
proof -
  have t: "distinct (map fst (es_clients sv))" "\<And>sid i. (sid, i) \<in> set (es_clients sv) \<longleftrightarrow> live sv sid i"
    using assms by (simp_all add: table_ok_def)
  have "inj_on snd (set (es_clients sv))"
    by (rule inj_onI) (use t(2) in \<open>force simp: live_def\<close>)
  moreover have "snd ` set (es_clients sv) = {i. \<exists>sid. live sv sid i}"
    using t(2) by force
  ultimately have "card {i. \<exists>sid. live sv sid i} = card (set (es_clients sv))"
    using card_image by metis
  also have "\<dots> = length (es_clients sv)"
    using t(1) by (intro distinct_card) (simp add: distinct_map)
  finally show ?thesis
    by (simp add: ClientsCount_def)
qed

text \<open>
  C5. The table of the Engine.IO server is exact: whatever requests arrive and whatever the
  sessions do, a session id leads to a socket precisely when that socket has this id and is not
  closed, so \<^verbatim>\<open>ClientsCount\<close> is the number of sessions that are not closed. Closed sessions
  leave the table in the step that closes them, and no other session does. New ids are assumed
  not to be in use.
\<close>

theorem sessions_table_exact:
  assumes "esv_reach opts sv"
  shows "(map_of (es_clients sv) sid = Some i \<longleftrightarrow>
      (\<exists>s. es_socks sv i = Some s \<and> ss_id s = sid \<and> ss_readyState s \<noteq> StateClosed))
    \<and> ClientsCount sv = card {i. \<exists>s. es_socks sv i = Some s \<and> ss_readyState s \<noteq> StateClosed}"
proof -
  have t: "table_ok sv"
    by (rule esv_reach_table [OF assms])
  have "map_of (es_clients sv) sid = Some i \<longleftrightarrow> live sv sid i"
    using t by (simp add: table_ok_def)
  moreover have "{i. \<exists>sid. live sv sid i} = {i. \<exists>s. es_socks sv i = Some s \<and> ss_readyState s \<noteq> StateClosed}"
    by (auto simp: live_def)
  ultimately show ?thesis
    using table_count [OF t] by (simp add: live_def)
qed

definition poll_request :: "string \<Rightarrow> request" where
  "poll_request sid =
     \<lparr>rq_Method = ''GET'', rq_Path = ''/engine.io/'',
      rq_Query = [(''EIO'', [''4'']), (''transport'', [''polling'']), (''sid'', [sid])],
      rq_Header = [], rq_Body = Inr [], rq_RemoteAddr = ''1.2.3.4:5''\<rparr>"

definition served :: eio_server where
  "served = fst (eio_ServeHTTP 0 (poll_request []) (Some (replicate 18 CHR ''a'')) True None (eio_NewServer (Some sample_options)))"

lemma served_reach: "esv_reach (Some sample_options) served"
  unfolding served_def
  by (rule esv_more [OF esv_init esv_http [OF _ prod.collapse [symmetric]]]) (simp add: eio_NewServer_def)

theorem sessions_table_exact_witness:
  "ClientsCount served = 1 \<and> card {i. \<exists>s. es_socks served i = Some s \<and> ss_readyState s \<noteq> StateClosed} = 1"
proof -
  have "ClientsCount served = 1"
    by code_simp
  then show ?thesis
    using sessions_table_exact [OF served_reach] by simp
qed

section \<open>Admission\<close>

lemma in_session_nsocks [simp]: "es_nsocks (fst (in_session i f sv)) = es_nsocks sv"
  by (simp add: in_session_def case_prod_beta Let_def split: option.split)

lemma createSocket_nsocks [simp]: "es_nsocks (fst (createSocket att sid w sv)) = es_nsocks sv + 1"
  by (simp add: createSocket_def Let_def modify_def perform_def case_prod_beta split: option.split)

lemma handshake_nsocks [simp]: "es_nsocks (fst (handshake sid r rq w sv)) = es_nsocks sv + 1"
  "es_nsocks (fst (handshakeWebsocket sid r w sv)) = es_nsocks sv + 1"
  by (simp_all add: handshake_def handshakeWebsocket_def case_prod_beta)

definition admitted :: "eio_server \<Rightarrow> request \<Rightarrow> bool" where
  "admitted sv rq \<longleftrightarrow>
     get_first (rq_Query rq) ''EIO'' = ''4''
     \<and> get_first (rq_Query rq) ''transport'' \<in> set (eo_Transports (es_Options sv)) \<inter> {''polling'', ''websocket''}
     \<and> get_first (rq_Query rq) ''sid'' = [] \<and> rq_Method rq = ''GET''
     \<and> (case eo_AllowRequest (es_Options sv) of None \<Rightarrow> True | Some allow \<Rightarrow> allow rq = None)"

lemma verify_new:
  assumes "get_first (rq_Query rq) ''sid'' = []" and "verify sv rq up = Accepted"
    and "get_first (rq_Query rq) ''transport'' \<in> {''polling'', ''websocket''}"
  shows "admitted sv rq"
  using assms by (auto simp: verify_def admitted_def Let_def split: if_splits option.splits)

definition creates :: "eio_server \<Rightarrow> request \<Rightarrow> bool \<Rightarrow> eio_server \<Rightarrow> bool" where
  "creates sv rq up sv' \<longleftrightarrow>
     (es_nsocks sv' \<noteq> es_nsocks sv \<longrightarrow>
        verify sv rq up = Accepted \<and> get_first (rq_Query rq) ''sid'' = [] \<and> es_nsocks sv' = es_nsocks sv + 1)"

lemma creates_polling: "creates sv rq False (fst (handlePolling r rq rnd w sv))"
  unfolding creates_def handlePolling_def Let_def abortRequest_def perform_def
  by (cases "verify sv rq False") (simp_all split: option.split)

lemma creates_websocket: "creates sv rq True (fst (handleWebsocket r rq rnd acc w sv))"
  unfolding creates_def handleWebsocket_def Let_def abortUpgrade_def abortRequest_def perform_def
  by (cases "verify sv rq True") (simp_all split: option.split)

lemma errorCode_forbidden: "errorCode e = ErrCodeForbidden \<longleftrightarrow> e = ErrForbidden"
  by (cases e) simp_all

text \<open>
  C25. Only admitted requests create sessions. A request adds at most one session, and only if
  it asks for protocol version 4 and an enabled transport, names no session, is a GET, and the
  hook of the application permits it. A request that the checks refuse leaves the server as it
  is and is answered by exactly one error response, with status 403 when the hook refused it
  and 400 otherwise.
\<close>

theorem only_admitted_requests_create_sessions:
  assumes "eio_ServeHTTP r rq rnd acc w sv = (sv', es)"
  shows "(es_nsocks sv' \<noteq> es_nsocks sv \<longrightarrow> admitted sv rq \<and> es_nsocks sv' = es_nsocks sv + 1)
    \<and> (verify sv rq (get_first (rq_Query rq) ''transport'' = ''websocket'') = Refused err \<longrightarrow>
        sv' = sv \<and> (\<exists>body. es = [HttpError r (if err = ErrForbidden \<and> get_first (rq_Query rq) ''transport'' \<in> {''polling'', ''websocket''}
          then 403 else 400) body]))"
proof -
  let ?t = "get_first (rq_Query rq) ''transport''"
  consider "?t = ''polling''" | "?t = ''websocket''" | "?t \<noteq> ''polling''" "?t \<noteq> ''websocket''"
    by blast
  then show ?thesis
  proof cases
    case 1
    then have s: "handlePolling r rq rnd w sv = (sv', es)"
      using assms by (simp add: eio_ServeHTTP_def)
    have "creates sv rq False sv'"
      using creates_polling [of sv rq r rnd w] s by simp
    moreover have "verify sv rq False = Refused err \<Longrightarrow> sv' = sv \<and> (\<exists>body. es = [HttpError r (if err = ErrForbidden then 403 else 400) body])"
      using s by (auto simp: handlePolling_def abortRequest_def perform_def errorCode_forbidden)
    ultimately show ?thesis
      using verify_new [of rq sv False] 1 by (simp add: creates_def)
  next
    case 2
    then have s: "handleWebsocket r rq rnd acc w sv = (sv', es)"
      using assms by (simp add: eio_ServeHTTP_def)
    have "creates sv rq True sv'"
      using creates_websocket [of sv rq r rnd acc w] s by simp
    moreover have "verify sv rq True = Refused err \<Longrightarrow> sv' = sv \<and> (\<exists>body. es = [HttpError r (if err = ErrForbidden then 403 else 400) body])"
      using s by (auto simp: handleWebsocket_def abortUpgrade_def abortRequest_def perform_def errorCode_forbidden)
    ultimately show ?thesis
      using verify_new [of rq sv True] 2 by (simp add: creates_def)
  next
    case 3
    then show ?thesis
      using assms by (auto simp: eio_ServeHTTP_def abortRequest_def perform_def)
  qed
qed

theorem only_admitted_requests_create_sessions_witness:
  "es_nsocks served = 1 \<and> admitted (eio_NewServer (Some sample_options)) (poll_request [])"
proof -
  have n: "es_nsocks served = 1"
    by (simp add: served_def eio_ServeHTTP_def handlePolling_def verify_def poll_request_def get_first_def eio_NewServer_def
        sample_options_def zero_eio_options_def generateID_def)
  moreover have "es_nsocks (eio_NewServer (Some sample_options)) = 0"
    by (simp add: eio_NewServer_def)
  ultimately show ?thesis
    using only_admitted_requests_create_sessions [OF prod.collapse [symmetric], of 0 "poll_request []"
        "Some (replicate 18 CHR ''a'')" True None "eio_NewServer (Some sample_options)"]
    by (simp add: served_def)
qed

section \<open>Polling requests after an upgrade\<close>

text \<open>
  C29. A polling request that arrives after its session was upgraded is always refused: it is
  answered with the error "Bad request" and its payload reaches neither the session nor the
  polling transport that the session still keeps. The check of the request already refuses it,
  so the routing to the kept transport is never taken.
\<close>

theorem late_polling_request_refused:
  assumes "map_of (es_clients sv) sid = Some i" and "es_socks sv i = Some s" and "ss_transport s = Some (TWebsocket n)"
    and "get_first (rq_Query rq) ''sid'' = sid" and "sid \<noteq> []" and "get_first (rq_Query rq) ''transport'' = ''polling''"
    and "get_first (rq_Query rq) ''EIO'' = ''4''" and "''polling'' \<in> set (eo_Transports (es_Options sv))"
  shows "eio_ServeHTTP r rq rnd acc w sv =
    (sv, [HttpError r 400 (marshal (VObj [(''code'', VNum (dec_of_nat 3)), (''message'', VStr ''Bad request'')]) @ [CHR 0x0A])])"
  using assms
  by (simp add: eio_ServeHTTP_def handlePolling_def verify_def Let_def t_Name_def abortRequest_def perform_def)

definition upgraded_session :: session where
  "upgraded_session = (newSession ''a'' sample_options)
     \<lparr>ss_readyState := StateOpen, ss_transport := Some (TWebsocket 7),
       ss_polling := Some (SetMaxBufferSize 64 NewPolling), ss_upgraded := True\<rparr>"

definition upgraded_server :: eio_server where
  "upgraded_server = (eio_NewServer (Some sample_options))
     \<lparr>es_clients := [(''a'', 0)], es_nsocks := 1, es_socks := [0 \<mapsto> upgraded_session]\<rparr>"

definition late_post :: request where
  "late_post = (poll_request ''a'')\<lparr>rq_Method := ''POST'', rq_Body := Inr ''4hi''\<rparr>"

theorem late_polling_request_refused_witness:
  "fst (eio_ServeHTTP 5 late_post None True None upgraded_server) = upgraded_server
    \<and> polling_ServeHTTP 5 late_post None upgraded_session \<noteq> (upgraded_session, [])"
proof -
  have p: "snd (polling_ServeHTTP 5 late_post None upgraded_session) = [DataCb ''hi'' False, HttpReply 5 200 ''ok'']"
    by code_simp
  have "eio_ServeHTTP 5 late_post None True None upgraded_server = (upgraded_server,
      [HttpError 5 400 (marshal (VObj [(''code'', VNum (dec_of_nat 3)), (''message'', VStr ''Bad request'')]) @ [CHR 0x0A])])"
    by (rule late_polling_request_refused [where sid = "''a''" and i = 0 and n = 7 and s = upgraded_session])
      (simp_all add: upgraded_server_def upgraded_session_def eio_NewServer_def late_post_def poll_request_def get_first_def sample_options_def
        zero_eio_options_def)
  with p show ?thesis
    by (auto dest: arg_cong [where f = snd])
qed

end
