(* ===== verification/EioHandshake.thy ===== *)
theory EioHandshake
  imports EioClient EioServerProps
begin

text \<open>
  The handshake between the Engine.IO client and the Engine.IO server: the data that a new
  session sends is what the client reads from it, so both sides agree on the session.
\<close>

section \<open>Integers in JSON\<close>

lemma itoa_nat_bound: "0 < m \<Longrightarrow> 10 ^ (length (itoa_nat m) - 1) \<le> m"
proof (induction m rule: itoa_nat.induct)
  case (1 m)
  show ?case
  proof (cases "m < 10")
    case False
    then have "10 ^ (length (itoa_nat (m div 10)) - 1) \<le> m div 10"
      using 1 by simp
    then have "10 * 10 ^ (length (itoa_nat (m div 10)) - 1) \<le> m"
      by linarith
    moreover have "0 < length (itoa_nat (m div 10))"
      by simp
    ultimately show ?thesis
      using False by (simp add: itoa_nat.simps [of m] flip: power_Suc)
  qed (use 1 in \<open>simp add: itoa_nat.simps [of m]\<close>)
qed

lemma format_abs_int:
  assumes "strip10 n 0 = (m, e)" and "n < 10 ^ 20"
  shows "list_all isDigit (format_abs m e)" "digits_val (format_abs m e) = n" "format_abs m e \<noteq> []"
proof -
  obtain k where k: "n = m * 10 ^ k" "n = 0 \<or> e = int k"
    using strip10_value [OF assms(1)] by auto
  have zero: "format_abs 0 e = ''0''"
    by (simp add: format_abs_def)
  have pos: "format_abs m e = itoa_nat m @ replicate k (CHR ''0'')" if m: "m \<noteq> 0"
  proof -
    have e: "e = int k"
      using k m by simp
    have "(10::nat) ^ (length (itoa_nat m) - 1) * 10 ^ k \<le> m * 10 ^ k"
      using itoa_nat_bound [of m] m by (intro mult_le_mono1) simp
    then have "(10::nat) ^ (length (itoa_nat m) - 1 + k) \<le> n"
      unfolding power_add k(1) .
    then have "(10::nat) ^ (length (itoa_nat m) - 1 + k) < 10 ^ 20"
      using assms(2) by (rule le_less_trans)
    then have "length (itoa_nat m) - 1 + k < 20"
      by (rule power_less_imp_less_exp [rotated]) simp
    moreover have "0 < length (itoa_nat m)"
      by simp
    ultimately have len: "\<not> int (length (itoa_nat m)) + int k \<le> 0" "\<not> 21 < int (length (itoa_nat m)) + int k"
      by linarith+
    then show ?thesis
      using m e by (simp add: format_abs_def Let_def)
  qed
  show "list_all isDigit (format_abs m e)"
  proof (cases "m = 0")
    case True
    then show ?thesis
      by (simp add: zero isDigit_def)
  next
    case False
    have "list_all isDigit (replicate k (CHR ''0''))"
      by (simp add: list_all_iff isDigit_def)
    with pos [OF False] show ?thesis
      by simp
  qed
  show "digits_val (format_abs m e) = n"
    using zero pos k(1) by (cases "m = 0") (simp_all add: digits_val_append)
  show "format_abs m e \<noteq> []"
    using zero pos by (cases "m = 0") simp_all
qed

lemma atoi_dec_of_int:
  assumes "min_int64 \<le> i" and "i \<le> max_int64"
  shows "atoi (format_num (dec_of_int i)) = Some i"
proof -
  obtain m e where s: "strip10 (nat \<bar>i\<bar>) 0 = (m, e)"
    by fastforce
  have "nat \<bar>i\<bar> < 10 ^ 20"
    using assms by (simp add: min_int64_def max_int64_def)
  note f = format_abs_int [OF s this]
  have num: "format_num (dec_of_int i) = (if i < 0 then CHR ''-'' # format_abs m e else format_abs m e)"
    by (simp add: dec_of_int_def mk_decimal_def s)
  have u: "atoi_unsigned (format_abs m e) = Some \<bar>i\<bar>"
    using f by (simp add: atoi_unsigned_def)
  show ?thesis
  proof (cases "i < 0")
    case True
    then show ?thesis
      using u assms by (simp add: num atoi_def)
  next
    case False
    obtain c cs where c: "format_abs m e = c # cs"
      using f(3) by (cases "format_abs m e") auto
    then have "isDigit c"
      using f(1) by simp
    then have "c \<noteq> CHR ''-''" "c \<noteq> CHR ''+''"
      by (auto simp: isDigit_def)
    then show ?thesis
      using False u assms c by (simp add: num atoi_def)
  qed
qed

section \<open>The handshake\<close>

definition in_int64 :: "int \<Rightarrow> bool" where
  "in_int64 i \<longleftrightarrow> min_int64 \<le> i \<and> i \<le> max_int64"

definition open_text :: "string \<Rightarrow> string list \<Rightarrow> int \<Rightarrow> int \<Rightarrow> int \<Rightarrow> bytes" where
  "open_text sid upgrades i t m = concat (map tok_text (struct_toks (open_fields sid upgrades i t m)))"

lemma openPacketData_text:
  "openPacketData s =
     open_text (ss_id s) (upgradesFor (ss_opts s) (transportName s)) (milliseconds (eo_PingInterval (ss_opts s)))
       (milliseconds (eo_PingTimeout (ss_opts s))) (eo_MaxHTTPBufferSize (ss_opts s))"
  by (simp add: openPacketData_def open_text_def)

definition open_raw :: "string \<Rightarrow> string list \<Rightarrow> int \<Rightarrow> int \<Rightarrow> int \<Rightarrow> (string \<times> rtok list) list" where
  "open_raw sid upgrades i t m =
     map (\<lambda>(k, v). (k, map (\<lambda>t. (t, tok_text t)) (toks v))) (open_fields sid upgrades i t m)"

lemma open_folds:
  "fold_key ''sid'' = ''sid''" "fold_key ''upgrades'' = ''upgrades''" "fold_key ''pingInterval'' = ''pinginterval''"
  "fold_key ''pingTimeout'' = ''pingtimeout''" "fold_key ''maxPayload'' = ''maxpayload''"
  by code_simp+

lemma decode_open_text:
  assumes "valid_utf8 sid" and "in_int64 i" and "in_int64 t" and "in_int64 m" and "upgrades = [] \<or> upgrades = [''websocket'']"
  shows "decode_open (open_text sid upgrades i t m) =
    Some \<lparr>od_SID = sid, od_Upgrades = upgrades, od_PingInterval = i, od_PingTimeout = t, od_MaxPayload = m\<rparr>"
proof -
  let ?ts = "struct_toks (open_fields sid upgrades i t m)"
  have num: "atoi (format_num (dec_of_int j)) = Some j" if "in_int64 j" for j
    using that by (intro atoi_dec_of_int) (simp_all add: in_int64_def)
  have key: "valid_utf8 ''sid''" "valid_utf8 ''upgrades''" "valid_utf8 ''websocket''" "valid_utf8 ''pingInterval''"
    "valid_utf8 ''pingTimeout''" "valid_utf8 ''maxPayload''"
    by (rule valid_utf8_ascii; simp add: is_ascii_def)+
  have "list_all tok_ok ?ts" "apart ?ts"
    using assms(1,5) key by (auto simp: struct_toks_def open_fields_def member_toks_def dec_of_int_def)
  then have l: "lex_raw (open_text sid upgrades i t m) = Some (map (\<lambda>t. (t, tok_text t)) ?ts)"
    unfolding open_text_def by (rule lex_raw_concat)
  have p: "parse PVal [] ?ts \<noteq> None"
    using assms(5) by (auto simp: struct_toks_def open_fields_def member_toks_def pstep_simps)
  have fst: "map fst (map (\<lambda>t. (t, tok_text t)) ?ts) = ?ts"
    by (simp add: comp_def)
  have "?ts = TLBrace # TStr ''sid'' # tl (tl ?ts)"
    by (simp add: struct_toks_def open_fields_def member_toks_def)
  from struct_members_object [OF l, unfolded fst, OF p this]
  have "struct_members (open_text sid upgrades i t m) = members (map (\<lambda>t. (t, tok_text t)) (tl ?ts))"
    by (simp only: map_tl)
  also have "\<dots> = Some (open_raw sid upgrades i t m)"
    using assms(5)
    by (elim disjE) (simp_all add: struct_toks_def open_fields_def member_toks_def open_raw_def open_fields_def members_Cons members_last)
  finally have "decode_open (open_text sid upgrades i t m) =
      fold (\<lambda>m o1. Option.bind o1 (open_member m)) (open_raw sid upgrades i t m) (Some zero_open_data)"
    by (simp add: decode_open_def)
  also have "\<dots> = Some \<lparr>od_SID = sid, od_Upgrades = upgrades, od_PingInterval = i, od_PingTimeout = t, od_MaxPayload = m\<rparr>"
    using assms(5) num [OF assms(2)] num [OF assms(3)] num [OF assms(4)]
    by (elim disjE) (simp_all add: open_raw_def open_fields_def open_member_def open_folds field_string_def field_strings_def
        field_int64_def zero_open_data_def del: fold_key.simps)
  finally show ?thesis .
qed

section \<open>The server answers the first poll\<close>

definition open_packet :: "string \<Rightarrow> eio_options \<Rightarrow> Packet" where
  "open_packet sid o1 =
     text_packet Open (open_text sid (upgradesFor o1 ''polling'') (milliseconds (eo_PingInterval o1))
       (milliseconds (eo_PingTimeout o1)) (eo_MaxHTTPBufferSize o1))"

lemma first_poll:
  assumes "ss_open w (attach_polling (SetMaxBufferSize m NewPolling) (newSession sid o1)) = (s, es)"
  shows "es = [Queued (open_packet sid o1)]
    \<and> (\<exists>s'. onPollRequest r w' s = (s', [PollAnswer r [open_packet sid o1]]) \<and> ss_id s' = sid)"
  using assms
  by (auto simp: open_packet_def openPacketData_text transportName_def t_Name_def ss_open_def modify_def attach_polling_def
      newSession_def eio_sendPacket_def t_Writable_def flush_end_def SetMaxBufferSize_def NewPolling_def start_interval_def
      start_timer_def onPollRequest_def poll_begin_def flush_def flush_begin_def t_Send_def polling_call_def pl_Send_def
      Let_def reflush_def poll_end_def run_polling_def perform_def dispatch_def)

lemma server_handshake:
  assumes "es_onConnect sv = None" and "rq_Method rq = ''GET''"
  shows "\<exists>sv'. handshake sid r rq w sv =
      (sv', [Sock (es_nsocks sv) (Queued (open_packet sid (es_Options sv))),
             Sock (es_nsocks sv) (PollAnswer r [open_packet sid (es_Options sv)])])
    \<and> map_of (es_clients sv') sid = Some (es_nsocks sv)"
proof -
  obtain s es where o: "ss_open w (attach_polling (SetMaxBufferSize (eo_MaxHTTPBufferSize (es_Options sv)) NewPolling)
      (newSession sid (es_Options sv))) = (s, es)"
    by fastforce
  obtain s' where p: "es = [Queued (open_packet sid (es_Options sv))]"
    "onPollRequest r w s = (s', [PollAnswer r [open_packet sid (es_Options sv)]])"
    using first_poll [OF o] by blast
  show ?thesis
    using assms p
    by (simp add: handshake_def createSocket_def Let_def modify_def in_session_def o polling_ServeHTTP_def update_conv')
qed

section \<open>The client reads the answer\<close>

text \<open>Durations that survive being sent in milliseconds, and whose sum is in range.\<close>

definition whole_ms :: "duration \<Rightarrow> bool" where
  "whole_ms d \<longleftrightarrow> 0 < d \<and> d \<le> max_int64 div 2 \<and> d mod 1000000 = 0"

lemma wrap64_id: "in_int64 i \<Longrightarrow> wrap64 i = i"
  by (simp add: in_int64_def wrap64_def min_int64_def max_int64_def)

lemma whole_ms:
  assumes "whole_ms d"
  shows "in_int64 (milliseconds d)" and "wrap64 (milliseconds d * 1000000) = d"
proof -
  have m: "milliseconds d = d div 1000000"
    using assms by (simp add: whole_ms_def milliseconds_def quot_def)
  then show "in_int64 (milliseconds d)"
    using assms by (auto simp: whole_ms_def in_int64_def min_int64_def max_int64_def)
  have "milliseconds d * 1000000 = d"
    using assms unfolding m by (simp add: whole_ms_def dvd_imp_mod_0 mod_0_imp_dvd)
  then show "wrap64 (milliseconds d * 1000000) = d"
    using assms by (simp add: wrap64_id whole_ms_def in_int64_def min_int64_def max_int64_def)
qed

lemma whole_ms_sum:
  assumes "whole_ms d" and "whole_ms d'"
  shows "wrap64 (d + d') = d + d'"
  using assms by (simp add: wrap64_id whole_ms_def in_int64_def min_int64_def max_int64_def)

lemma open_text_printable: "c \<in> set (open_text sid upgrades i t m) \<Longrightarrow> 32 \<le> (byte_val c :: nat)"
  unfolding open_text_def using tok_text_printable by auto

lemma decode_open_payload:
  "DecodePayloadWithLimit (EncodePayload [open_packet sid o1]) 0 = ([open_packet sid o1], None, 0)"
proof -
  have "separator \<notin> set (open_text sid u i t m)" for u i t m
    using open_text_printable [of separator] by (auto simp: separator_def)
  then have "payload_safe (open_packet sid o1)"
    by (simp add: payload_safe_def wf_packet_def open_packet_def)
  then show ?thesis
    using DecodePayload_EncodePayload [of "[open_packet sid o1]"] by (simp add: DecodePayload_def)
qed

lemma decode_open_packet:
  assumes "valid_utf8 sid" and "whole_ms (eo_PingInterval o1)" and "whole_ms (eo_PingTimeout o1)"
    and "in_int64 (eo_MaxHTTPBufferSize o1)"
  shows "decode_open (pkt_Data (open_packet sid o1)) =
    Some \<lparr>od_SID = sid, od_Upgrades = upgradesFor o1 ''polling'', od_PingInterval = milliseconds (eo_PingInterval o1),
      od_PingTimeout = milliseconds (eo_PingTimeout o1), od_MaxPayload = eo_MaxHTTPBufferSize o1\<rparr>"
  unfolding open_packet_def Packet.simps
  using assms whole_ms by (intro decode_open_text) (auto simp: upgradesFor_def)

lemma client_handshake:
  assumes "valid_utf8 sid" and "whole_ms (eo_PingInterval o1)" and "whole_ms (eo_PingTimeout o1)"
    and "in_int64 (eo_MaxHTTPBufferSize o1)"
    and "eio_Dial copts (Inr (scheme, q)) failed = Inr (c0, es0)" and "hd (eo_Transports (ec_opts c0)) = ''polling''"
    and "poll_top None c0 = (c1, es1)"
  shows "\<exists>c'. run_all [poll_answered (Inr (200, Inr (EncodePayload [open_packet sid o1]))), poll_next] c1 = (c', [OpenCall 0])
    \<and> SID c' = sid \<and> ec_pingInterval c' = eo_PingInterval o1 \<and> ec_pingTimeout c' = eo_PingTimeout o1
    \<and> map snd (ec_timers c') = [eo_PingInterval o1 + eo_PingTimeout o1] \<and> eio_Dial_result c' = Some None
    \<and> (ec_ups c' \<noteq> [] \<longleftrightarrow> eo_AllowUpgrades (ec_opts c0) \<and> ''websocket'' \<in> set (eo_Transports (ec_opts c0))
        \<and> eo_AllowUpgrades o1 \<and> ''websocket'' \<in> set (eo_Transports o1))"
proof -
  have c0: "c0 = dialPolling (new_eclient copts scheme q)"
    using assms(5,6) by (auto simp: eio_Dial_def Let_def dialWebsocket_def open_ws_def split: if_splits option.splits)
  have c1: "c1 = map_cp (\<lambda>p. p\<lparr>cp_phase := PPolling, cp_inflight := 1\<rparr>) c0"
    using assms(7) unfolding c0 by (simp add: poll_top_def dialPolling_def new_cpolling_def map_cp_def)
  have z: "eo_PingInterval o1 \<noteq> 0" "eo_PingTimeout o1 \<noteq> 0"
    using assms(2,3) by (simp_all add: whole_ms_def)
  have "pkt_Type (open_packet sid o1) = Open"
    by (simp add: open_packet_def)
  then show ?thesis
    unfolding c1 c0 dialPolling_def
    using z decode_open_packet [OF assms(1-4)] whole_ms [OF assms(2)] whole_ms [OF assms(3)] whole_ms_sum [OF assms(2,3)]
    by (simp add: poll_answered_def map_cp_def new_cpolling_def decode_open_payload poll_next_def binding_OnPacket_def
        ec_onPacket_def handleOpen_def resetNoPingTimeout_def stop_watchdog_def new_eclient_def start_upgrade_def
        handshakeSucceeded_def SID_def eio_Dial_result_def upgradesFor_def Let_def del: eio_withDefaults_fields) blast
qed

lemma first_poll_query:
  assumes "eio_Dial copts (Inr (scheme, q)) failed = Inr (c0, es0)" and "hd (eo_Transports (ec_opts c0)) = ''polling''"
    and "poll_top None c0 = (c1, [Get q1])"
  shows "q1 = q_set ''transport'' ''polling'' (q_set ''EIO'' ''4'' q)"
  using assms
  by (auto simp: eio_Dial_def Let_def dialWebsocket_def dialPolling_def poll_top_def new_cpolling_def urlWithSID_def new_eclient_def
      map_cp_def open_ws_def split: if_splits option.splits)

lemma get_first_q_set: "get_first (q_set k v q) k' = (if k' = k then v else get_first q k')"
  by (simp add: get_first_def q_set_def update_conv')

text \<open>
  C6. The client and the server agree on the session that a handshake opens. When the first poll
  of a client that dialed with polling reaches a server that admits it, the answer carries one
  packet, and when the client has read it, \<^verbatim>\<open>Dial\<close> returns without an error; the session id of
  the client leads to the new session in the table of the server; the ping interval and the ping
  timeout of the client are those of the server, and the watchdog waits for their sum; and an
  upgrade begins precisely when both sides allow upgrades and have WebSocket enabled. The intervals are
  whole milliseconds, the unit of the handshake, the id is a valid string, and the
  connect handler of the application does nothing.
\<close>

theorem handshake_agrees:
  assumes "eio_Dial copts (Inr (scheme, q)) failed = Inr (c0, es0)" and "hd (eo_Transports (ec_opts c0)) = ''polling''"
    and "get_first q ''sid'' = []" and "poll_top None c0 = (c1, [Get (rq_Query rq)])" and "rq_Method rq = ''GET''"
    and "''polling'' \<in> set (eo_Transports (es_Options sv))" and "eo_AllowRequest (es_Options sv) = None"
    and "es_onConnect sv = None" and "generateID (es_Options sv) rq rnd = Some sid" and "valid_utf8 sid"
    and "whole_ms (eo_PingInterval (es_Options sv))" and "whole_ms (eo_PingTimeout (es_Options sv))"
    and "in_int64 (eo_MaxHTTPBufferSize (es_Options sv))"
  shows "\<exists>sv' p c'.
      eio_ServeHTTP r rq rnd acc w sv = (sv', [Sock (es_nsocks sv) (Queued p), Sock (es_nsocks sv) (PollAnswer r [p])])
    \<and> run_all [poll_answered (Inr (200, Inr (EncodePayload [p]))), poll_next] c1 = (c', [OpenCall 0])
    \<and> eio_Dial_result c' = Some None
    \<and> SID c' = sid \<and> map_of (es_clients sv') (SID c') = Some (es_nsocks sv)
    \<and> ec_pingInterval c' = eo_PingInterval (es_Options sv) \<and> ec_pingTimeout c' = eo_PingTimeout (es_Options sv)
    \<and> map snd (ec_timers c') = [eo_PingInterval (es_Options sv) + eo_PingTimeout (es_Options sv)]
    \<and> (ec_ups c' \<noteq> [] \<longleftrightarrow> eo_AllowUpgrades (ec_opts c0) \<and> ''websocket'' \<in> set (eo_Transports (ec_opts c0))
        \<and> eo_AllowUpgrades (es_Options sv) \<and> ''websocket'' \<in> set (eo_Transports (es_Options sv)))"
proof -
  have q: "rq_Query rq = q_set ''transport'' ''polling'' (q_set ''EIO'' ''4'' q)"
    by (rule first_poll_query [OF assms(1,2,4)])
  have "verify sv rq False = Accepted"
    using assms(3,5,6,7) by (simp add: verify_def q get_first_q_set)
  then have "eio_ServeHTTP r rq rnd acc w sv = handshake sid r rq w sv"
    using assms(3,9) by (simp add: eio_ServeHTTP_def handlePolling_def q get_first_q_set)
  then show ?thesis
    using server_handshake [OF assms(8,5), of sid r w] client_handshake [OF assms(10-13,1,2,4)] by metis
qed

definition dialed :: eclient where
  "dialed = dialPolling (new_eclient (Some sample_options) ''http'' [])"

definition polled :: eclient where
  "polled = fst (poll_top None dialed)"

definition dial_request :: request where
  "dial_request = (poll_request [])\<lparr>rq_Query := [(''EIO'', [''4'']), (''transport'', [''polling''])]\<rparr>"

definition id_options :: eio_options where
  "id_options = sample_options\<lparr>eo_GenerateID := Some (\<lambda>_. ''a'')\<rparr>"

definition id_server :: eio_server where
  "id_server = eio_NewServer (Some id_options)"

lemma sample_fields:
  "es_Options id_server = id_options" "es_onConnect id_server = None" "es_nsocks id_server = 0"
  "eo_PingInterval id_options = 25000000" "eo_PingTimeout id_options = 20000000" "eo_MaxHTTPBufferSize id_options = 64"
  "eo_AllowRequest id_options = None" "eo_Transports id_options = [''polling'', ''websocket'']" "eo_AllowUpgrades id_options"
  by (simp_all add: id_server_def eio_NewServer_def id_options_def sample_options_def eio_withDefaults_def zero_eio_options_def Let_def)

lemma dialed_fields:
  "eo_Transports (ec_opts dialed) = [''polling'', ''websocket'']" "eo_AllowUpgrades (ec_opts dialed)"
  "eio_Dial (Some sample_options) (Inr (''http'', [])) None = Inr (dialed, [])"
  "poll_top None dialed = (polled, [Get (rq_Query dial_request)])"
  by (simp_all add: polled_def dialed_def eio_Dial_def dialPolling_def new_eclient_def sample_options_def zero_eio_options_def
      poll_top_def new_cpolling_def urlWithSID_def q_set_def dial_request_def)

theorem handshake_agrees_witness:
  "\<exists>sv' p c'.
      eio_ServeHTTP 0 dial_request None True None id_server = (sv', [Sock 0 (Queued p), Sock 0 (PollAnswer 0 [p])])
    \<and> run_all [poll_answered (Inr (200, Inr (EncodePayload [p]))), poll_next] polled = (c', [OpenCall 0])
    \<and> SID c' = ''a'' \<and> ec_pingInterval c' = 25000000 \<and> ec_ups c' \<noteq> []"
proof -
  have v: "valid_utf8 ''a''"
    by (rule valid_utf8_ascii) (simp add: is_ascii_def)
  have g: "generateID (es_Options id_server) dial_request None = Some ''a''"
    by (simp add: sample_fields generateID_def id_options_def)
  have "hd (eo_Transports (ec_opts dialed)) = ''polling''" "get_first [] ''sid'' = []" "rq_Method dial_request = ''GET''"
    "''polling'' \<in> set (eo_Transports (es_Options id_server))" "eo_AllowRequest (es_Options id_server) = None"
    "whole_ms (eo_PingInterval (es_Options id_server))" "whole_ms (eo_PingTimeout (es_Options id_server))"
    "in_int64 (eo_MaxHTTPBufferSize (es_Options id_server))"
    by (simp_all add: dial_request_def poll_request_def get_first_def sample_fields dialed_fields whole_ms_def in_int64_def
        min_int64_def max_int64_def)
  from handshake_agrees [OF dialed_fields(3) this(1,2) dialed_fields(4) this(3-5) sample_fields(2) g v this(6-8), of 0 True None]
  obtain sv' p c' where "eio_ServeHTTP 0 dial_request None True None id_server = (sv', [Sock 0 (Queued p), Sock 0 (PollAnswer 0 [p])])"
    "run_all [poll_answered (Inr (200, Inr (EncodePayload [p]))), poll_next] polled = (c', [OpenCall 0])"
    "SID c' = ''a''" "ec_pingInterval c' = 25000000" "ec_ups c' \<noteq> []"
    unfolding sample_fields dialed_fields(1,2) by (auto simp: sample_fields dialed_fields(1,2))
  then show ?thesis
    by blast
qed

end
