(* ===== verification/SioStack.thy ===== *)
theory SioStack
  imports SioWire EioHandshake
begin

text \<open>
  The whole stack from an emit on the server to the packet processor of the client: \<^verbatim>\<open>sendPacket\<close>
  of \<^verbatim>\<open>socketio/server.go\<close>, the Engine.IO session and its polling transport, the poll loop of the
  Engine.IO client and \<^verbatim>\<open>handleIn\<close> of \<^verbatim>\<open>socketio/client.go\<close>.
\<close>

section \<open>Messages in a payload\<close>

definition message_packet :: "message \<Rightarrow> Packet" where
  "message_packet m = \<lparr>pkt_Type = Message, pkt_Data = fst m, pkt_IsBinary = snd m\<rparr>"

lemma itoa_no_separator: "separator \<notin> set (itoa i)"
proof -
  have "separator \<notin> set (itoa_nat n)" for n
    using itoa_nat_digits [of n] by (auto simp: list_all_iff separator_def isDigit_def)
  then show ?thesis
    by (simp add: itoa_def) (simp add: separator_def)
qed

lemma Encode_no_separator:
  assumes "separator \<notin> set (sp_Nsp p)"
  shows "separator \<notin> set (Encode p)"
proof -
  have "separator \<notin> set (marshal v)" for v
    using marshal_printable [of separator v] by (auto simp: separator_def)
  moreover have "separator \<noteq> packet_type_byte t" for t
    by (cases t) (simp_all add: separator_def)
  ultimately show ?thesis
    using assms itoa_no_separator by (simp add: Encode_def) (simp add: separator_def)
qed

lemma sendPacket_safe:
  assumes "separator \<notin> set (sp_Nsp p)" and "sendPacket p h = (msgs, h')" and "m \<in> set msgs"
  shows "payload_safe (message_packet m)"
proof -
  obtain d bufs h1 where d: "deconstruct (sp_Data p) ([], h) = (d, bufs, h1)"
    by (cases "deconstruct (sp_Data p) ([], h)") auto
  have "snd m \<or> separator \<notin> set (fst m)"
    using assms d by (cases d) (auto simp: sendPacket_def Let_def Encode_no_separator split: if_splits)
  then show ?thesis
    by (auto simp: payload_safe_def wf_packet_def message_packet_def)
qed

lemma sendPackets_safe:
  assumes "\<forall>p\<in>set ps. separator \<notin> set (sp_Nsp p)" and "sendPackets ps h = (msgs, h')"
  shows "\<forall>p\<in>set (map message_packet msgs). payload_safe p"
  using assms
proof (induction ps arbitrary: h msgs)
  case (Cons p ps)
  obtain m1 h1 m2 h2 where s: "sendPacket p h = (m1, h1)" "sendPackets ps h1 = (m2, h2)"
    by fastforce
  then have m: "msgs = m1 @ m2"
    using Cons.prems(2) by simp
  have "\<forall>p\<in>set (map message_packet m1). payload_safe p"
    using sendPacket_safe [OF _ s(1)] Cons.prems(1) by simp
  then show ?case
    using Cons.IH [of h1 m2] Cons.prems s unfolding m by auto
qed simp

section \<open>The session collects and answers\<close>

text \<open>An open session on polling that has nothing to send and between two polls.\<close>

definition between_polls :: "session \<Rightarrow> bool" where
  "between_polls s \<longleftrightarrow>
     ss_readyState s = StateOpen \<and> ss_transport s = Some TPolling \<and> \<not> ss_upgrading s \<and> \<not> ss_sending s
     \<and> ss_flight s = None
     \<and> (case ss_polling s of
          None \<Rightarrow> False
        | Some p \<Rightarrow> pl_poll p = None \<and> \<not> pl_writable p \<and> \<not> pl_closed p \<and> \<not> pl_pendingClose p \<and> pl_sendBuffer p = [])"

lemma send_between_polls:
  assumes "between_polls s"
  shows "run_all (map (\<lambda>(data, binary). SendMessage data binary) msgs) s
    = (s\<lparr>ss_writeBuffer := ss_writeBuffer s @ map message_packet msgs\<rparr>, map (\<lambda>m. Queued (message_packet m)) msgs)"
  using assms
proof (induction msgs arbitrary: s)
  case (Cons m msgs)
  obtain data binary where m: "m = (data, binary)"
    by fastforce
  have "SendMessage data binary s = (s\<lparr>ss_writeBuffer := ss_writeBuffer s @ [message_packet m]\<rparr>, [Queued (message_packet m)])"
    using Cons.prems
    by (auto simp: SendMessage_def eio_sendPacket_def between_polls_def t_Writable_def message_packet_def m Let_def
        split: option.splits)
  moreover have "between_polls (s\<lparr>ss_writeBuffer := ss_writeBuffer s @ [message_packet m]\<rparr>)"
    using Cons.prems by (simp add: between_polls_def)
  ultimately show ?case
    using Cons.IH [of "s\<lparr>ss_writeBuffer := ss_writeBuffer s @ [message_packet m]\<rparr>"] by (simp add: m)
qed simp

lemma poll_collects:
  assumes "between_polls s" and "ss_writeBuffer s \<noteq> []"
  shows "\<exists>s'. onPollRequest r w s = (s', [PollAnswer r (ss_writeBuffer s)]) \<and> between_polls s' \<and> ss_writeBuffer s' = []"
  using assms
  by (auto simp: between_polls_def onPollRequest_def poll_begin_def flush_def flush_begin_def flush_end_def t_Send_def
      t_Writable_def polling_call_def run_polling_def pl_Send_def perform_def dispatch_def modify_def reflush_def poll_end_def
      Let_def split: option.splits)

section \<open>The client reads the answer\<close>

definition awaits_answer :: "eclient \<Rightarrow> bool" where
  "awaits_answer c \<longleftrightarrow> (case ec_polling c of None \<Rightarrow> False | Some p \<Rightarrow> cp_phase p = PPolling)"

definition dispatching :: "Packet list \<Rightarrow> eclient \<Rightarrow> bool" where
  "dispatching pkts c \<longleftrightarrow> (case ec_polling c of None \<Rightarrow> False | Some p \<Rightarrow> cp_phase p = PDispatch pkts)"

lemma answer_dispatched:
  assumes "awaits_answer c" and "\<forall>p\<in>set pkts. payload_safe p"
  shows "\<exists>c'. poll_answered (Inr (200, Inr (EncodePayload pkts))) c = (c', []) \<and> dispatching pkts c' \<and> ec_onData c' = ec_onData c"
  using assms(1) DecodePayload_EncodePayload [OF assms(2)]
  by (auto simp: awaits_answer_def dispatching_def poll_answered_def DecodePayload_def map_cp_def Let_def split: option.splits)

lemma dispatch_messages:
  assumes "dispatching (map message_packet msgs) c"
  shows "\<exists>c'. run_all (replicate (length msgs) poll_next) c = (c', map (\<lambda>(data, binary). DataCall (ec_onData c) data binary) msgs)
    \<and> dispatching [] c'"
  using assms
proof (induction msgs arbitrary: c)
  case (Cons m msgs)
  let ?c = "map_cp (\<lambda>p. p\<lparr>cp_phase := PDispatch (map message_packet msgs)\<rparr>) c"
  have "poll_next c = (?c, [case m of (data, binary) \<Rightarrow> DataCall (ec_onData c) data binary])"
    using Cons.prems
    by (auto simp: dispatching_def poll_next_def binding_OnPacket_def ec_onPacket_def message_packet_def map_cp_def
        split: option.splits prod.splits)
  moreover have "dispatching (map message_packet msgs) ?c" "ec_onData ?c = ec_onData c"
    using Cons.prems by (auto simp: dispatching_def map_cp_def split: option.splits)
  ultimately show ?case
    using Cons.IH [of ?c] by auto
qed simp

section \<open>From the emit to the packet processor\<close>

text \<open>
  C4. Events and acknowledgements that a server sends to a client, with or without binary parts,
  cross the whole stack. When \<^verbatim>\<open>sendPacket\<close> hands their messages to a session on polling between two
  polls, the next poll is answered with exactly these messages; and when the poll loop of the
  client has read the answer, it has called the data callback once for each of them, in order,
  from which \<^verbatim>\<open>handleIn\<close> makes the packets that were sent: as many, in the same order, each with its
  type, namespace, id and payload. The names of the namespaces do not contain the separator of
  polling payloads.\<close>

theorem events_cross_the_stack:
  assumes "\<forall>p\<in>set ps. transferable h p" and "\<forall>p\<in>set ps. separator \<notin> set (sp_Nsp p)"
    and "distinct (concat (map (\<lambda>p. reader_addrs (sp_Data p)) ps))" and "ps \<noteq> []"
    and "between_polls s" and "ss_writeBuffer s = []" and "awaits_answer c"
  shows "\<exists>msgs h' pkts s1 s2 c' recon' qs.
      sendPackets ps h = (msgs, h')
    \<and> run_all (map (\<lambda>(data, binary). SendMessage data binary) msgs) s = (s1, map Queued pkts)
    \<and> onPollRequest r w s1 = (s2, [PollAnswer r pkts])
    \<and> run_all (poll_answered (Inr (200, Inr (EncodePayload pkts))) # replicate (length pkts) poll_next) c
        = (c', map (\<lambda>(data, binary). DataCall (ec_onData c) data binary) msgs)
    \<and> receive recon msgs = (recon', qs) \<and> list_all2 (arrives_as h) ps qs"
proof -
  obtain msgs h' recon' qs where m: "sendPackets ps h = (msgs, h')" "receive recon msgs = (recon', qs)"
    "list_all2 (arrives_as h) ps qs"
    using transfer_all [OF assms(1,3)] by blast
  let ?pkts = "map message_packet msgs"
  let ?s = "s\<lparr>ss_writeBuffer := ?pkts\<rparr>"
  have "msgs \<noteq> []"
    using m(2,3) assms(4) by auto
  moreover have "between_polls ?s"
    using assms(5) by (simp add: between_polls_def)
  ultimately obtain s2 where p: "onPollRequest r w ?s = (s2, [PollAnswer r ?pkts])"
    using poll_collects [of ?s r w] by auto
  have q: "run_all (map (\<lambda>(data, binary). SendMessage data binary) msgs) s = (?s, map Queued ?pkts)"
    using send_between_polls [OF assms(5), of msgs] assms(6) by simp
  obtain c1 where c1: "poll_answered (Inr (200, Inr (EncodePayload ?pkts))) c = (c1, [])" "dispatching ?pkts c1"
    "ec_onData c1 = ec_onData c"
    using answer_dispatched [OF assms(7) sendPackets_safe [OF assms(2) m(1)]] by blast
  then obtain c' where "run_all (poll_answered (Inr (200, Inr (EncodePayload ?pkts))) # replicate (length ?pkts) poll_next) c
      = (c', map (\<lambda>(data, binary). DataCall (ec_onData c) data binary) msgs)"
    using dispatch_messages [OF c1(2)] by auto
  then show ?thesis
    using m p q by blast
qed

definition resting :: session where
  "resting = (attach_polling NewPolling (newSession ''a'' sample_options))\<lparr>ss_readyState := StateOpen\<rparr>"

theorem events_cross_the_stack_witness:
  "\<exists>msgs h' pkts s1 s2 c' recon' qs.
      sendPackets [sample_binary_event, sample_event] sample_readers = (msgs, h')
    \<and> run_all (map (\<lambda>(data, binary). SendMessage data binary) msgs) resting = (s1, map Queued pkts)
    \<and> onPollRequest 1 None s1 = (s2, [PollAnswer 1 pkts])
    \<and> run_all (poll_answered (Inr (200, Inr (EncodePayload pkts))) # replicate (length pkts) poll_next) polled
        = (c', map (\<lambda>(data, binary). DataCall (ec_onData polled) data binary) msgs)
    \<and> receive None msgs = (recon', qs)
    \<and> list_all2 (arrives_as sample_readers) [sample_binary_event, sample_event] qs"
  using sample_binary_event_ok sample_event_ok
  by (intro events_cross_the_stack)
    (simp_all add: sample_binary_event_def sample_event_def sample_binary_def separator_def between_polls_def resting_def
      attach_polling_def newSession_def NewPolling_def awaits_answer_def polled_def dialed_def dialPolling_def poll_top_def
      new_cpolling_def new_eclient_def map_cp_def)

end
