(* ===== verification/EioClientProps.thy ===== *)
theory EioClientProps
  imports EioClient "HOL-Library.Multiset"
begin

text \<open>
  Properties of the Engine.IO client over all its runs: every packet given to it is sent once,
  or still waits, or belonged to a batch that its transport failed to send; the close callback
  is called at most once; and the open callback that a caller sets is never the one called for
  the handshake.
\<close>

section \<open>Runs\<close>

text \<open>
  The caller holds the client once \<^verbatim>\<open>Dial\<close> has returned it; the context of \<^verbatim>\<open>Dial\<close> may end before
  that. A dial opens a connection with a new number.
\<close>

definition held :: "eclient \<Rightarrow> bool" where
  "held c \<longleftrightarrow> eio_Dial_result c = Some None"

datatype ec_event =
    ESend bytes bool
  | EClose
  | ECancelled
  | EOnOpen "nat option"
  | EOnData "nat option"
  | EOnClose "nat option"
  | EWatchdog nat
  | EHand nat "go_error option" "(nat \<times> go_error) option"
  | EPost nat "go_error + nat"
  | EPoll "go_error option"
  | EUnblock
  | EAnswer "go_error + nat \<times> (go_error + bytes)"
  | ENext
  | EFrame nat bytes bool
  | ELost nat
  | EUpStart nat
  | EUpPaused nat
  | EUpDialed nat "go_error + nat \<times> go_error option"
  | EUpRead nat "go_error + bool \<times> bytes" "go_error option"

fun ec_apply :: "ec_event \<Rightarrow> ec_step" where
  "ec_apply (ESend data binary) = (\<lambda>c. fst (ec_SendMessage data binary c))"
| "ec_apply EClose = ec_Close"
| "ec_apply ECancelled = eio_Dial_cancelled"
| "ec_apply (EOnOpen f) = modify (ec_OnOpen f)"
| "ec_apply (EOnData f) = modify (ec_OnData f)"
| "ec_apply (EOnClose f) = modify (ec_OnClose f)"
| "ec_apply (EWatchdog i) = watchdog_fires i"
| "ec_apply (EHand k norequest w) = hand_batch k norequest w"
| "ec_apply (EPost k outcome) = post_done k outcome"
| "ec_apply (EPoll norequest) = poll_top norequest"
| "ec_apply EUnblock = modify poll_unblocked"
| "ec_apply (EAnswer answer) = poll_answered answer"
| "ec_apply ENext = poll_next"
| "ec_apply (EFrame n data binary) = cws_frame n data binary"
| "ec_apply (ELost n) = cws_lost n"
| "ec_apply (EUpStart k) = modify (up_start k)"
| "ec_apply (EUpPaused k) = modify (up_paused k)"
| "ec_apply (EUpDialed k dialed) = up_dialed k dialed"
| "ec_apply (EUpRead k frame confirm) = up_read k frame confirm"

fun ec_ok :: "ec_event \<Rightarrow> eclient \<Rightarrow> bool" where
  "ec_ok (ESend data binary) c = held c"
| "ec_ok EClose c = held c"
| "ec_ok ECancelled c = (\<not> held c)"
| "ec_ok (EOnOpen f) c = held c"
| "ec_ok (EOnData f) c = held c"
| "ec_ok (EOnClose f) c = held c"
| "ec_ok (EUpDialed k (Inr (n, err))) c = (ec_ws c n = None)"
| "ec_ok _ c = True"

text \<open>
  Runs begin with a \<^verbatim>\<open>Dial\<close> that has a transport: with a first transport that is neither polling
  nor WebSocket, it only waits for the end of its context.
\<close>

inductive ec_reach :: "ec_effect list \<Rightarrow> eclient \<Rightarrow> bool" where
  ec_init: "eio_Dial opts parsed failed = Inr (c, es) \<Longrightarrow> ec_tport c \<noteq> None \<Longrightarrow> ec_reach es c"
| ec_more: "ec_reach es c \<Longrightarrow> ec_ok e c \<Longrightarrow> ec_apply e c = (c', es') \<Longrightarrow> ec_reach (es @ es') c'"

text \<open>A sequence of events, when every one of them can happen.\<close>

fun ec_run :: "ec_event list \<Rightarrow> eclient \<Rightarrow> (eclient \<times> ec_effect list) option" where
  "ec_run [] c = Some (c, [])"
| "ec_run (e # evs) c =
     (if ec_ok e c
      then (case ec_apply e c of (c1, es) \<Rightarrow> map_option (apsnd (\<lambda>es'. es @ es')) (ec_run evs c1))
      else None)"

lemma ec_run_reach:
  assumes "ec_reach es c" and "ec_run evs c = Some (c', es')"
  shows "ec_reach (es @ es') c'"
  using assms
proof (induction evs arbitrary: es es' c)
  case (Cons e evs)
  obtain c1 es1 where a: "ec_apply e c = (c1, es1)"
    by fastforce
  then obtain es2 where r: "ec_ok e c" "ec_run evs c1 = Some (c', es2)" "es' = es1 @ es2"
    using Cons.prems(2) by (auto split: if_splits)
  from Cons.IH [OF ec_more [OF Cons.prems(1) r(1) a] r(2)] show ?case
    by (simp add: r(3))
qed simp

text \<open>A relation between states that every operation obeys holds for every event of a run.\<close>

locale client_relation = step_relation R
  for R :: "eclient \<Rightarrow> ec_effect list \<Rightarrow> eclient \<Rightarrow> bool" +
  assumes send: "obeys R (\<lambda>c. fst (ec_SendMessage data binary c))"
    and close: "obeys R ec_Close"
    and callbacks: "held c \<Longrightarrow> R c [] (ec_OnOpen f c) \<and> R c [] (ec_OnData f c) \<and> R c [] (ec_OnClose f c)"
    and watchdog: "obeys R (watchdog_fires i)"
    and hand: "obeys R (hand_batch k norequest w)"
    and post: "obeys R (post_done k outcome)"
    and poll: "obeys R (poll_top norequest)"
    and unblock: "obeys R (modify poll_unblocked)"
    and answer: "obeys R (poll_answered ans)"
    and dispatch: "obeys R poll_next"
    and frame: "obeys R (cws_frame n data binary)"
    and lost: "obeys R (cws_lost n)"
    and up_start: "obeys R (modify (up_start k))"
    and up_paused: "obeys R (modify (up_paused k))"
    and up_dialed: "obeys R (up_dialed k dialed)"
    and up_read: "obeys R (up_read k frm confirm)"
begin

lemma event:
  assumes "ec_ok e c"
  shows "R c (snd (ec_apply e c)) (fst (ec_apply e c))"
  using assms
proof (cases e)
  case (ESend data binary)
  then show ?thesis
    using obeysD [OF send] by simp
next
  case EUnblock
  then show ?thesis
    using obeysD [OF unblock] by simp
next
  case (EUpStart k)
  then show ?thesis
    using obeysD [OF up_start] by simp
next
  case (EUpPaused k)
  then show ?thesis
    using obeysD [OF up_paused] by simp
qed (simp_all add: callbacks modify_def eio_Dial_cancelled_def obeysD [OF close] obeysD [OF watchdog] obeysD [OF hand]
    obeysD [OF post] obeysD [OF poll] obeysD [OF answer] obeysD [OF dispatch] obeysD [OF frame] obeysD [OF lost]
    obeysD [OF up_dialed] obeysD [OF up_read])

lemma reach:
  assumes "ec_reach es c"
  shows "\<exists>opts parsed failed c0 es0 es1. eio_Dial opts parsed failed = Inr (c0, es0) \<and> ec_tport c0 \<noteq> None
    \<and> es = es0 @ es1 \<and> R c0 es1 c"
  using assms
proof induction
  case (ec_init opts parsed failed c es)
  then show ?case
    using idle by (metis append_Nil2)
next
  case (ec_more es c e c' es')
  then obtain opts parsed failed c0 es0 es1 where i: "eio_Dial opts parsed failed = Inr (c0, es0)" "ec_tport c0 \<noteq> None"
    "es = es0 @ es1" "R c0 es1 c"
    by blast
  have "R c es' c'"
    using event [OF ec_more(2)] ec_more(3) by simp
  from compose [OF i(4) this] i show ?case
    by (metis append.assoc)
qed

end

section \<open>Steps made of a few kinds of changes\<close>

text \<open>What most changes of the state leave alone, and the effects that most steps have.\<close>

definition core :: "eclient \<Rightarrow> Packet list \<times> (sender \<times> ctport \<times> Packet list) list \<times> ctport option \<times> bool
    \<times> go_error option option \<times> nat" where
  "core c = (ec_writeBuffer c, ec_flights c, ec_tport c, ec_closed c, ec_handshake c, ec_onOpen c)"

fun internal :: "ec_effect \<Rightarrow> bool" where
  "internal (Given p) = False"
| "internal (Post q pkts) = False"
| "internal (CFrame n p) = False"
| "internal (Unsent pkts) = False"
| "internal (OpenCall h) = False"
| "internal (CloseCall h err) = False"
| "internal _ = True"

named_theorems still \<open>state changes that leave the core alone\<close>

lemma still_basic [still]:
  "core (stop_watchdog c) = core c" "core (map_cp f c) = core c" "core (map_cws n g c) = core c" "core (open_ws n ph c) = core c"
  "core (set_up k h c) = core c" "core (end_up k c) = core c" "core (start_upgrade c) = core c"
  by (simp_all add: core_def stop_watchdog_def map_cp_def map_cws_def open_ws_def set_up_def end_up_def start_upgrade_def
      split: option.split)

lemma still_update [still]:
  "core (c\<lparr>ec_upgrading := b\<rparr>) = core c" "core (c\<lparr>ec_timers := ts\<rparr>) = core c"
  "core (c\<lparr>ec_timer := i\<rparr>) = core c" "core (c\<lparr>ec_ntimers := j\<rparr>) = core c" "core (c\<lparr>ec_sid := sid\<rparr>) = core c"
  "core (c\<lparr>ec_pingInterval := d\<rparr>) = core c" "core (c\<lparr>ec_pingTimeout := d\<rparr>) = core c" "core (c\<lparr>ec_posts := ws\<rparr>) = core c"
  by (simp_all add: core_def)

lemma still_reset [still]: "core (resetNoPingTimeout c) = core c"
  by (simp add: resetNoPingTimeout_def Let_def still)

lemma still_waits [still]: "core (waits who c) = core c"
  by (simp add: waits_def wait_read_def still split: sender.split ctport.split)

lemma still_returned [still]: "core (returned who c) = core c"
  by (simp add: returned_def resume_read_def resume_polling_def still split: sender.split ctport.split option.split)

lemma still_up [still]: "core (up_start k c) = core c" "core (up_paused k c) = core c" "core (poll_unblocked c) = core c"
  by (simp_all add: up_start_def up_paused_def poll_unblocked_def Let_def still split: option.split)

text \<open>Effects that send the packets of a batch, or say that they could not be sent.\<close>

definition given :: "ec_effect list \<Rightarrow> Packet multiset" where
  "given es = mset (concat (map (\<lambda>e. case e of Given p \<Rightarrow> [p] | _ \<Rightarrow> []) es))"

definition sent :: "ec_effect list \<Rightarrow> Packet multiset" where
  "sent es = mset (concat (map (\<lambda>e. case e of Post q pkts \<Rightarrow> pkts | CFrame n p \<Rightarrow> [p] | _ \<Rightarrow> []) es))"

definition unsent :: "ec_effect list \<Rightarrow> Packet multiset" where
  "unsent es = mset (concat (map (\<lambda>e. case e of Unsent pkts \<Rightarrow> pkts | _ \<Rightarrow> []) es))"

fun is_call :: "ec_effect \<Rightarrow> bool" where
  "is_call (OpenCall h) = True"
| "is_call (CloseCall h err) = True"
| "is_call _ = False"

definition outgoing :: "Packet list \<Rightarrow> ec_effect list \<Rightarrow> bool" where
  "outgoing pkts es \<longleftrightarrow> given es = {#} \<and> sent es + unsent es = mset pkts \<and> list_all (\<lambda>e. \<not> is_call e) es"

lemma effects_append [simp]:
  "given (es @ es') = given es + given es'" "sent (es @ es') = sent es + sent es'" "unsent (es @ es') = unsent es + unsent es'"
  by (simp_all add: given_def sent_def unsent_def)

lemma effects_simps [simp]:
  "given [] = {#}" "sent [] = {#}" "unsent [] = {#}"
  "given [Given p] = {#p#}" "sent [Given p] = {#}" "unsent [Given p] = {#}"
  "given [Post q pkts] = {#}" "sent [Post q pkts] = mset pkts" "unsent [Post q pkts] = {#}"
  "given [Unsent pkts] = {#}" "sent [Unsent pkts] = {#}" "unsent [Unsent pkts] = mset pkts"
  "given [OpenCall h] = {#}" "sent [OpenCall h] = {#}" "unsent [OpenCall h] = {#}"
  "given [CloseCall h e] = {#}" "sent [CloseCall h e] = {#}" "unsent [CloseCall h e] = {#}"
  "given [CClose n] = {#}" "sent [CClose n] = {#}" "unsent [CClose n] = {#}"
  "given (map (CFrame n) pkts) = {#}" "sent (map (CFrame n) pkts) = mset pkts" "unsent (map (CFrame n) pkts) = {#}"
  by (simp_all add: given_def sent_def unsent_def comp_def concat_map_singleton)

lemma outgoing_frames: "outgoing pkts (map (CFrame n) pkts)"
  by (simp add: outgoing_def list_all_iff)

lemma outgoing_some_frames: "outgoing pkts (map (CFrame n) (take k pkts) @ [Unsent (drop k pkts)])"
  by (simp add: outgoing_def list_all_iff flip: mset_append)

lemma outgoing_simps [simp]: "outgoing pkts [Post q pkts]" "outgoing pkts [Unsent pkts]"
  by (simp_all add: outgoing_def)

lemma internal_nothing:
  assumes "list_all internal es"
  shows "given es = {#}" "sent es = {#}" "unsent es = {#}" "list_all (\<lambda>e. \<not> is_call e) es"
  using assms by (induction es) (auto simp: given_def sent_def unsent_def elim!: internal.elims)

text \<open>
  The operations are built from changes outside the core, closing, flushing, accepting a packet,
  the open callback, a switch of the transport and the handing over of a batch. A relation that
  holds for each of these is obeyed by all of them.
\<close>

locale client_changes = step_relation R
  for R :: "eclient \<Rightarrow> ec_effect list \<Rightarrow> eclient \<Rightarrow> bool" +
  assumes inner: "core c' = core c \<Longrightarrow> list_all internal es \<Longrightarrow> R c es c'"
    and shut: "\<not> ec_closed c \<Longrightarrow> R c [] (c\<lparr>ec_closed := True\<rparr>)"
    and shut_error: "\<not> ec_closed c \<Longrightarrow> R c [CloseCall h err] (c\<lparr>ec_closed := True\<rparr>)"
    and failed: "ec_handshake c = None \<Longrightarrow> R c [] (c\<lparr>ec_handshake := Some (Some e)\<rparr>)"
    and opened: "R c [OpenCall (ec_onOpen c)] (handshakeSucceeded c)"
    and accept: "R c [Given p] (c\<lparr>ec_writeBuffer := ec_writeBuffer c @ [p]\<rparr>)"
    and drop_buffer: "ec_tport c = None \<Longrightarrow> R c [] (c\<lparr>ec_writeBuffer := []\<rparr>)"
    and take_buffer: "ec_tport c = Some t \<Longrightarrow>
      R c [] (c\<lparr>ec_writeBuffer := [], ec_flights := ec_flights c @ [(who, t, ec_writeBuffer c)]\<rparr>)"
    and switch: "R c [] (c\<lparr>ec_tport := Some (CWebsocket n)\<rparr>)"
    and handover: "k < length (ec_flights c) \<Longrightarrow> ec_flights c ! k = (who, t, pkts) \<Longrightarrow> outgoing pkts es \<Longrightarrow>
      R c es (c\<lparr>ec_flights := remove_nth k (ec_flights c)\<rparr>)"
    and callback: "held c \<Longrightarrow> R c [] (ec_OnOpen f c) \<and> R c [] (ec_OnData f c) \<and> R c [] (ec_OnClose f c)"
begin

lemma then_inner: "R c es c1 \<Longrightarrow> core c' = core c1 \<Longrightarrow> R c es c'"
  using compose [OF _ inner [of c' c1 "[]"]] by simp

lemma inner_then: "R c1 es c' \<Longrightarrow> core c1 = core c \<Longrightarrow> R c es c'"
  using compose [OF inner [of c1 c "[]"]] by simp

lemma inner_modify: "(\<And>c. core (g c) = core c) \<Longrightarrow> obeys R (modify g)"
  by (simp add: obeys_modify inner)

lemma inner_perform: "list_all internal es \<Longrightarrow> obeys R (perform es)"
  by (simp add: obeys_perform inner)

lemma flushing: "R c [] (flushSends who c)"
proof (cases "ec_tport c")
  case None
  then show ?thesis
    using inner_then [OF idle] then_inner [OF drop_buffer]
    by (simp add: flushSends_def taken_def still inner)
next
  case (Some t)
  then show ?thesis
    using then_inner [OF take_buffer [OF Some]] by (simp add: flushSends_def taken_def still inner)
qed

lemma flush_modify: "obeys R (modify (flushSends who))"
  by (simp add: obeys_modify flushing)

lemma up_failing: "obeys R (modify (up_fail k))"
  by (rule obeys_modify) (simp add: up_fail_def inner_then [OF flushing] still)

lemma giving: "R c [Given p] (flushSends who (c\<lparr>ec_writeBuffer := ec_writeBuffer c @ [p]\<rparr>))"
  using compose [OF accept flushing] by simp

lemma sending: "obeys R (ec_sendPacket who p)"
  by (simp add: obeys_def ec_sendPacket_def giving inner still)

lemma closing: "obeys R (closeWithError err)"
proof (rule obeysI)
  fix c :: eclient
  show "R c (snd (closeWithError err c)) (fst (closeWithError err c))"
  proof (cases "ec_closed c")
    case False
    let ?c = "stop_watchdog (c\<lparr>ec_closed := True\<rparr>)"
    have s: "R c [CloseCall (ec_onClose ?c) err] ?c"
      by (rule then_inner [OF shut_error [OF False]]) (simp add: still)
    have "R ?c [] (handshakeFailed e ?c)" for e
      by (simp add: handshakeFailed_def failed idle)
    from compose [OF s this] s show ?thesis
      using False by (cases err) (simp_all add: closeWithError_def Let_def)
  qed (simp add: closeWithError_def idle)
qed

lemma errors: "obeys R (ec_onErrorFrom t err)" "obeys R (ec_onCloseFrom t)"
  using closing by (auto simp: obeys_def ec_onErrorFrom_def ec_onCloseFrom_def idle)

lemma conn_closing: "obeys R (conn_Close n)" "obeys R (c_Close t)"
  by (rule obeysI, rule inner; simp add: conn_Close_def c_Close_def still split: ctport.split)+

lemma closing_all: "obeys R ec_Close"
proof (rule obeysI)
  fix c :: eclient
  show "R c (snd (ec_Close c)) (fst (ec_Close c))"
  proof (cases "ec_closed c")
    case False
    let ?c = "stop_watchdog (c\<lparr>ec_closed := True\<rparr>)"
    have s: "R c [] ?c"
      by (rule then_inner [OF shut [OF False]]) (simp add: still)
    have "R c (snd (c_Close t ?c)) (fst (c_Close t ?c))" for t
      using compose [OF s obeysD [OF conn_closing(2)]] by simp
    with s False show ?thesis
      by (simp add: ec_Close_def Let_def split: option.split)
  qed (simp add: ec_Close_def idle)
qed

lemma watching: "obeys R (watchdog_fires i)"
  by (rule obeysI) (simp add: watchdog_fires_def idle inner_then [OF obeysD [OF closing]] still)

lemmas steps = obeys_Nil obeys_Cons obeys_nothing inner_modify inner_perform flush_modify up_failing conn_closing errors

text \<open>Receiving.\<close>

lemma open_handled: "obeys R (handleOpen data)"
proof (rule obeysI)
  fix c :: eclient
  show "R c (snd (handleOpen data c)) (fst (handleOpen data c))"
  proof (cases "decode_open data")
    case None
    then show ?thesis
      using obeysD [OF closing] by (simp add: handleOpen_def)
  next
    case (Some o1)
    then show ?thesis
      by (simp add: handleOpen_def Let_def inner_then [OF opened] still)
  qed
qed

lemma receiving: "obeys R (binding_OnPacket t p)"
proof (rule obeysI)
  fix c :: eclient
  have "R c (snd (ec_onPacket t p c)) (fst (ec_onPacket t p c))"
    using obeysD [OF open_handled] obeysD [OF sending] obeysD [OF closing]
    by (cases "pkt_Type p") (simp_all add: ec_onPacket_def inner idle)
  then show "R c (snd (binding_OnPacket t p c)) (fst (binding_OnPacket t p c))"
    by (simp add: binding_OnPacket_def idle)
qed

lemma polling_next: "obeys R poll_next"
  by (rule obeysI)
    (simp add: poll_next_def idle inner still inner_then [OF obeysD [OF receiving]] split: option.split poll_phase.split list.split)

lemma polling_top: "obeys R (poll_top norequest)"
  by (rule obeysI) (simp add: poll_top_def idle inner still inner_then [OF obeysD [OF errors(1)]] split: option.split)

lemma polling_answer: "obeys R (poll_answered ans)"
  by (rule obeysI)
    (simp add: poll_answered_def Let_def idle inner still inner_then [OF obeysD [OF errors(1)]] split: option.split sum.split prod.split)

lemma reading_frames: "obeys R (cws_frame n data binary)" "obeys R (cws_lost n)"
  by (rule obeysI, simp add: cws_frame_def cws_lost_def idle obeysD [OF receiving] obeysD [OF errors(1)]
      inner_then [OF obeysD [OF errors(2)]] still split: sum.split)+

text \<open>Upgrading.\<close>

lemma dialing: "obeys R (up_dialed k outcome)"
proof (rule obeysI)
  fix c :: eclient
  have "obeys R (up_opened k outcome)"
    by (simp only: up_opened_def split: sum.split prod.split option.split) (intro conjI allI impI steps; simp add: still)
  then have "obeys R (run_all [perform [WsDial s q], up_opened k outcome])" for s q
    by (intro steps) simp_all
  from obeysD [OF this] show "R c (snd (up_dialed k outcome c)) (fst (up_dialed k outcome c))"
    unfolding up_dialed_def by (simp del: run_all.simps add: idle split: option.split)
qed

lemma switching: "obeys R (modify (\<lambda>c. c\<lparr>ec_tport := Some (CWebsocket n), ec_upgrading := b\<rparr>))"
  by (rule obeys_modify, rule then_inner [OF switch]) (simp add: core_def)

lemma finishing: "obeys R (up_finish k n)"
proof (rule obeysI)
  fix c :: eclient
  have r: "obeys R (replace_transport old)" for old
    by (simp only: replace_transport_def split: option.split ctport.split) (intro conjI allI impI steps; simp add: still)
  have "obeys R (run_all [conn_Close n, modify (end_up k)])"
    by (intro steps) (simp add: still)
  moreover have "obeys R (run_all
      [modify (\<lambda>c. c\<lparr>ec_tport := Some (CWebsocket n), ec_upgrading := False\<rparr>), replace_transport (ec_tport c),
       modify (map_cws n (\<lambda>w. w\<lparr>cw_phase := WReading\<rparr>)), modify (end_up k), modify (flushSends Caller)])"
    by (intro switching r steps) (simp_all add: still)
  ultimately show "R c (snd (up_finish k n c)) (fst (up_finish k n c))"
    unfolding up_finish_def by (simp add: obeysD del: run_all.simps)
qed

lemma probing: "obeys R (up_read k frm confirm)"
proof (rule obeysI)
  fix c :: eclient
  have "obeys R (run_all [conn_Close n, modify (up_fail k)])" for n
    by (intro steps)
  moreover have "obeys R (run_all [perform [RawFrame n ''5''], up_finish k n])" for n
    by (intro steps finishing) simp
  ultimately show "R c (snd (up_read k frm confirm c)) (fst (up_read k frm confirm c))"
    unfolding up_read_def by (simp add: obeysD idle del: run_all.simps split: option.split up_phase.split sum.split)
qed

text \<open>Handing over.\<close>

lemma posted: "obeys R (post_done k outcome)"
proof (rule obeysI)
  fix c :: eclient
  have o: "obeys R (post_outcome b outcome)" for b
    by (simp only: post_outcome_def split: sum.split if_split) (intro conjI allI impI steps)
  have "obeys R (run_all [modify (\<lambda>c. map_cp f (c\<lparr>ec_posts := g c\<rparr>)), post_outcome b outcome, modify (returned who)])"
    for f g b who
    by (intro steps o) (simp_all add: still)
  from obeysD [OF this] show "R c (snd (post_done k outcome c)) (fst (post_done k outcome c))"
    unfolding post_done_def by (simp add: idle del: run_all.simps split: option.split)
qed

lemma handing: "obeys R (hand_batch k norequest w)"
proof (rule obeysI)
  fix c :: eclient
  show "R c (snd (hand_batch k norequest w c)) (fst (hand_batch k norequest w c))"
  proof (cases "k < length (ec_flights c)")
    case True
    obtain who t pkts where b: "ec_flights c ! k = (who, t, pkts)"
      by (cases "ec_flights c ! k") auto
    let ?c = "c\<lparr>ec_flights := remove_nth k (ec_flights c)\<rparr>"
    note h = handover [OF True b]
    have after: "R c (es @ snd (f ?c)) (fst (f ?c))" if "outgoing pkts es" "obeys R f" for es f
      using compose [OF h [OF that(1)] obeysD [OF that(2)]] .
    have "obeys R (run_all [ec_onErrorFrom u err, modify (returned who)])" "obeys R (modify (returned who))" for u err
      by (intro steps; simp add: still)+
    note after_error = after [OF _ this(1)] after [OF _ this(2)]
    show ?thesis
    proof (cases t)
      case CPolling
      have "R c (snd (cp_Send who pkts norequest ?c)) (fst (cp_Send who pkts norequest ?c))"
        using h after_error(1) [OF outgoing_simps(2)]
        by (simp add: cp_Send_def perform_def case_prod_beta then_inner [OF h] still split: option.split)
      then show ?thesis
        using True b CPolling by (simp add: hand_batch_def Let_def)
    next
      case (CWebsocket n)
      have "R c (snd (run_all [cws_Send n pkts w, modify (returned who)] ?c)) (fst (run_all [cws_Send n pkts w, modify (returned who)] ?c))"
        using after_error(1) [OF outgoing_some_frames] after_error(2) [OF outgoing_frames]
        by (simp add: cws_Send_def perform_def modify_def case_prod_beta split: option.split)
      then show ?thesis
        using True b CWebsocket by (simp add: hand_batch_def Let_def del: run_all.simps)
    qed
  qed (simp add: hand_batch_def idle)
qed

lemma messages: "obeys R (\<lambda>c. fst (ec_SendMessage data binary c))"
  by (simp add: obeys_def ec_SendMessage_def Let_def idle giving)

end

sublocale client_changes \<subseteq> client_relation R
proof unfold_locales
  fix c :: eclient and f
  assume "held c"
  then show "R c [] (ec_OnOpen f c) \<and> R c [] (ec_OnData f c) \<and> R c [] (ec_OnClose f c)"
    by (rule callback)
qed (fact messages closing_all watching handing posted polling_top polling_answer polling_next reading_frames dialing probing
  | rule inner_modify, simp add: still)+

section \<open>What is given and what is sent\<close>

definition pending :: "eclient \<Rightarrow> Packet multiset" where
  "pending c = mset (ec_writeBuffer c) + mset (concat (map (snd \<circ> snd) (ec_flights c)))"

text \<open>There is a transport, and nothing is lost or repeated.\<close>

definition balanced :: "eclient \<Rightarrow> ec_effect list \<Rightarrow> eclient \<Rightarrow> bool" where
  "balanced c es c' \<longleftrightarrow>
     (ec_tport c \<noteq> None \<longrightarrow> ec_tport c' \<noteq> None \<and> given es + pending c = sent es + unsent es + pending c')"

lemma balanced_compose:
  assumes "balanced c es c1" and "balanced c1 es' c'"
  shows "balanced c (es @ es') c'"
proof -
  have "given es + given es' + pending c = sent (es @ es') + unsent (es @ es') + pending c'"
    if a: "given es + pending c = sent es + unsent es + pending c1"
      and b: "given es' + pending c1 = sent es' + unsent es' + pending c'"
  proof -
    have "given es + given es' + pending c = given es' + (given es + pending c)"
      by (simp add: ac_simps)
    also have "\<dots> = (given es' + pending c1) + (sent es + unsent es)"
      unfolding a by (simp add: ac_simps)
    also have "\<dots> = sent (es @ es') + unsent (es @ es') + pending c'"
      unfolding b by (simp add: ac_simps)
    finally show ?thesis .
  qed
  then show ?thesis
    using assms by (simp add: balanced_def)
qed

text \<open>A batch leaves the list of batches as it is handed over.\<close>

lemma mset_remove_nth:
  assumes "k < length xs"
  shows "mset (concat (map g xs)) = mset (g (xs ! k)) + mset (concat (map g (remove_nth k xs)))"
proof -
  have "mset (concat (map g xs)) = mset (concat (map g (take k xs @ xs ! k # drop (Suc k) xs)))"
    using id_take_nth_drop [OF assms] by simp
  then show ?thesis
    by (simp add: remove_nth_def)
qed

interpretation balance: client_changes balanced
proof unfold_locales
  fix c c' :: eclient and es
  assume "core c' = core c" and "list_all internal es"
  then show "balanced c es c'"
    by (simp add: balanced_def pending_def core_def internal_nothing)
next
  fix c :: eclient and k who t pkts es
  assume k: "k < length (ec_flights c)" and b: "ec_flights c ! k = (who, t, pkts)" and "outgoing pkts es"
  then show "balanced c es (c\<lparr>ec_flights := remove_nth k (ec_flights c)\<rparr>)"
    using mset_remove_nth [OF k, of "snd \<circ> snd"] by (simp add: balanced_def pending_def outgoing_def ac_simps)
next
  fix c :: eclient and f
  show "balanced c [] (ec_OnOpen f c) \<and> balanced c [] (ec_OnData f c) \<and> balanced c [] (ec_OnClose f c)"
    by (simp add: balanced_def pending_def ec_OnOpen_def ec_OnData_def ec_OnClose_def split: option.split)
qed (erule (1) balanced_compose | simp add: balanced_def pending_def handshakeSucceeded_def)+

lemma Dial_start:
  assumes "eio_Dial opts parsed failed = Inr (c, es)" and "ec_tport c \<noteq> None"
  shows "ec_writeBuffer c = []" "ec_flights c = []" "ec_onOpen c = 0" "ec_handshake c = None" "\<not> ec_closed c" "list_all internal es"
  using assms
  by (auto simp: eio_Dial_def dialPolling_def dialWebsocket_def new_eclient_def open_ws_def Let_def
      split: sum.splits prod.splits if_splits option.splits)

text \<open>
  C7. The client neither loses nor repeats a packet by itself. Whatever happens - sends from several
  goroutines, pings, errors, an upgrade that fails or succeeds while messages are sent, a close -
  the packets that the client accepted are at every moment exactly those it posted or wrote to a
  WebSocket, those a transport reported it could not send, those in the write buffer, and those of
  the batches that are on their way to a transport.
\<close>

theorem client_packets_conserved:
  assumes "ec_reach es c"
  shows "given es = sent es + unsent es + mset (ec_writeBuffer c) + mset (concat (map (snd \<circ> snd) (ec_flights c)))"
proof -
  from balance.reach [OF assms]
  obtain opts parsed failed c0 es0 es1 where i: "eio_Dial opts parsed failed = Inr (c0, es0)" "ec_tport c0 \<noteq> None"
    "es = es0 @ es1" "balanced c0 es1 c"
    by blast
  note d = Dial_start [OF i(1,2)]
  have "given es1 = sent es1 + unsent es1 + pending c"
    using i(2,4) d(1,2) by (simp add: balanced_def pending_def)
  then show ?thesis
    using internal_nothing [OF d(6)] i(3) by (simp add: pending_def)
qed

text \<open>A sample run: a handshake, a message before the upgrade, one during it, and the switch.\<close>

definition quoted :: "string \<Rightarrow> string" where
  "quoted s = dquote # s @ [dquote]"

definition open_body :: bytes where
  "open_body = ''0{'' @ quoted ''sid'' @ '':'' @ quoted ''a'' @ '','' @ quoted ''upgrades'' @ '':['' @ quoted ''websocket'' @ '']}''"

definition run_start :: eclient where
  "run_start = dialPolling (new_eclient None ''http'' [])"

definition run_open :: "ec_event list" where
  "run_open = [EPoll None, EAnswer (Inr (200, Inr open_body)), ENext, ENext]"

definition run_upgrade :: "ec_event list" where
  "run_upgrade = [EUpStart 0, EUpPaused 0, EUpDialed 0 (Inr (1, None)), EUpRead 0 (Inr (False, ''3probe'')) None]"

lemma run_start_reach: "ec_reach [] run_start"
proof (rule ec_init)
  show "eio_Dial None (Inr (''http'', [])) None = Inr (run_start, [])"
    by (simp add: eio_Dial_def run_start_def new_eclient_def zero_eio_options_def)
qed (simp add: run_start_def dialPolling_def)

lemma sample_run:
  assumes "ec_run evs run_start \<noteq> None"
  shows "ec_reach (snd (the (ec_run evs run_start))) (fst (the (ec_run evs run_start)))"
  using ec_run_reach [OF run_start_reach, of evs] assms by auto

definition run_messages :: "ec_event list" where
  "run_messages =
     run_open @ [ESend ''hi'' False, EHand 0 None None, EPost 0 (Inr 200), EUpStart 0, ESend ''yo'' False, EUpPaused 0,
       EUpDialed 0 (Inr (1, None)), EUpRead 0 (Inr (False, ''3probe'')) None, EHand 0 None None]"

theorem client_packets_conserved_witness:
  "ec_run run_messages run_start \<noteq> None
    \<and> ec_tport (fst (the (ec_run run_messages run_start))) = Some (CWebsocket 1)
    \<and> given (snd (the (ec_run run_messages run_start))) = sent (snd (the (ec_run run_messages run_start)))"
proof -
  have r: "ec_run run_messages run_start \<noteq> None"
    by code_simp
  have e: "unsent (snd (the (ec_run run_messages run_start))) = {#}" "ec_writeBuffer (fst (the (ec_run run_messages run_start))) = []"
    "ec_flights (fst (the (ec_run run_messages run_start))) = []"
    "ec_tport (fst (the (ec_run run_messages run_start))) = Some (CWebsocket 1)"
    by code_simp+
  then show ?thesis
    using r client_packets_conserved [OF sample_run [OF r]] by simp
qed

section \<open>Callbacks\<close>

text \<open>Calls of the close callback, at most one of them and only by the step that closes the client.\<close>

definition close_calls :: "ec_effect list \<Rightarrow> nat" where
  "close_calls es = length (filter (\<lambda>e. case e of CloseCall h err \<Rightarrow> True | _ \<Rightarrow> False) es)"

definition calls_close :: "eclient \<Rightarrow> ec_effect list \<Rightarrow> eclient \<Rightarrow> bool" where
  "calls_close c es c' \<longleftrightarrow> close_calls es + (if ec_closed c then 1 else 0) \<le> (if ec_closed c' then 1 else 0)"

lemma close_calls_simps [simp]:
  "close_calls (es @ es') = close_calls es + close_calls es'" "close_calls [] = 0" "close_calls [Given p] = 0"
  "close_calls [OpenCall h] = 0" "close_calls [CloseCall h err] = 1"
  by (simp_all add: close_calls_def)

lemma no_call_no_close: "list_all (\<lambda>e. \<not> is_call e) es \<Longrightarrow> close_calls es = 0"
  by (auto simp: close_calls_def list_all_iff filter_empty_conv split: ec_effect.split)

interpretation close_call: client_changes calls_close
proof unfold_locales
  fix c c' :: eclient and es
  assume "core c' = core c" and "list_all internal es"
  then show "calls_close c es c'"
    by (simp add: calls_close_def core_def internal_nothing no_call_no_close)
next
  fix c :: eclient and f
  show "calls_close c [] (ec_OnOpen f c) \<and> calls_close c [] (ec_OnData f c) \<and> calls_close c [] (ec_OnClose f c)"
    by (simp add: calls_close_def ec_OnOpen_def ec_OnData_def ec_OnClose_def split: option.split)
qed (auto simp: calls_close_def handshakeSucceeded_def outgoing_def no_call_no_close split: if_splits)

text \<open>
  The close callback of the client is called at most once in a run, and only if the client
  is closed at the end. (A close by \<^verbatim>\<open>Close\<close> does not call it.)
\<close>

lemma client_close_callback_once:
  assumes "ec_reach es c"
  shows "close_calls es \<le> (if ec_closed c then 1 else 0)"
proof -
  from close_call.reach [OF assms]
  obtain opts parsed failed c0 es0 es1 where i: "eio_Dial opts parsed failed = Inr (c0, es0)" "ec_tport c0 \<noteq> None"
    "es = es0 @ es1" "calls_close c0 es1 c"
    by blast
  note d = Dial_start [OF i(1,2)]
  from i(4) d(5) show ?thesis
    using no_call_no_close [OF internal_nothing(4) [OF d(6)]] i(3) by (simp add: calls_close_def split: if_splits)
qed

text \<open>
  The first call of the open callback, which comes before the caller holds the client.
\<close>

definition first_open :: "ec_effect list \<Rightarrow> nat option" where
  "first_open es = (case filter (\<lambda>e. case e of OpenCall h \<Rightarrow> True | _ \<Rightarrow> False) es of OpenCall h # _ \<Rightarrow> Some h | _ \<Rightarrow> None)"

definition opens :: "eclient \<Rightarrow> ec_effect list \<Rightarrow> eclient \<Rightarrow> bool" where
  "opens c es c' \<longleftrightarrow>
     (\<not> held c \<longrightarrow>
        (case first_open es of
           None \<Rightarrow> \<not> held c' \<and> ec_onOpen c' = ec_onOpen c
         | Some h \<Rightarrow> h = ec_onOpen c))"

lemma first_open_append: "first_open (es @ es') = (case first_open es of None \<Rightarrow> first_open es' | Some h \<Rightarrow> Some h)"
proof (induction es)
  case (Cons e es)
  then show ?case
    by (cases e) (simp_all add: first_open_def)
qed (simp add: first_open_def)

lemma first_open_simps [simp]: "first_open [] = None" "first_open [Given p] = None" "first_open [OpenCall h] = Some h"
  "first_open [CloseCall h err] = None"
  by (simp_all add: first_open_def)

lemma no_call_no_open: "list_all (\<lambda>e. \<not> is_call e) es \<Longrightarrow> first_open es = None"
proof (induction es)
  case (Cons e es)
  then show ?case
    by (cases e) (simp_all add: first_open_def)
qed (simp add: first_open_def)

interpretation open_call: client_changes opens
proof unfold_locales
  fix c c1 c' :: eclient and es es'
  assume "opens c es c1" and "opens c1 es' c'"
  then show "opens c (es @ es') c'"
    by (auto simp: opens_def first_open_append split: option.splits)
next
  fix c c' :: eclient and es
  assume "core c' = core c" and "list_all internal es"
  then show "opens c es c'"
    by (simp add: opens_def core_def internal_nothing no_call_no_open held_def eio_Dial_result_def)
next
  fix c :: eclient and k who t pkts es
  assume "outgoing pkts es"
  then show "opens c es (c\<lparr>ec_flights := remove_nth k (ec_flights c)\<rparr>)"
    by (simp add: opens_def outgoing_def no_call_no_open held_def eio_Dial_result_def)
qed (simp_all add: opens_def held_def eio_Dial_result_def)

text \<open>
  C34. A callback set with \<^verbatim>\<open>OnOpen\<close> is never called for the handshake: whatever the caller does
  with a client, the first call of an open callback is the one of the empty function that \<^verbatim>\<open>Dial\<close>
  put there, since \<^verbatim>\<open>Dial\<close> hands out the client only after that call has been chosen.
\<close>

theorem open_callback_too_late:
  assumes "ec_reach es c"
  shows "first_open es \<in> {None, Some 0}"
proof -
  from open_call.reach [OF assms]
  obtain opts parsed failed c0 es0 es1 where i: "eio_Dial opts parsed failed = Inr (c0, es0)" "ec_tport c0 \<noteq> None"
    "es = es0 @ es1" "opens c0 es1 c"
    by blast
  note d = Dial_start [OF i(1,2)]
  have "\<not> held c0"
    using d(4) by (simp add: held_def eio_Dial_result_def)
  then show ?thesis
    using i(3,4) d(3) no_call_no_open [OF internal_nothing(4) [OF d(6)]] by (auto simp: opens_def first_open_append split: option.splits)
qed

definition run_on_open :: "ec_event list" where
  "run_on_open = run_open @ [EOnOpen (Some 7), EPoll None, EClose]"

theorem open_callback_too_late_witness:
  "ec_run run_on_open run_start \<noteq> None \<and> first_open (snd (the (ec_run run_on_open run_start))) = Some 0
    \<and> ec_onOpen (fst (the (ec_run run_on_open run_start))) = 7 \<and> OpenCall 7 \<notin> set (snd (the (ec_run run_on_open run_start)))"
proof -
  have r: "ec_run run_on_open run_start \<noteq> None"
    by code_simp
  have "first_open (snd (the (ec_run run_on_open run_start))) \<noteq> None" "ec_onOpen (fst (the (ec_run run_on_open run_start))) = 7"
    "OpenCall 7 \<notin> set (snd (the (ec_run run_on_open run_start)))"
    by code_simp+
  then show ?thesis
    using r open_callback_too_late [OF sample_run [OF r]] by auto
qed

end
