(* ===== verification/EioClientFindings.thy ===== *)
theory EioClientFindings
  imports EioClientProps EioServerProps
begin

text \<open>
  Situations in which the Engine.IO client does not do what it means to: the poll loop that waits
  for the end of a pause is left behind by every upgrade that succeeds meanwhile, a batch that was
  taken before an upgrade can be refused after it without anyone noticing, two requests with data
  can overlap and close the session, and a client closed by an error goes on polling.
\<close>

section \<open>A poll loop left behind\<close>

definition stuck :: "cpolling \<Rightarrow> bool" where
  "stuck p \<longleftrightarrow> cp_phase p = PBlocked \<and> cp_closed p \<and> \<not> cp_cancelled p"

definition blocked :: "eclient \<Rightarrow> bool" where
  "blocked c \<longleftrightarrow> (\<exists>p. ec_polling c = Some p \<and> stuck p) \<and> ec_tport c \<noteq> Some CPolling
     \<and> (\<forall>(k, u) \<in> set (ec_ups c). up_tport u \<noteq> Some CPolling)"

definition stays_blocked :: "eclient \<Rightarrow> ec_effect list \<Rightarrow> eclient \<Rightarrow> bool" where
  "stays_blocked c es c' \<longleftrightarrow> (blocked c \<longrightarrow> blocked c')"

lemma blocked_basic [simp]:
  "blocked (stop_watchdog c) = blocked c" "blocked (map_cws n g c) = blocked c" "blocked (open_ws n ph c) = blocked c"
  "blocked (handshakeSucceeded c) = blocked c" "blocked (handshakeFailed err c) = blocked c"
  "blocked (c\<lparr>ec_closed := b\<rparr>) = blocked c" "blocked (c\<lparr>ec_upgrading := b\<rparr>) = blocked c" "blocked (c\<lparr>ec_timers := ts\<rparr>) = blocked c"
  "blocked (c\<lparr>ec_timer := i\<rparr>) = blocked c" "blocked (c\<lparr>ec_ntimers := j\<rparr>) = blocked c" "blocked (c\<lparr>ec_sid := sid\<rparr>) = blocked c"
  "blocked (c\<lparr>ec_pingInterval := d\<rparr>) = blocked c" "blocked (c\<lparr>ec_pingTimeout := d\<rparr>) = blocked c"
  "blocked (c\<lparr>ec_posts := ws\<rparr>) = blocked c" "blocked (c\<lparr>ec_writeBuffer := buf\<rparr>) = blocked c"
  "blocked (c\<lparr>ec_flights := fl\<rparr>) = blocked c"
  by (simp_all add: blocked_def stop_watchdog_def map_cws_def open_ws_def handshakeSucceeded_def handshakeFailed_def split: option.split)

lemma blocked_map_cp: "blocked c \<Longrightarrow> (\<And>p. stuck p \<Longrightarrow> stuck (f p)) \<Longrightarrow> blocked (map_cp f c)"
  by (auto simp: blocked_def map_cp_def)

lemma blocked_stop: "blocked c \<Longrightarrow> blocked (map_cp stopForUpgrade c)"
  by (rule blocked_map_cp) (simp_all add: stopForUpgrade_def stuck_def)

lemma blocked_ups: "blocked c \<Longrightarrow> blocked (end_up k c)" "blocked c \<Longrightarrow> blocked (start_upgrade c)"
  "blocked c \<Longrightarrow> (\<And>u. up_tport u \<noteq> Some CPolling \<Longrightarrow> up_tport (h u) \<noteq> Some CPolling) \<Longrightarrow> blocked (set_up k h c)"
  by (auto simp: blocked_def end_up_def start_upgrade_def set_up_def split: if_splits)

lemma blocked_reset [simp]: "blocked (resetNoPingTimeout c) = blocked c"
  by (simp add: resetNoPingTimeout_def Let_def)

lemma blocked_waits: "blocked c \<Longrightarrow> blocked (waits who c)"
  by (auto simp: waits_def wait_read_def stuck_def intro!: blocked_map_cp blocked_ups split: sender.split ctport.split)

lemma blocked_no_resume: "blocked c \<Longrightarrow> resume_polling k c = c"
  by (auto simp: blocked_def resume_polling_def split: option.split dest: map_of_SomeD)

lemma blocked_returned: "blocked c \<Longrightarrow> blocked (returned who c)"
  by (auto simp: returned_def resume_read_def stuck_def blocked_no_resume intro!: blocked_map_cp blocked_ups
      split: sender.split ctport.split)

lemma blocked_flushSends: "blocked c \<Longrightarrow> blocked (flushSends who c)"
  by (simp add: flushSends_def taken_def blocked_returned blocked_waits split: option.split)

lemma blocked_close: "blocked c \<Longrightarrow> blocked (fst (closeWithError err c))" "blocked c \<Longrightarrow> blocked (fst (conn_Close n c))"
  "blocked c \<Longrightarrow> blocked (fst (ec_onErrorFrom t e c))" "blocked c \<Longrightarrow> blocked (fst (ec_onCloseFrom t c))"
  "blocked c \<Longrightarrow> blocked (fst (c_Close t c))"
  by (auto simp: closeWithError_def conn_Close_def ec_onErrorFrom_def ec_onCloseFrom_def c_Close_def cp_Close_def stuck_def Let_def
      intro!: blocked_map_cp split: option.split ctport.split)

interpretation stays: step_relation stays_blocked
  by unfold_locales (auto simp: stays_blocked_def)

lemma stays_obeys: "(\<And>c. blocked c \<Longrightarrow> blocked (fst (f c))) \<Longrightarrow> obeys stays_blocked f"
  by (simp add: obeys_def stays_blocked_def)

lemma stays_modify: "(\<And>c. blocked c \<Longrightarrow> blocked (g c)) \<Longrightarrow> obeys stays_blocked (modify g)"
  by (simp add: stays_obeys modify_def)

lemma stays_perform: "obeys stays_blocked (perform es)"
  by (simp add: stays_obeys perform_def)

lemmas stays_intros = stays.obeys_Nil stays.obeys_Cons stays_perform stays_modify

lemma blocked_run:
  assumes "obeys stays_blocked f" and "blocked c"
  shows "blocked (fst (f c))"
  using assms by (simp add: obeys_def stays_blocked_def)

lemma blocked_sendPacket: "blocked c \<Longrightarrow> blocked (fst (ec_sendPacket who p c))" "blocked c \<Longrightarrow> blocked (fst (fst (ec_SendMessage d b c)))"
  by (simp_all add: ec_sendPacket_def ec_SendMessage_def Let_def blocked_flushSends blocked_returned)

lemma blocked_handleOpen: "blocked c \<Longrightarrow> blocked (fst (handleOpen data c))"
  by (simp add: handleOpen_def Let_def blocked_close blocked_ups split: option.split)

lemma blocked_OnPacket: "blocked c \<Longrightarrow> blocked (fst (binding_OnPacket t p c))"
  by (simp add: binding_OnPacket_def ec_onPacket_def blocked_handleOpen blocked_sendPacket blocked_close split: Type.split)

lemma blocked_poll: "blocked c \<Longrightarrow> blocked (fst (poll_top norequest c))" "blocked c \<Longrightarrow> blocked (fst (poll_answered ans c))"
  "blocked c \<Longrightarrow> blocked (fst (poll_next c))" "blocked c \<Longrightarrow> blocked (poll_unblocked c)"
proof -
  assume b: "blocked c"
  then obtain p where p: "ec_polling c = Some p" "cp_phase p = PBlocked"
    by (auto simp: blocked_def stuck_def)
  show "blocked (fst (poll_top norequest c))" "blocked (fst (poll_answered ans c))" "blocked (fst (poll_next c))"
    using b p by (simp_all add: poll_top_def poll_answered_def poll_next_def)
  show "blocked (poll_unblocked c)"
    using b unfolding poll_unblocked_def by (rule blocked_map_cp) (simp add: stuck_def)
qed

lemma stays_up: "obeys stays_blocked (up_opened k outcome)" "obeys stays_blocked (up_finish k n)"
proof -
  have f: "blocked c \<Longrightarrow> blocked (up_fail k c)" for c
    by (simp add: up_fail_def blocked_flushSends)
  have c: "obeys stays_blocked (conn_Close n)" for n
    by (rule stays_obeys) (rule blocked_close)
  show "obeys stays_blocked (up_opened k outcome)"
    by (simp only: up_opened_def split: sum.split prod.split option.split)
      (intro conjI allI impI stays_intros c; simp add: f blocked_ups)
  have r: "obeys stays_blocked (replace_transport old)" for old
    by (simp only: replace_transport_def split: option.split ctport.split)
      (intro conjI allI impI stays_intros stays_obeys blocked_close; simp add: blocked_stop)
  have s: "obeys stays_blocked (run_all
      [modify (\<lambda>c. c\<lparr>ec_tport := Some (CWebsocket n), ec_upgrading := False\<rparr>), replace_transport t,
       modify (map_cws n (\<lambda>w. w\<lparr>cw_phase := WReading\<rparr>)), modify (end_up k), modify (flushSends Caller)])" for t
    by (intro stays_intros r) (auto simp: blocked_ups blocked_flushSends, simp add: blocked_def)
  have e: "obeys stays_blocked (run_all [conn_Close n, modify (end_up k)])"
    by (intro stays_intros c) (simp add: blocked_ups)
  show "obeys stays_blocked (up_finish k n)"
  proof (rule stays_obeys)
    fix c :: eclient
    assume "blocked c"
    then show "blocked (fst (up_finish k n c))"
      unfolding up_finish_def using blocked_run [OF s] blocked_run [OF e] by (simp del: run_all.simps)
  qed
qed

lemma blocked_up_dialed: "blocked c \<Longrightarrow> blocked (fst (up_dialed k outcome c))"
proof -
  assume b: "blocked c"
  have "obeys stays_blocked (run_all [perform [WsDial s q], up_opened k outcome])" for s q
    by (intro stays_intros stays_up)
  from blocked_run [OF this b] b show ?thesis
    by (simp add: up_dialed_def del: run_all.simps split: option.split)
qed

lemma blocked_up_read: "blocked c \<Longrightarrow> blocked (fst (up_read k frm confirm c))"
proof -
  assume b: "blocked c"
  have "obeys stays_blocked (run_all [conn_Close n, modify (up_fail k)])" for n
    by (intro stays_intros stays_obeys) (simp_all add: blocked_close up_fail_def blocked_flushSends)
  moreover have "obeys stays_blocked (run_all [perform [RawFrame n ''5''], up_finish k n])" for n
    by (intro stays_intros stays_up)
  ultimately show ?thesis
    using b unfolding up_read_def
    by (simp add: blocked_run del: run_all.simps split: option.split up_phase.split sum.split)
qed

lemma blocked_up: "blocked c \<Longrightarrow> blocked (up_start k c)" "blocked c \<Longrightarrow> blocked (up_paused k c)"
proof -
  assume b: "blocked c"
  then have "ec_tport c \<noteq> Some CPolling"
    by (simp add: blocked_def)
  with b show "blocked (up_start k c)"
    by (auto simp: up_start_def Let_def blocked_ups split: option.split)
  from b show "blocked (up_paused k c)"
    by (simp add: up_paused_def blocked_ups split: option.split)
qed

lemma blocked_sends: "blocked c \<Longrightarrow> blocked (fst (hand_batch k norequest w c))" "blocked c \<Longrightarrow> blocked (fst (post_done k outcome c))"
proof -
  assume b: "blocked c"
  have e: "obeys stays_blocked (ec_onErrorFrom t err)" for t err
    by (rule stays_obeys) (rule blocked_close)
  have m: "blocked (map_cp (\<lambda>p. p\<lparr>cp_sendInflight := g p\<rparr>) c1)" if "blocked c1" for g c1
    using that by (rule blocked_map_cp) (simp add: stuck_def)
  have f: "obeys stays_blocked (run_all [perform es, ec_onErrorFrom t err, modify (returned who)])" for es t err who
    by (intro stays_intros e blocked_returned)
  have w: "obeys stays_blocked (cws_Send n pkts w)" for n pkts
    unfolding cws_Send_def by (simp only: split: option.split prod.split if_split) (intro conjI allI impI stays_intros e)
  then have "obeys stays_blocked (run_all [cws_Send n pkts w, modify (returned who)])" for n pkts who
    by (intro stays_intros blocked_returned)
  note ws = blocked_run [OF this]
  have "blocked (fst (cp_Send who pkts norequest c1))" if "blocked c1" for who pkts c1
    using that m blocked_run [OF f that] by (simp add: cp_Send_def del: run_all.simps split: option.split)
  with ws b show "blocked (fst (hand_batch k norequest w c))"
    by (simp add: hand_batch_def Let_def del: run_all.simps split: prod.split ctport.split)
  have "obeys stays_blocked (post_outcome b outcome)" for b
    unfolding post_outcome_def by (simp only: split: sum.split if_split) (intro conjI allI impI stays_intros e)
  then have "obeys stays_blocked (run_all [modify (\<lambda>c. map_cp (\<lambda>p. p\<lparr>cp_sendInflight := g p\<rparr>) (c\<lparr>ec_posts := ws c\<rparr>)),
      post_outcome b outcome, modify (returned who)])" for g ws b who
    by (intro stays_intros blocked_returned) (simp add: m)
  from blocked_run [OF this b] b show "blocked (fst (post_done k outcome c))"
    by (simp add: post_done_def del: run_all.simps split: option.split)
qed

interpretation stays_client: client_relation stays_blocked
proof unfold_locales
  fix c :: eclient and f
  show "stays_blocked c [] (ec_OnOpen f c) \<and> stays_blocked c [] (ec_OnData f c) \<and> stays_blocked c [] (ec_OnClose f c)"
    by (simp add: stays_blocked_def blocked_def ec_OnOpen_def ec_OnData_def ec_OnClose_def split: option.split)
next
  show "obeys stays_blocked ec_Close"
    by (rule stays_obeys) (simp add: ec_Close_def Let_def blocked_close split: option.split)
next
  show "obeys stays_blocked (watchdog_fires i)" for i
    by (rule stays_obeys) (simp add: watchdog_fires_def blocked_close)
next
  show "obeys stays_blocked (cws_frame n data binary)" "obeys stays_blocked (cws_lost n)" for n data binary
    by (rule stays_obeys; simp add: cws_frame_def cws_lost_def blocked_OnPacket blocked_close split: sum.split)+
qed (rule stays_obeys stays_modify; simp add: blocked_sendPacket blocked_sends blocked_poll blocked_up blocked_up_dialed blocked_up_read)+

lemma ec_run_blocked:
  assumes "blocked c" and "ec_run evs c = Some (c', es)"
  shows "blocked c'"
  using assms
proof (induction evs arbitrary: c es)
  case (Cons e evs)
  obtain c1 es1 where a: "ec_apply e c = (c1, es1)"
    by fastforce
  then have "ec_ok e c" and r: "\<exists>es2. ec_run evs c1 = Some (c', es2)"
    using Cons.prems(2) by (auto split: if_splits)
  then have "blocked c1"
    using stays_client.event [of e c] Cons.prems(1) a by (simp add: stays_blocked_def)
  then show ?case
    using Cons.IH r by blast
qed simp

lemma up_finish_blocks:
  assumes "ec_tport c = Some CPolling" and "\<not> ec_closed c" and "ec_polling c = Some p" and "cp_phase p = PBlocked"
    and "\<not> cp_cancelled p" and "ec_ups c = [(k, u)]"
  shows "blocked (fst (up_finish k n c))"
proof -
  have "blocked (end_up k (map_cws n f (map_cp stopForUpgrade (c\<lparr>ec_tport := Some (CWebsocket n), ec_upgrading := False\<rparr>))))" for f
    using assms by (simp add: blocked_def end_up_def map_cws_def map_cp_def stuck_def stopForUpgrade_def)
  from blocked_flushSends [OF this] show ?thesis
    using assms(1,2) by (simp add: up_finish_def modify_def replace_transport_def)
qed

text \<open>
  C31. An upgrade strands the poll loop. When the loop already waits for the end of the pause at the
  moment the upgrade succeeds - as it does once the server has answered the pending poll with a
  noop - nothing ever wakes it again: whatever happens afterwards, also a close of the client or
  further upgrades, the loop still waits. \<^verbatim>\<open>stopForUpgrade\<close> marks the transport closed without
  ending the pause or the context, and a later \<^verbatim>\<open>Close\<close> finds it closed already.
\<close>

theorem upgrade_strands_poll_loop:
  assumes "ec_tport c = Some CPolling" and "\<not> ec_closed c" and "ec_polling c = Some p" and "cp_phase p = PBlocked"
    and "\<not> cp_cancelled p" and "ec_ups c = [(k, u)]"
    and "up_finish k n c = (c1, es1)" and "ec_run evs c1 = Some (c2, es2)"
  shows "\<exists>p'. ec_polling c2 = Some p' \<and> cp_phase p' = PBlocked"
proof -
  have "blocked c1"
    using up_finish_blocks [OF assms(1-6), of n] assms(7) by simp
  then have "blocked c2"
    using ec_run_blocked assms(8) by blast
  then show ?thesis
    by (auto simp: blocked_def stuck_def)
qed

definition run_paused :: "ec_event list" where
  "run_paused =
     run_open @ [EPoll None, EUpStart 0, EUpPaused 0, EUpDialed 0 (Inr (1, None)), EAnswer (Inr (200, Inr ''6'')), ENext, ENext, EPoll None]"

definition paused_client :: eclient where
  "paused_client = fst (the (ec_run run_paused run_start))"

definition upgraded_client :: eclient where
  "upgraded_client = fst (up_finish 0 1 paused_client)"

definition finished_client :: eclient where
  "finished_client = fst (the (ec_run [EClose, EUnblock, EPoll None, ELost 1] upgraded_client))"

theorem upgrade_strands_poll_loop_witness:
  "ec_run run_paused run_start \<noteq> None \<and> ec_closed finished_client
    \<and> (\<exists>p. ec_polling finished_client = Some p \<and> cp_phase p = PBlocked)"
proof -
  have r: "ec_run run_paused run_start \<noteq> None" "ec_closed finished_client"
    by code_simp+
  have "ec_tport paused_client = Some CPolling" "\<not> ec_closed paused_client" "ec_polling paused_client \<noteq> None"
    "cp_phase (the (ec_polling paused_client)) = PBlocked" "\<not> cp_cancelled (the (ec_polling paused_client))"
    "ec_ups paused_client = [(0, the (map_of (ec_ups paused_client) 0))]"
    "ec_run [EClose, EUnblock, EPoll None, ELost 1] upgraded_client \<noteq> None"
    by code_simp+
  then show ?thesis
    using r upgrade_strands_poll_loop [of paused_client "the (ec_polling paused_client)" 0 _ 1 upgraded_client
        "snd (up_finish 0 1 paused_client)" "[EClose, EUnblock, EPoll None, ELost 1]" finished_client]
    by (auto simp: upgraded_client_def finished_client_def)
qed

section \<open>Requests with data\<close>

text \<open>
  C32. A batch that was on its way to the polling transport when an upgrade succeeded is lost
  without notice when its request fails: once the client has switched, no outcome of such a
  request closes the client, calls anyone or puts the packets back into the write buffer. The
  pause waits only for requests that were sent, not for batches that were taken, and the server refuses
  polling requests of an upgraded session.
\<close>

theorem late_batch_failure_unnoticed:
  assumes "ec_tport c \<noteq> Some CPolling" and "k < length (ec_posts c)" and "ec_posts c ! k = Caller"
    and "post_done k outcome c = (c', es)"
  shows "es = [] \<and> ec_closed c' = ec_closed c \<and> ec_writeBuffer c' = ec_writeBuffer c \<and> ec_flights c' = ec_flights c"
  using assms
  by (auto simp: post_done_def post_outcome_def modify_def perform_def map_cp_def ec_onErrorFrom_def returned_def
      split: option.splits sum.splits if_splits)

definition run_late :: "ec_event list" where
  "run_late = run_open @ [ESend ''hi'' False] @ run_upgrade @ [EHand 0 None None]"

definition late_client :: eclient where
  "late_client = fst (the (ec_run run_late run_start))"

theorem late_batch_failure_unnoticed_witness:
  "ec_run run_late run_start \<noteq> None \<and> snd (post_done 0 (Inr 400) late_client) = []
    \<and> \<not> ec_closed (fst (post_done 0 (Inr 400) late_client)) \<and> ec_writeBuffer (fst (post_done 0 (Inr 400) late_client)) = []"
proof -
  have r: "ec_run run_late run_start \<noteq> None"
    by code_simp
  have "ec_tport late_client \<noteq> Some CPolling" "0 < length (ec_posts late_client)" "ec_posts late_client ! 0 = Caller"
    "\<not> ec_closed late_client" "ec_writeBuffer late_client = []"
    by code_simp+
  then show ?thesis
    using r late_batch_failure_unnoticed [of late_client 0 "Inr 400" "fst (post_done 0 (Inr 400) late_client)"
        "snd (post_done 0 (Inr 400) late_client)"] by simp
qed

text \<open>
  C30. The client does not wait for the answer to a request with data before it sends the next
  one, and the server does not survive that. However many such requests are unanswered, another
  message is posted at once; and a session of the server that is reading the data of one request
  is closed with a transport error by the arrival of a second one, which is answered with status 400.
\<close>

theorem overlapping_posts_close_session:
  assumes "\<not> ec_closed c" and "\<not> ec_upgrading c" and "ec_tport c = Some CPolling" and "ec_polling c = Some cp"
    and "m = \<lparr>pkt_Type = Message, pkt_Data = data, pkt_IsBinary = binary\<rparr>"
    and "ss_transport s = Some TPolling" and "\<not> ss_upgrading s" and "ss_readyState s \<noteq> StateClosed"
    and "ss_polling s = Some pl" and "pl_dataReq pl \<noteq> None" and "rq_Method rq = ''POST''"
  shows "(\<exists>c'. run_all [\<lambda>c. fst (ec_SendMessage data binary c), hand_batch (length (ec_flights c)) None None] c =
        (c', [Given m, Post (urlWithSID c cp) (ec_writeBuffer c @ [m])]) \<and> length (ec_posts c') = Suc (length (ec_posts c)))
    \<and> (\<exists>s'. polling_ServeHTTP r rq w s =
        (s', snd (closeWithReason ''transport error'' (Some (wrapInvalidPacket ErrDataRequestActive)) s) @ [HttpReply r 400 []])
        \<and> ss_readyState s' = StateClosed)"
proof
  show "\<exists>c'. run_all [\<lambda>c. fst (ec_SendMessage data binary c), hand_batch (length (ec_flights c)) None None] c =
      (c', [Given m, Post (urlWithSID c cp) (ec_writeBuffer c @ [m])]) \<and> length (ec_posts c') = Suc (length (ec_posts c))"
    using assms(1-5)
    by (simp add: ec_SendMessage_def Let_def flushSends_def taken_def waits_def hand_batch_def cp_Send_def urlWithSID_def map_cp_def)
  have same: "s\<lparr>ss_polling := Some pl\<rparr> = s"
    using assms(9) by (cases s) simp
  show "\<exists>s'. polling_ServeHTTP r rq w s =
      (s', snd (closeWithReason ''transport error'' (Some (wrapInvalidPacket ErrDataRequestActive)) s) @ [HttpReply r 400 []])
      \<and> ss_readyState s' = StateClosed"
    using assms(6-11)
    by (simp add: polling_ServeHTTP_def polling_call_def run_polling_def data_begin_def dispatch_def onErrorFrom_def perform_def
        case_prod_beta) (simp only: same)
qed

definition run_posting :: "ec_event list" where
  "run_posting = run_open @ [ESend ''a'' False, EHand 0 None None]"

definition posting_client :: eclient where
  "posting_client = fst (the (ec_run run_posting run_start))"

definition reading_session :: session where
  "reading_session = fst (polling_call (data_begin 3) (fst sample_open))"

theorem overlapping_posts_close_session_witness:
  "length (ec_posts posting_client) = 1
    \<and> length (ec_posts (fst (run_all [\<lambda>c. fst (ec_SendMessage ''b'' False c), hand_batch 0 None None] posting_client))) = 2
    \<and> ss_readyState reading_session = StateOpen
    \<and> ss_readyState (fst (polling_ServeHTTP 4 late_post None reading_session)) = StateClosed"
proof -
  have c: "\<not> ec_closed posting_client" "\<not> ec_upgrading posting_client" "ec_tport posting_client = Some CPolling"
    "ec_polling posting_client \<noteq> None" "length (ec_posts posting_client) = 1" "ec_flights posting_client = []"
    by code_simp+
  have s: "ss_transport reading_session = Some TPolling" "\<not> ss_upgrading reading_session" "ss_readyState reading_session = StateOpen"
    "ss_polling reading_session \<noteq> None" "pl_dataReq (the (ss_polling reading_session)) \<noteq> None" "rq_Method late_post = ''POST''"
    by code_simp+
  from c s show ?thesis
    using overlapping_posts_close_session [of posting_client "the (ec_polling posting_client)" _ "''b''" False reading_session
        "the (ss_polling reading_session)" late_post 4 None]
    by (auto simp del: run_all.simps)
qed

section \<open>Polling after the close\<close>

lemma decode_message:
  assumes "separator \<notin> set m"
  shows "DecodePayloadWithLimit (CHR ''4'' # m) 0 = ([text_packet Message m], None, 0)"
  using DecodePayload_EncodePayload [of "[text_packet Message m]"] assms
  by (simp add: payload_safe_def wf_packet_def EncodePayload_def EncodePacket_def DecodePayload_def)

text \<open>
  C33. A client that was closed by an error goes on polling. \<^verbatim>\<open>closeWithError\<close> does not close the
  transport, so that the poll loop sends its next request after the close callback, and hands a
  message of the answer to the data callback of the closed client.
\<close>

theorem closed_client_keeps_polling:
  assumes "\<not> ec_closed c" and "ec_polling c = Some p" and "cp_phase p = PTop"
    and "\<not> cp_closed p" and "\<not> cp_paused p" and "\<not> cp_cancelled p" and "separator \<notin> set m"
  shows "\<exists>c'. run_all [closeWithError err, poll_top None, poll_answered (Inr (200, Inr (CHR ''4'' # m))), poll_next] c =
      (c', [CloseCall (ec_onClose c) err, Get (urlWithSID c p), DataCall (ec_onData c) m False]) \<and> ec_closed c'"
proof -
  have s: "ec_polling (stop_watchdog c1) = ec_polling c1" "ec_onClose (stop_watchdog c1) = ec_onClose c1"
    "ec_onData (stop_watchdog c1) = ec_onData c1" "ec_sid (stop_watchdog c1) = ec_sid c1" "ec_closed (stop_watchdog c1) = ec_closed c1" for c1
    by (simp_all add: stop_watchdog_def split: option.split)
  show ?thesis
    using assms
    by (cases err) (simp_all add: closeWithError_def handshakeFailed_def poll_top_def poll_answered_def poll_next_def decode_message
        binding_OnPacket_def ec_onPacket_def map_cp_def urlWithSID_def s Let_def)
qed

definition opened_client :: eclient where
  "opened_client = fst (the (ec_run run_open run_start))"

theorem closed_client_keeps_polling_witness:
  "ec_run run_open run_start \<noteq> None
    \<and> (\<exists>c' q. run_all [closeWithError (Some ErrHeartbeatTimeout), poll_top None, poll_answered (Inr (200, Inr ''4late'')), poll_next] opened_client =
      (c', [CloseCall 0 (Some ErrHeartbeatTimeout), Get q, DataCall 0 ''late'' False]) \<and> ec_closed c')"
proof -
  have r: "ec_run run_open run_start \<noteq> None"
    by code_simp
  have "\<not> ec_closed opened_client" "ec_polling opened_client \<noteq> None" "cp_phase (the (ec_polling opened_client)) = PTop"
    "\<not> cp_closed (the (ec_polling opened_client))" "\<not> cp_paused (the (ec_polling opened_client))"
    "\<not> cp_cancelled (the (ec_polling opened_client))" "separator \<notin> set ''late''" "ec_onClose opened_client = 0" "ec_onData opened_client = 0"
    by code_simp+
  then show ?thesis
    using r closed_client_keeps_polling [of opened_client "the (ec_polling opened_client)" "''late''" "Some ErrHeartbeatTimeout"]
    by (auto simp del: run_all.simps)
qed

end
