(* ===== verification/SioHttp.thy ===== *)
theory SioHttp
  imports EioServerProps
begin

text \<open>
  The HTTP layer of the Socket.IO server (\<^verbatim>\<open>socketio/server.go\<close>): the path guard, the rules for
  cross-origin requests and the writer that adds their headers to the responses of the engine.
  Only requests that pass them reach the Engine.IO server.
\<close>

section \<open>Responses\<close>

text \<open>
  A response of \<^verbatim>\<open>net/http\<close>: the header map, the status with the header as it was when the status
  was written, and the body. Informational statuses are not final, a second status is ignored,
  and some statuses have no body. What the package adds by itself when it sends the response
  is left out.
\<close>

type_synonym header = "(string \<times> string list) list"

record http_writer =
  hw_header :: header
  hw_sent :: "(nat \<times> header) option"
  hw_body :: bytes

definition new_writer :: http_writer where
  "new_writer = \<lparr>hw_header = [], hw_sent = None, hw_body = []\<rparr>"

definition hdr_Set :: "string \<Rightarrow> string \<Rightarrow> header \<Rightarrow> header" where
  "hdr_Set k v h = AList.update k [v] h"

definition hdr_Add :: "string \<Rightarrow> string \<Rightarrow> header \<Rightarrow> header" where
  "hdr_Add k v h = AList.update k ((case map_of h k of None \<Rightarrow> [] | Some vs \<Rightarrow> vs) @ [v]) h"

definition map_header :: "(header \<Rightarrow> header) \<Rightarrow> http_writer \<Rightarrow> http_writer" where
  "map_header f w = w\<lparr>hw_header := f (hw_header w)\<rparr>"

definition hw_WriteHeader :: "nat \<Rightarrow> http_writer \<Rightarrow> http_writer" where
  "hw_WriteHeader code w =
     (if hw_sent w \<noteq> None then w
      else if 100 \<le> code \<and> code \<le> 199 \<and> code \<noteq> 101 then w
      else w\<lparr>hw_sent := Some (code, hw_header w)\<rparr>)"

definition hw_Write :: "bytes \<Rightarrow> http_writer \<Rightarrow> http_writer" where
  "hw_Write b w =
     (let w1 = (if hw_sent w = None then hw_WriteHeader 200 w else w)
      in case hw_sent w1 of
           Some (code, h) \<Rightarrow> if code \<in> {101, 204, 304} then w1 else w1\<lparr>hw_body := hw_body w1 @ b\<rparr>
         | None \<Rightarrow> w1)"

definition http_NotFound :: "http_writer \<Rightarrow> http_writer" where
  "http_NotFound w =
     hw_Write (''404 page not found'' @ [CHR 0x0A])
       (hw_WriteHeader 404
         (map_header (\<lambda>h. hdr_Set ''X-Content-Type-Options'' ''nosniff''
            (hdr_Set ''Content-Type'' ''text/plain; charset=utf-8'' (AList.delete ''Content-Length'' h))) w))"

section \<open>Origins\<close>

text \<open>
  \<^verbatim>\<open>url.Parse\<close> is the argument \<open>parseURL\<close>, giving the scheme and the host, and \<^verbatim>\<open>strings.EqualFold\<close> the
  argument \<open>eqFold\<close>.
\<close>

record cors_config =
  cc_AllowAll :: bool
  cc_AllowedOrigins :: "string list"

definition AllowAll :: cors_config where
  "AllowAll = \<lparr>cc_AllowAll = True, cc_AllowedOrigins = []\<rparr>"

type_synonym url_parser = "string \<Rightarrow> (string \<times> string) option"

fun origin_listed :: "url_parser \<Rightarrow> (string \<Rightarrow> string \<Rightarrow> bool) \<Rightarrow> string \<times> string \<Rightarrow> string list \<Rightarrow> bool" where
  "origin_listed parseURL eqFold u [] = False"
| "origin_listed parseURL eqFold u (allowed # rest) =
     (case parseURL allowed of
        None \<Rightarrow> origin_listed parseURL eqFold u rest
      | Some (scheme, host) \<Rightarrow>
          if host = [] then origin_listed parseURL eqFold u rest
          else if eqFold (fst u) scheme \<and> eqFold (snd u) host then True
          else origin_listed parseURL eqFold u rest)"

definition originAllowed :: "url_parser \<Rightarrow> (string \<Rightarrow> string \<Rightarrow> bool) \<Rightarrow> cors_config \<Rightarrow> string \<Rightarrow> bool" where
  "originAllowed parseURL eqFold c origin =
     (if cc_AllowAll c then True
      else
        (case parseURL origin of
           None \<Rightarrow> False
         | Some (scheme, host) \<Rightarrow>
             if host = [] then False else origin_listed parseURL eqFold (scheme, host) (cc_AllowedOrigins c)))"

definition corsOriginValue :: "cors_config \<Rightarrow> string \<Rightarrow> string" where
  "corsOriginValue c origin = (if cc_AllowAll c then ''*'' else origin)"

text \<open>The WebSocket origin policy, part of the options of \<^verbatim>\<open>websocket.Accept\<close>.\<close>

record accept_options =
  ao_InsecureSkipVerify :: bool
  ao_OriginPatterns :: "string list"

definition configureAcceptOptions :: "cors_config \<Rightarrow> accept_options option \<Rightarrow> accept_options" where
  "configureAcceptOptions cors ao =
     (let ao1 = (case ao of None \<Rightarrow> \<lparr>ao_InsecureSkipVerify = False, ao_OriginPatterns = []\<rparr> | Some a \<Rightarrow> a)
      in if cc_AllowAll cors then ao1\<lparr>ao_InsecureSkipVerify := True, ao_OriginPatterns := []\<rparr>
         else ao1\<lparr>ao_InsecureSkipVerify := False, ao_OriginPatterns := cc_AllowedOrigins cors\<rparr>)"

section \<open>The writer that adds the headers\<close>

record cors_writer =
  cw_inner :: http_writer
  cw_origin :: string
  cw_wrote :: bool

definition writeHeaders :: "cors_writer \<Rightarrow> cors_writer" where
  "writeHeaders w =
     (if cw_wrote w then w
      else w\<lparr>cw_wrote := True,
             cw_inner := map_header (\<lambda>h. hdr_Add ''Vary'' ''Origin'' (hdr_Set ''Access-Control-Allow-Origin'' (cw_origin w) h)) (cw_inner w)\<rparr>)"

definition cors_WriteHeader :: "nat \<Rightarrow> cors_writer \<Rightarrow> cors_writer" where
  "cors_WriteHeader code w = (let w1 = writeHeaders w in w1\<lparr>cw_inner := hw_WriteHeader code (cw_inner w1)\<rparr>)"

definition cors_Write :: "bytes \<Rightarrow> cors_writer \<Rightarrow> cors_writer" where
  "cors_Write b w = (let w1 = writeHeaders w in w1\<lparr>cw_inner := hw_Write b (cw_inner w1)\<rparr>)"

text \<open>What a handler does with its writer: changes of the header map, the status and the body.\<close>

datatype w_call = WSet string string | WAdd string string | WDel string | WStatus nat | WBody bytes

fun w_call_apply :: "w_call \<Rightarrow> cors_writer \<Rightarrow> cors_writer" where
  "w_call_apply (WSet k v) w = w\<lparr>cw_inner := map_header (hdr_Set k v) (cw_inner w)\<rparr>"
| "w_call_apply (WAdd k v) w = w\<lparr>cw_inner := map_header (hdr_Add k v) (cw_inner w)\<rparr>"
| "w_call_apply (WDel k) w = w\<lparr>cw_inner := map_header (AList.delete k) (cw_inner w)\<rparr>"
| "w_call_apply (WStatus code) w = cors_WriteHeader code w"
| "w_call_apply (WBody b) w = cors_Write b w"

section \<open>Serving\<close>

record http_config =
  hc_path :: string
  hc_cors :: "cors_config option"

text \<open>A request is answered here, or goes on to the engine with the writer to use.\<close>

definition handleCORS ::
    "url_parser \<Rightarrow> (string \<Rightarrow> string \<Rightarrow> bool) \<Rightarrow> cors_config \<Rightarrow> request \<Rightarrow> http_writer \<Rightarrow> http_writer + cors_writer" where
  "handleCORS parseURL eqFold cors rq w =
     (let origin = get_first (rq_Header rq) ''Origin'';
          allowed = (cc_AllowAll cors \<or> originAllowed parseURL eqFold cors origin)
      in if rq_Method rq = ''OPTIONS'' then
           (if \<not> allowed then Inl (hw_WriteHeader 403 w)
            else
              (let acrh = get_first (rq_Header rq) ''Access-Control-Request-Headers'';
                   h1 = hdr_Set ''Access-Control-Allow-Methods'' ''GET,POST''
                     (hdr_Set ''Access-Control-Allow-Origin'' (corsOriginValue cors origin) (hw_header w));
                   h2 = (if acrh \<noteq> [] then hdr_Set ''Access-Control-Allow-Headers'' acrh h1 else h1);
                   h3 = hdr_Add ''Vary'' ''Origin'' (hdr_Set ''Access-Control-Max-Age'' ''86400'' h2)
               in Inl (hw_WriteHeader 204 (w\<lparr>hw_header := h3\<rparr>))))
         else if \<not> allowed then Inl (hw_WriteHeader 403 w)
         else Inr \<lparr>cw_inner = w, cw_origin = corsOriginValue cors origin, cw_wrote = False\<rparr>)"

definition sio_ServeHTTP ::
    "url_parser \<Rightarrow> (string \<Rightarrow> string \<Rightarrow> bool) \<Rightarrow> http_config \<Rightarrow> request \<Rightarrow> http_writer \<Rightarrow> http_writer + cors_writer option" where
  "sio_ServeHTTP parseURL eqFold cfg rq w =
     (if hc_path cfg \<noteq> [] \<and> \<not> hasPrefix (rq_Path rq) (hc_path cfg) then Inl (http_NotFound w)
      else
        (case hc_cors cfg of
           None \<Rightarrow> Inr None
         | Some cors \<Rightarrow>
             (case handleCORS parseURL eqFold cors rq w of
                Inl w1 \<Rightarrow> Inl w1
              | Inr cw \<Rightarrow> Inr (Some cw))))"

text \<open>The request seen by the engine.\<close>

definition sio_serve ::
    "url_parser \<Rightarrow> (string \<Rightarrow> string \<Rightarrow> bool) \<Rightarrow> http_config \<Rightarrow> nat \<Rightarrow> request \<Rightarrow> bytes option \<Rightarrow> bool \<Rightarrow> writes
      \<Rightarrow> eio_server \<Rightarrow> (eio_server \<times> srv_effect list) \<times> http_writer option" where
  "sio_serve parseURL eqFold cfg r rq rnd acc w sv =
     (case sio_ServeHTTP parseURL eqFold cfg rq new_writer of
        Inl hw \<Rightarrow> ((sv, []), Some hw)
      | Inr cw \<Rightarrow> (eio_ServeHTTP r rq rnd acc w sv, None))"

section \<open>Properties\<close>

text \<open>The rule for origins, without the loop.\<close>

definition permitted :: "url_parser \<Rightarrow> (string \<Rightarrow> string \<Rightarrow> bool) \<Rightarrow> cors_config \<Rightarrow> string \<Rightarrow> bool" where
  "permitted parseURL eqFold c origin \<longleftrightarrow>
     cc_AllowAll c
     \<or> (\<exists>scheme host allowed scheme' host'. parseURL origin = Some (scheme, host) \<and> host \<noteq> []
          \<and> allowed \<in> set (cc_AllowedOrigins c) \<and> parseURL allowed = Some (scheme', host') \<and> host' \<noteq> []
          \<and> eqFold scheme scheme' \<and> eqFold host host')"

lemma origin_listed_iff:
  "origin_listed parseURL eqFold u as \<longleftrightarrow>
     (\<exists>allowed\<in>set as. \<exists>scheme host. parseURL allowed = Some (scheme, host) \<and> host \<noteq> [] \<and> eqFold (fst u) scheme \<and> eqFold (snd u) host)"
  by (induction as) (auto split: option.split)

lemma originAllowed_permitted: "originAllowed parseURL eqFold c origin = permitted parseURL eqFold c origin"
  by (auto simp: originAllowed_def permitted_def origin_listed_iff split: option.splits)

lemma allowed_permitted: "cc_AllowAll c \<or> originAllowed parseURL eqFold c origin \<longleftrightarrow> permitted parseURL eqFold c origin"
  unfolding originAllowed_permitted by (auto simp: permitted_def)

text \<open>The headers of the writer, as long as a handler does not touch them itself.\<close>

definition names_cors :: "w_call \<Rightarrow> bool" where
  "names_cors call \<longleftrightarrow>
     (case call of
        WSet k v \<Rightarrow> k \<in> {''Access-Control-Allow-Origin'', ''Vary''}
      | WAdd k v \<Rightarrow> k = ''Access-Control-Allow-Origin''
      | WDel k \<Rightarrow> k \<in> {''Access-Control-Allow-Origin'', ''Vary''}
      | _ \<Rightarrow> False)"

definition cors_headers :: "string \<Rightarrow> header \<Rightarrow> bool" where
  "cors_headers origin h \<longleftrightarrow>
     map_of h ''Access-Control-Allow-Origin'' = Some [origin] \<and> (\<exists>vs. map_of h ''Vary'' = Some vs \<and> ''Origin'' \<in> set vs)"

definition cors_ok :: "string \<Rightarrow> cors_writer \<Rightarrow> bool" where
  "cors_ok origin w \<longleftrightarrow>
     cw_origin w = origin
     \<and> (if cw_wrote w then cors_headers origin (hw_header (cw_inner w)) else hw_sent (cw_inner w) = None)
     \<and> (\<forall>code h. hw_sent (cw_inner w) = Some (code, h) \<longrightarrow> cors_headers origin h)"

lemma cors_headers_write: "cors_headers origin (hdr_Add ''Vary'' ''Origin'' (hdr_Set ''Access-Control-Allow-Origin'' origin h))"
  by (simp add: cors_headers_def hdr_Add_def hdr_Set_def update_conv' split: option.split)

lemma cors_ok_writeHeaders: "cors_ok origin w \<Longrightarrow> cors_ok origin (writeHeaders w) \<and> cw_wrote (writeHeaders w)"
  using cors_headers_write by (auto simp: cors_ok_def writeHeaders_def map_header_def)

lemma cors_ok_sent:
  assumes "cors_ok origin w" and "cw_wrote w"
  shows "cors_ok origin (w\<lparr>cw_inner := hw_WriteHeader code (cw_inner w)\<rparr>)"
    and "cors_ok origin (w\<lparr>cw_inner := hw_Write b (cw_inner w)\<rparr>)"
  using assms by (auto simp: cors_ok_def hw_WriteHeader_def hw_Write_def Let_def split: option.splits)

lemma cors_ok_call:
  assumes "cors_ok origin w" and "\<not> names_cors call"
  shows "cors_ok origin (w_call_apply call w)"
proof (cases call)
  case (WStatus code)
  then show ?thesis
    using cors_ok_writeHeaders [OF assms(1)] cors_ok_sent by (simp add: cors_WriteHeader_def Let_def)
next
  case (WBody b)
  then show ?thesis
    using cors_ok_writeHeaders [OF assms(1)] cors_ok_sent by (simp add: cors_Write_def Let_def)
qed (use assms in \<open>auto simp: cors_ok_def names_cors_def cors_headers_def map_header_def hdr_Set_def hdr_Add_def update_conv' delete_conv'
    split: option.splits\<close>)

lemma cors_ok_calls:
  assumes "cors_ok origin w" and "\<forall>call\<in>set calls. \<not> names_cors call"
  shows "cors_ok origin (fold w_call_apply calls w)"
  using assms by (induction calls arbitrary: w) (simp_all add: cors_ok_call)

lemma cors_ok_start: "cors_ok origin \<lparr>cw_inner = new_writer, cw_origin = origin, cw_wrote = False\<rparr>"
  by (simp add: cors_ok_def new_writer_def)

lemma ServeHTTP_creates:
  assumes "es_nsocks (fst (eio_ServeHTTP r rq rnd acc w sv)) \<noteq> es_nsocks sv"
  shows "admitted sv rq"
proof -
  let ?t = "get_first (rq_Query rq) ''transport''"
  consider "?t = ''polling''" "creates sv rq False (fst (eio_ServeHTTP r rq rnd acc w sv))"
    | "?t = ''websocket''" "creates sv rq True (fst (eio_ServeHTTP r rq rnd acc w sv))"
    using assms creates_polling creates_websocket
    by (auto simp: eio_ServeHTTP_def abortRequest_def perform_def Let_def split: if_splits)
  then show ?thesis
    using assms verify_new [of rq sv False] verify_new [of rq sv True] by cases (simp_all add: creates_def)
qed

definition in_path :: "http_config \<Rightarrow> request \<Rightarrow> bool" where
  "in_path cfg rq \<longleftrightarrow> hc_path cfg = [] \<or> hasPrefix (rq_Path rq) (hc_path cfg)"

definition origin_of :: "request \<Rightarrow> string" where
  "origin_of rq = get_first (rq_Header rq) ''Origin''"

lemma ServeHTTP_passes:
  assumes "hc_cors cfg = Some cors"
  shows "sio_ServeHTTP parseURL eqFold cfg rq w = Inr cw \<longleftrightarrow>
    in_path cfg rq \<and> permitted parseURL eqFold cors (origin_of rq) \<and> rq_Method rq \<noteq> ''OPTIONS''
    \<and> cw = Some \<lparr>cw_inner = w, cw_origin = corsOriginValue cors (origin_of rq), cw_wrote = False\<rparr>"
  using assms
  unfolding sio_ServeHTTP_def handleCORS_def Let_def allowed_permitted [folded origin_of_def]
  by (auto simp: in_path_def origin_of_def)

lemma ServeHTTP_answers:
  assumes "hc_cors cfg = Some cors" and "sio_ServeHTTP parseURL eqFold cfg rq new_writer = Inl w"
  shows "\<exists>code h. hw_sent w = Some (code, h)
    \<and> code = (if \<not> in_path cfg rq then 404 else if permitted parseURL eqFold cors (origin_of rq) then 204 else 403)
    \<and> map_of h ''Access-Control-Allow-Origin'' =
        (if code = 204 then Some [corsOriginValue cors (origin_of rq)] else None)"
proof (cases "in_path cfg rq")
  case False
  then show ?thesis
    using assms
    by (auto simp: sio_ServeHTTP_def in_path_def http_NotFound_def new_writer_def hw_Write_def hw_WriteHeader_def map_header_def hdr_Set_def
        update_conv' Let_def)
next
  case True
  then have "handleCORS parseURL eqFold cors rq new_writer = Inl w"
    using assms by (auto simp: sio_ServeHTTP_def in_path_def split: sum.splits)
  then show ?thesis
    using True unfolding handleCORS_def Let_def allowed_permitted
    by (auto simp: new_writer_def hw_WriteHeader_def hdr_Set_def hdr_Add_def update_conv' origin_of_def split: if_splits)
qed


text \<open>A parser for the sample, which knows only the form with a scheme and a host.\<close>

definition sample_parse :: url_parser where
  "sample_parse s =
     (if hasPrefix s ''http://'' then Some (''http'', drop 7 s)
      else if hasPrefix s ''https://'' then Some (''https'', drop 8 s) else None)"

definition sample_http :: http_config where
  "sample_http = \<lparr>hc_path = ''/engine.io'', hc_cors = Some \<lparr>cc_AllowAll = False, cc_AllowedOrigins = [''https://a.com'']\<rparr>\<rparr>"

definition origin_request :: "string \<Rightarrow> request" where
  "origin_request origin = (poll_request [])\<lparr>rq_Header := [(''Origin'', [origin])]\<rparr>"


end
