(* ===== verification/Spec2Isabelle.thy ===== *)
theory Spec2Isabelle
  imports SioServerProps SioClientProps EioDelivery SioStack EioClientFindings SioHttp
begin

text \<open>
  Verification of gosocketio, a Socket.IO server and client in Go.

  \<^bold>\<open>The program.\<close> The package \<^verbatim>\<open>engineio\<close> carries messages between a client and a server over HTTP
  long polling and WebSocket: a session starts with a handshake, exchanges packets, answers a
  heartbeat, and may be upgraded from polling to WebSocket while it runs. The package
  \<^verbatim>\<open>socketio\<close> runs on top of it: packets of events and acknowledgements with JSON payloads and
  binary attachments, namespaces with middlewares and rooms, event handlers called by
  reflection, and a client that reconnects. A Socket.IO server owns an Engine.IO server and
  reacts to its callbacks; a Socket.IO client owns an Engine.IO client.

  \<^bold>\<open>How code is modelled.\<close>
  \<^item> Go strings and byte slices are \<^typ>\<open>string\<close>; an \<^verbatim>\<open>int64\<close> whose bounds matter keeps its width
    (acknowledgement ids, reconnection delays, attachment counts); Go maps are association
    lists; Go errors are values of one type with their \<^verbatim>\<open>errors.Is\<close> chain.
  \<^item> A structure is a record, an enumeration a datatype, a method a function from the state to
    the state and the list of its effects: packets written, callbacks and handlers called,
    goroutines started. Theory Steps composes such functions in the order of the code.
  \<^item> A method runs in one step as long as the code holds its lock, or nobody else can see what
    it does. Where the code releases the lock around a write, a callback or a wait, it is split
    there: the goroutine is a phase or a task in the state, and the step relations let any other
    step happen in between.
  \<^item> What comes from outside is an argument: bytes that arrive, the outcome of a dial, an HTTP
    request or a write, random ids, the answer of a handler of the application, the clock's
    ticks, \<^verbatim>\<open>url.Parse\<close>, and the JSON decoder of an application's own types.

  \<^bold>\<open>The theories.\<close>
  \<^item> Prelude, Steps: lemmas on lists, tables and errors; composition of steps, and the relations
    between the states before and after that a composition obeys (locale \<^verbatim>\<open>step_relation\<close>).
  \<^item> Errors: \<^verbatim>\<open>engineio/errors.go\<close>, \<^verbatim>\<open>socketio/errors.go\<close> and the errors of
    \<^verbatim>\<open>engineio/transport/transport.go\<close>.
  \<^item> Base64, GoValue, JsonText, Json, JsonStruct: the parts of the Go library that both ends use,
    \<^verbatim>\<open>encoding/base64\<close>, \<^verbatim>\<open>any\<close> values, and \<^verbatim>\<open>encoding/json\<close> as a lexer, parser and printer. The
    locale \<^verbatim>\<open>json_codec\<close> is what the packet codec relies on.
  \<^item> EioPacket: \<^verbatim>\<open>engineio/transport/packet.go\<close>. Single packets and payloads decode to what was
    encoded; decoding under a limit keeps a prefix.
  \<^item> EioOptions, EioPolling, EioSession: \<^verbatim>\<open>engineio/options.go\<close>, \<^verbatim>\<open>transport/polling.go\<close>,
    \<^verbatim>\<open>transport/websocket.go\<close> and \<^verbatim>\<open>engineio/socket.go\<close>. EioSessionProps has the step relation of a
    session, its invariant, and what is called when it closes; EioDelivery shows that packets
    are delivered once and in order, across polls and across the upgrade.
  \<^item> EioServer, EioServerProps: \<^verbatim>\<open>engineio/server.go\<close>, the table of sessions and the checks that a
    request passes before it reaches one.
  \<^item> EioClient, EioClientProps, EioClientFindings: \<^verbatim>\<open>engineio/client.go\<close> and
    \<^verbatim>\<open>engineio/client_transport.go\<close>. The locale \<^verbatim>\<open>client_changes\<close> reduces a relation over all runs of
    the client to its primitive changes, and extends to \<^verbatim>\<open>client_relation\<close>, which needs one law
    for each operation. Its instances say that no packet is lost or sent twice, that the
    close callback is called at most once, and that the open callback of the caller comes
    too late; the findings are runs in which the client does not do what it means to.
  \<^item> EioHandshake: the server's answer to the first request, given to the client, leaves both
    with the same session id, heartbeat and decision to upgrade.
  \<^item> SioPacket, SioWire: \<^verbatim>\<open>socketio/packet.go\<close>, and \<^verbatim>\<open>sendPacket\<close>, \<^verbatim>\<open>handleIn\<close> and \<^verbatim>\<open>feedBinary\<close>, which the
    server and the client share. Packets sent one after the other arrive one after the other.
  \<^item> SioStack: the two layers together. What \<^verbatim>\<open>sendPacket\<close> hands to a session on polling reaches the
    packet processor of the client as the packets that were sent.
  \<^item> AckTable, PacketQueue, Adapter, Emitter: \<^verbatim>\<open>socketio/ack.go\<close>, the packet queue of
    \<^verbatim>\<open>socketio/server.go\<close> (locale \<^verbatim>\<open>fifo\<close>), \<^verbatim>\<open>socketio/adapter.go\<close> (locale \<^verbatim>\<open>adapter\<close>, the
    interface of the same name, with the memory adapter as its instance), and
    \<^verbatim>\<open>socketio/emitter.go\<close>: which arguments a handler gets and when calling it panics.
  \<^item> Namespace, SioServer, SioServerInv, SioServerProps: \<^verbatim>\<open>socketio/namespace.go\<close>,
    \<^verbatim>\<open>socketio/socket.go\<close> and \<^verbatim>\<open>socketio/server.go\<close>. The tables of sockets, rooms, namespaces and
    connections agree in every reachable state; what a CONNECT, a disconnect and the end of
    a session do.
  \<^item> SioHttp: \<^verbatim>\<open>ServeHTTP\<close> and the cross-origin rules of \<^verbatim>\<open>socketio/server.go\<close>.
  \<^item> SioClient, SioClientProps: \<^verbatim>\<open>socketio/client.go\<close>, with the waiting CONNECT calls, the loss of a
    session and the reconnecting goroutine.

  \<^bold>\<open>Bounds.\<close> No definition uses fuel: the recursions are structural or have a termination proof
  (the lexers and the UTF-8 functions consume their input), and the loops of goroutines are steps
  of a relation. That the reconnecting goroutine ends, and after how many dials, is a theorem on
  its steps. Sample states and inputs appear only in the theorems that apply a property to a
  concrete case.

  \<^bold>\<open>Not modelled.\<close>
  \<^item> Loggers and the \<^verbatim>\<open>SetLogger\<close> methods (\<^verbatim>\<open>log.go\<close>): nothing reads a log back. Package comments,
    example programs, and accessors without an effect. The \<^verbatim>\<open>Transport\<close> and \<^verbatim>\<open>Handler\<close>
    interfaces have no code of their own; the types that implement them are modelled.
  \<^item> \<^verbatim>\<open>SetAdapterFactory\<close>: every namespace of the model has a memory adapter. An adapter of the
    application is covered by the laws of the locale \<^verbatim>\<open>adapter\<close> only.
  \<^item> The HTTP and WebSocket libraries below the handlers: requests, frames and failures are
    arguments. Headers of engine responses other than those of the cross-origin rules.
  \<^item> In \<^verbatim>\<open>encoding/json\<close>, the nesting limit of 10000 and the rounding of decimals that a \<^verbatim>\<open>float64\<close>
    does not represent.
  \<^item> A timer that fires while it is being stopped, and interleavings inside a method that
    holds its lock throughout.
\<close>

end
